(* ===== verification/Prelude.thy ===== *)
theory Prelude
  imports
    Complex_Main
    "HOL-Library.Multiset"
    "HOL-Library.List_Lexorder"
    "HOL-Library.Char_ord"
begin

text \<open>
  Shared vocabulary of the development. The script \<open>src/bussiness_analysis.py\<close>
  works on one pandas DataFrame; its cells are numbers, strings or the missing value
  NaN. This theory fixes the types every component uses: the exceptions the script
  can raise, the cell type (with the total order pandas uses when it sorts group
  keys), a float64 series as a list of \<open>real option\<close> (\<open>None\<close> is NaN), a
  frame as a list of named columns, the interface \<open>dists\<close> to the scipy
  distributions with the properties of it some lemmas assume (symmetry of the t
  distribution, survival functions that are probabilities) and an instance satisfying
  them, and the list and real-number lemmas the component proofs share.
\<close>

section \<open>Errors, cells and frames\<close>

text \<open>The Python exceptions that end the script; \<open>NoSalesColumn\<close> is the
  \<open>raise Exception(...)\<close> of line 31, the others come from pandas and scipy calls.\<close>

datatype error =
    NoSalesColumn
  | KeyError
  | TypeError
  | ValueError
  | AttributeError

datatype cell = Num real | Str string | NA

type_synonym 'a result = "error + 'a"
type_synonym series = "real option list"
type_synonym column = "string \<times> cell list"
type_synonym frame = "column list"

named_theorems stat_simps "evaluation rules of the statistics operations"

subsection \<open>The order of group keys\<close>

text \<open>
  \<open>DataFrame.groupby\<close> sorts its keys; on a column that mixes numbers and
  strings pandas' \<open>safe_sort\<close> puts the numbers first. Strings compare by code
  point, which is the lexicographic order on \<open>char list\<close> of
  \<open>HOL-Library.List_Lexorder\<close>. NaN keys are dropped before sorting, so where
  \<open>NA\<close> sits is immaterial; it is put last.
\<close>

fun safe_sort_le :: "cell \<Rightarrow> cell \<Rightarrow> bool" where
  "safe_sort_le (Num a) (Num b) = (a \<le> b)"
| "safe_sort_le (Num _) _ = True"
| "safe_sort_le (Str _) (Num _) = False"
| "safe_sort_le (Str s) (Str t) = (s \<le> t)"
| "safe_sort_le (Str _) NA = True"
| "safe_sort_le NA NA = True"
| "safe_sort_le NA _ = False"

instantiation cell :: linorder
begin

definition less_eq_cell :: "cell \<Rightarrow> cell \<Rightarrow> bool" where
  "less_eq_cell x y = safe_sort_le x y"

definition less_cell :: "cell \<Rightarrow> cell \<Rightarrow> bool" where
  "less_cell x y = (x \<le> y \<and> \<not> y \<le> x)"

instance
proof
  fix x y z :: cell
  show "(x < y) = (x \<le> y \<and> \<not> y \<le> x)" by (simp add: less_cell_def)
  show "x \<le> x" by (cases x) (auto simp: less_eq_cell_def)
  show "x \<le> y \<Longrightarrow> y \<le> z \<Longrightarrow> x \<le> z"
    by (cases x; cases y; cases z) (auto simp: less_eq_cell_def)
  show "x \<le> y \<Longrightarrow> y \<le> x \<Longrightarrow> x = y"
    by (cases x; cases y) (auto simp: less_eq_cell_def)
  show "x \<le> y \<or> y \<le> x"
    by (cases x; cases y) (auto simp: less_eq_cell_def)
qed

end

section \<open>The statistics library the script calls\<close>

text \<open>
  The distribution functions of \<open>scipy.stats\<close> are library code the script only
  calls; they are parameters of the model. \<open>t_sf D df x\<close> is
  \<open>stats.t(df).sf(x)\<close>, \<open>t_ppf D df q\<close> is \<open>stats.t(df).ppf(q)\<close>,
  \<open>f_sf D dfn dfd x\<close> is \<open>stats.f(dfn, dfd).sf(x)\<close> and \<open>shapiro_pvalue D xs\<close>
  the p-value of the Shapiro--Wilk algorithm on a NaN-free sample of at least three
  values. The properties of the t distribution the lemmas rely on are stated as
  predicates on this interface.
\<close>

record dists =
  t_sf :: "real \<Rightarrow> real \<Rightarrow> real"
  t_ppf :: "real \<Rightarrow> real \<Rightarrow> real"
  f_sf :: "real \<Rightarrow> real \<Rightarrow> real \<Rightarrow> real"
  shapiro_pvalue :: "real list \<Rightarrow> real"

text \<open>The t distribution is symmetric about 0: half its mass lies above 0, and its
  quantiles at \<open>p\<close> and \<open>1 - p\<close> are opposite.\<close>

definition t_centered :: "dists \<Rightarrow> bool" where
  "t_centered D \<longleftrightarrow> (\<forall>df>0. t_sf D df 0 = 1/2)"

definition t_ppf_symmetric :: "dists \<Rightarrow> bool" where
  "t_ppf_symmetric D \<longleftrightarrow> (\<forall>df>0. \<forall>p. t_ppf D df (1 - p) = - t_ppf D df p)"

text \<open>Survival functions are probabilities; the t distribution's is at most
  \<open>1/2\<close> above its centre.\<close>

definition t_sf_bounded :: "dists \<Rightarrow> bool" where
  "t_sf_bounded D \<longleftrightarrow> (\<forall>df>0. \<forall>x\<ge>0. 0 \<le> t_sf D df x \<and> t_sf D df x \<le> 1/2)"

definition f_sf_bounded :: "dists \<Rightarrow> bool" where
  "f_sf_bounded D \<longleftrightarrow> (\<forall>dfn dfd x. 0 \<le> x \<longrightarrow> 0 \<le> f_sf D dfn dfd x \<and> f_sf D dfn dfd x \<le> 1)"

text \<open>An instance of the interface for the witnesses: Student's t with one degree of
  freedom (the Cauchy distribution) at every degree of freedom.\<close>

definition cauchy_dists :: dists where
  "cauchy_dists =
     \<lparr>t_sf = (\<lambda>df x. 1/2 - arctan x / pi), t_ppf = (\<lambda>df p. tan (pi * (p - 1/2))),
      f_sf = (\<lambda>dfn dfd x. 1 / (1 + x)), shapiro_pvalue = (\<lambda>xs. 1/2)\<rparr>"

section \<open>NaN handling\<close>

text \<open>pandas reductions skip NaN (\<open>skipna=True\<close>); \<open>dropna\<close> is that step.\<close>

definition dropna :: "series \<Rightarrow> real list" where
  "dropna s = List.map_filter id s"

lemma less_eq_cell_simps [simp]:
  "Num a \<le> Num b \<longleftrightarrow> a \<le> b" "Str s \<le> Str t \<longleftrightarrow> s \<le> t"
  "Num a \<le> Str s" "Num a \<le> NA" "Str s \<le> NA" "\<not> Str s \<le> Num a" "\<not> NA \<le> Num a"
  "\<not> NA \<le> Str s" "NA \<le> NA"
  by (simp_all add: less_eq_cell_def)

lemma dropna_simps [simp]:
  "dropna [] = []"
  "dropna (None # s) = dropna s"
  "dropna (Some x # s) = x # dropna s"
  by (simp_all add: dropna_def)

lemma dropna_append [simp]: "dropna (s @ t) = dropna s @ dropna t"
  by (induction s) (auto simp: dropna_def split: option.splits)

lemma dropna_map_Some [simp]: "dropna (map Some xs) = xs"
  by (induction xs) auto

lemma set_dropna [simp]: "set (dropna s) = {x. Some x \<in> set s}"
proof (induction s)
  case (Cons a s)
  then show ?case by (cases a) auto
qed simp

lemma length_dropna_le: "length (dropna s) \<le> length s"
  by (induction s) (auto split: option.splits simp: dropna_def)

lemma those_Some_iff: "those s = Some xs \<longleftrightarrow> s = map Some xs"
  by (induction s arbitrary: xs) (auto split: option.splits)

lemma those_map_Some [simp]: "those (map Some xs) = Some xs"
  by (induction xs) auto

lemma those_None_iff: "those s = None \<longleftrightarrow> None \<in> set s"
  by (induction s) (auto split: option.splits)

section \<open>Sums of real lists\<close>

lemma sum_list_map_diff_const:
  "(\<Sum>x\<leftarrow>xs. f x - c) = (\<Sum>x\<leftarrow>xs. f x) - real (length xs) * (c :: real)"
  by (induction xs) (auto simp: algebra_simps)

lemma sum_list_le_bound:
  "\<forall>x\<in>set xs. x \<le> (b :: real) \<Longrightarrow> sum_list xs \<le> real (length xs) * b"
  by (induction xs) (auto simp: algebra_simps)

lemma sum_list_ge_bound:
  "\<forall>x\<in>set xs. (b :: real) \<le> x \<Longrightarrow> real (length xs) * b \<le> sum_list xs"
  by (induction xs) (auto simp: algebra_simps)

lemma sum_list_squares_nonneg [simp]: "0 \<le> (\<Sum>x\<leftarrow>xs. (f x)\<^sup>2 :: real)"
  by (induction xs) auto

lemma sum_list_squares_eq_0_iff:
  "(\<Sum>x\<leftarrow>xs. (f x)\<^sup>2 :: real) = 0 \<longleftrightarrow> (\<forall>x\<in>set xs. f x = 0)"
proof (induction xs)
  case Nil
  then show ?case by simp
next
  case (Cons a xs)
  have "0 \<le> (\<Sum>x\<leftarrow>xs. (f x)\<^sup>2)" by simp
  moreover have "0 \<le> (f a)\<^sup>2" by simp
  ultimately show ?case using Cons.IH by (auto simp: add_nonneg_eq_0_iff)
qed

lemma sum_list_mono_real:
  "(\<And>x. x \<in> set xs \<Longrightarrow> f x \<le> (g x :: real)) \<Longrightarrow> (\<Sum>x\<leftarrow>xs. f x) \<le> (\<Sum>x\<leftarrow>xs. g x)"
  by (induction xs) (auto intro: add_mono)

section \<open>Removing duplicates\<close>

lemma remdups_snoc: "remdups (xs @ [c]) = filter (\<lambda>x. x \<noteq> c) (remdups xs) @ [c]"
  by (induction xs) auto

section \<open>Sorted lists\<close>

lemma sorted_nth_mono_le:
  "sorted ys \<Longrightarrow> i \<le> j \<Longrightarrow> j < length ys \<Longrightarrow> ys ! i \<le> ys ! j"
  by (simp add: sorted_iff_nth_mono)

lemma sort_nth_bounds:
  fixes xs :: "real list"
  assumes "i < length xs"
  shows "Min (set xs) \<le> sort xs ! i" "sort xs ! i \<le> Max (set xs)"
proof -
  have "sort xs ! i \<in> set xs"
    using assms by (metis length_sort nth_mem set_sort)
  then show "Min (set xs) \<le> sort xs ! i" "sort xs ! i \<le> Max (set xs)"
    by simp_all
qed

section \<open>Folding with max\<close>

lemma fold_max_ge_start: "(a :: 'a :: linorder) \<le> fold max ys a"
proof (induction ys arbitrary: a)
  case (Cons z zs)
  have "max z a \<le> fold max zs (max z a)" by (rule Cons.IH)
  then show ?case by simp
qed simp

lemma fold_max_ge: "y \<in> set ys \<Longrightarrow> (y :: 'a :: linorder) \<le> fold max ys a"
proof (induction ys arbitrary: a)
  case (Cons z zs)
  show ?case
  proof (cases "y = z")
    case True
    have "max z a \<le> fold max zs (max z a)" by (rule fold_max_ge_start)
    with True show ?thesis by simp
  next
    case False
    with Cons.prems have "y \<in> set zs" by simp
    then show ?thesis using Cons.IH by simp
  qed
qed simp

lemma fold_max_mem: "fold max ys (a :: 'a :: linorder) \<in> insert a (set ys)"
proof (induction ys arbitrary: a)
  case (Cons z zs)
  from Cons.IH [of "max z a"] show ?case by (auto simp: max_def split: if_splits)
qed simp

section \<open>Cauchy--Schwarz for sums over a list\<close>

lemma sum_list_cauchy_schwarz:
  fixes f g :: "'a \<Rightarrow> real"
  shows "(\<Sum>p\<leftarrow>ps. f p * g p)\<^sup>2 \<le> (\<Sum>p\<leftarrow>ps. (f p)\<^sup>2) * (\<Sum>p\<leftarrow>ps. (g p)\<^sup>2)"
proof -
  let ?A = "\<Sum>p\<leftarrow>ps. (f p)\<^sup>2" and ?B = "\<Sum>p\<leftarrow>ps. f p * g p"
    and ?C = "\<Sum>p\<leftarrow>ps. (g p)\<^sup>2"
  show ?thesis
  proof (cases "?A = 0")
    case True
    then have "\<forall>p\<in>set ps. f p = 0" by (simp add: sum_list_squares_eq_0_iff)
    then have "?B = 0" by (induction ps) auto
    then show ?thesis by simp
  next
    case False
    then have A: "0 < ?A" using sum_list_squares_nonneg [of f ps] by linarith
    have "map (\<lambda>p. (?A * g p - ?B * f p)\<^sup>2) ps =
          map (\<lambda>p. ?A\<^sup>2 * (g p)\<^sup>2 - 2 * ?A * ?B * (f p * g p) + ?B\<^sup>2 * (f p)\<^sup>2) ps"
      by (rule map_cong [OF refl]) (simp add: power2_eq_square algebra_simps)
    then have "(\<Sum>p\<leftarrow>ps. (?A * g p - ?B * f p)\<^sup>2) = ?A\<^sup>2 * ?C - 2 * ?A * ?B * ?B + ?B\<^sup>2 * ?A"
      by (simp only: sum_list_addf sum_list_subtractf sum_list_const_mult)
    also have "\<dots> = ?A * (?A * ?C - ?B\<^sup>2)" by (simp add: power2_eq_square algebra_simps)
    finally have "0 \<le> ?A * (?A * ?C - ?B\<^sup>2)"
      using sum_list_squares_nonneg [of "\<lambda>p. ?A * g p - ?B * f p" ps] by simp
    with A have "0 \<le> ?A * ?C - ?B\<^sup>2" by (simp add: zero_le_mult_iff)
    then show ?thesis by simp
  qed
qed

section \<open>The witness distribution\<close>

lemma cauchy_centered: "t_centered cauchy_dists"
  by (simp add: t_centered_def cauchy_dists_def)

lemma cauchy_ppf_symmetric: "t_ppf_symmetric cauchy_dists"
proof -
  have "tan (pi * (1 - p - 1/2)) = - tan (pi * (p - 1/2))" for p :: real
  proof -
    have "pi * (1 - p - 1/2) = - (pi * (p - 1/2))" by (simp add: algebra_simps)
    then show ?thesis by (simp add: tan_minus)
  qed
  then show ?thesis by (simp add: t_ppf_symmetric_def cauchy_dists_def)
qed

lemma cauchy_t_sf_bounded: "t_sf_bounded cauchy_dists"
proof -
  have "0 \<le> 1/2 - arctan x / pi \<and> 1/2 - arctan x / pi \<le> 1/2" if "0 \<le> x" for x :: real
  proof -
    have "0 \<le> arctan x" using that by (simp add: zero_le_arctan_iff)
    moreover have "arctan x < pi / 2" by (rule arctan_ubound)
    ultimately show ?thesis by (simp add: field_simps)
  qed
  then show ?thesis by (simp add: t_sf_bounded_def cauchy_dists_def)
qed

lemma cauchy_f_sf_bounded: "f_sf_bounded cauchy_dists"
  by (simp add: f_sf_bounded_def cauchy_dists_def)

end
