(* ===== verification/Loader.thy ===== *)
theory Loader
  imports Prelude
begin

text \<open>
  The loader, lines 17--23 of \<open>src/bussiness_analysis.py\<close>. \<open>pd.read_csv\<close> is
  I/O and is not modelled: its result is a \<open>frame\<close>. What the script adds is the
  header normalisation of line 20,
  \<open>df.columns.str.strip().str.replace(" ", "_").str.lower()\<close>, modelled here
  with Python's own string semantics on code points \<open>0..255\<close> (Latin-1, one
  \<open>char\<close> per code point): \<open>str.strip\<close> removes the characters for which
  \<open>str.isspace\<close> holds, \<open>str.replace\<close> of a single character is a map, and
  \<open>str.lower\<close> lowers the Latin-1 capitals. The lemmas show that a normalised name
  contains no space, begins and ends with a non-space, is in lower case, that
  normalising twice changes nothing, and, exactly, what line 20 makes of a header
  padded with whitespace.
\<close>

section \<open>Python string methods\<close>

text \<open>\<open>str.isspace\<close> on Latin-1: tab to carriage return, the four separators
  \<open>\x1c..\x1f\<close>, space, NEL (\<open>\x85\<close>) and no-break space (\<open>\xa0\<close>).\<close>

definition py_isspace :: "char \<Rightarrow> bool" where
  "py_isspace c =
     (let n = of_char c :: nat
      in (9 \<le> n \<and> n \<le> 13) \<or> (28 \<le> n \<and> n \<le> 32) \<or> n = 133 \<or> n = 160)"

definition py_strip :: "string \<Rightarrow> string" where
  "py_strip s = rev (dropWhile py_isspace (rev (dropWhile py_isspace s)))"

definition py_replace_space :: "string \<Rightarrow> string" where
  "py_replace_space s = map (\<lambda>c. if c = CHR '' '' then CHR ''_'' else c) s"

text \<open>\<open>str.lower\<close> on Latin-1: the capitals \<open>A..Z\<close> and \<open>\\xc0..\\xde\<close>
  except the multiplication sign \<open>\\xd7\<close> move up by 32; every other code point
  is kept.\<close>

definition latin1_upper :: "nat \<Rightarrow> bool" where
  "latin1_upper n \<longleftrightarrow> (65 \<le> n \<and> n \<le> 90) \<or> (192 \<le> n \<and> n \<le> 222 \<and> n \<noteq> 215)"

definition py_lower_char :: "char \<Rightarrow> char" where
  "py_lower_char c =
     (let n = of_char c :: nat in if latin1_upper n then char_of (n + 32) else c)"

definition py_lower :: "string \<Rightarrow> string" where
  "py_lower s = map py_lower_char s"

section \<open>Header normalisation\<close>

definition normalize_name :: "string \<Rightarrow> string" where
  "normalize_name c = py_lower (py_replace_space (py_strip c))"

definition columns :: "frame \<Rightarrow> string list" where
  "columns df = map fst df"

definition normalize_columns :: "frame \<Rightarrow> frame" where
  "normalize_columns df = map (\<lambda>(c, v). (normalize_name c, v)) df"

text \<open>A DataFrame has one length for all its columns.\<close>

definition nrows :: "frame \<Rightarrow> nat" where
  "nrows df = (case df of [] \<Rightarrow> 0 | (_, v) # _ \<Rightarrow> length v)"

definition wf_frame :: "frame \<Rightarrow> bool" where
  "wf_frame df = list_all (\<lambda>(_, v). length v = nrows df) df"

text \<open>A string that neither begins nor ends with whitespace, the shape
  \<open>str.strip\<close> returns.\<close>

definition edges_nonspace :: "string \<Rightarrow> bool" where
  "edges_nonspace s \<longleftrightarrow> (s \<noteq> [] \<longrightarrow> \<not> py_isspace (hd s) \<and> \<not> py_isspace (last s))"

section \<open>Characters\<close>

lemma of_char_py_lower_char:
  "(of_char (py_lower_char c) :: nat) =
     (if latin1_upper (of_char c) then of_char c + 32 else of_char c)"
  by (auto simp: py_lower_char_def latin1_upper_def)

lemma latin1_upper_not_space:
  "latin1_upper n \<Longrightarrow> \<not> ((9 \<le> n \<and> n \<le> 13) \<or> (28 \<le> n \<and> n \<le> 32) \<or> n = 133 \<or> n = 160) \<and>
     \<not> ((9 \<le> n + 32 \<and> n + 32 \<le> 13) \<or> (28 \<le> n + 32 \<and> n + 32 \<le> 32) \<or>
        n + 32 = 133 \<or> n + 32 = 160)"
  unfolding latin1_upper_def by arith

lemma py_isspace_lower_char [simp]: "py_isspace (py_lower_char c) = py_isspace c"
proof (cases "latin1_upper (of_char c)")
  case True
  then show ?thesis
    using latin1_upper_not_space [of "of_char c"]
    by (simp add: py_isspace_def of_char_py_lower_char Let_def)
next
  case False
  then show ?thesis by (simp add: py_lower_char_def)
qed

lemma py_lower_char_idem [simp]: "py_lower_char (py_lower_char c) = py_lower_char c"
proof (cases "latin1_upper (of_char c)")
  case True
  then have "\<not> latin1_upper (of_char (py_lower_char c))"
    by (auto simp: of_char_py_lower_char latin1_upper_def)
  then show ?thesis by (simp add: py_lower_char_def [of "py_lower_char c"])
next
  case False
  then show ?thesis by (simp add: py_lower_char_def)
qed

lemma py_lower_char_space_iff [simp]:
  "py_lower_char c = CHR '' '' \<longleftrightarrow> c = CHR '' ''"
proof
  assume h: "py_lower_char c = CHR '' ''"
  then have "(of_char (py_lower_char c) :: nat) = of_char CHR '' ''" by simp
  then have "(of_char c :: nat) = of_char CHR '' ''"
    unfolding of_char_py_lower_char by (auto simp: latin1_upper_def split: if_splits)
  then show "c = CHR '' ''" by (rule of_char_eqI)
qed (simp add: py_lower_char_def latin1_upper_def)

lemma py_isspace_space [simp]: "py_isspace CHR '' ''"
  and py_isspace_underscore [simp]: "\<not> py_isspace CHR ''_''"
  by (simp_all add: py_isspace_def)

section \<open>Stripped strings\<close>

lemma last_dropWhile: "dropWhile P xs \<noteq> [] \<Longrightarrow> last (dropWhile P xs) = last xs"
  by (induction xs) auto

lemma py_strip_edges: "edges_nonspace (py_strip s)"
proof -
  let ?u = "dropWhile py_isspace s"
  let ?w = "dropWhile py_isspace (rev ?u)"
  have "py_strip s = rev ?w" by (simp add: py_strip_def)
  moreover have "?w \<noteq> [] \<Longrightarrow> \<not> py_isspace (hd ?w)" by (rule hd_dropWhile)
  moreover have "?w \<noteq> [] \<Longrightarrow> \<not> py_isspace (last ?w)"
  proof -
    assume w: "?w \<noteq> []"
    then have "?u \<noteq> []" by (cases "?u") auto
    then have "\<not> py_isspace (hd ?u)" by (simp add: hd_dropWhile)
    moreover have "last ?w = hd ?u"
      using w \<open>?u \<noteq> []\<close> by (simp add: last_dropWhile last_rev)
    ultimately show ?thesis by simp
  qed
  ultimately show ?thesis
    by (auto simp: edges_nonspace_def hd_rev last_rev)
qed

lemma py_strip_id: "edges_nonspace s \<Longrightarrow> py_strip s = s"
proof (cases "s = []")
  case False
  assume e: "edges_nonspace s"
  with False have "\<not> py_isspace (hd s)" and "\<not> py_isspace (last s)"
    by (auto simp: edges_nonspace_def)
  with False have "dropWhile py_isspace s = s"
    and "dropWhile py_isspace (rev s) = rev s"
    by (simp_all add: dropWhile_eq_self_iff hd_rev)
  then show ?thesis by (simp add: py_strip_def)
qed (simp add: py_strip_def)

lemma py_strip_pad:
  assumes w: "list_all py_isspace ws1" "list_all py_isspace ws2" and e: "edges_nonspace s"
  shows "py_strip (ws1 @ s @ ws2) = s"
proof (cases "s = []")
  case True
  have d: "dropWhile py_isspace (ws1 @ s @ ws2) = []"
    using w True by (simp only: dropWhile_eq_Nil_conv) (auto simp: list_all_iff)
  show ?thesis unfolding py_strip_def d using True by simp
next
  case False
  with e have h: "\<not> py_isspace (hd s)" and l: "\<not> py_isspace (last s)"
    by (auto simp: edges_nonspace_def)
  have "dropWhile py_isspace (ws1 @ s @ ws2) = dropWhile py_isspace (s @ ws2)"
    using w(1) by (simp add: dropWhile_append2 list_all_iff)
  also have "\<dots> = s @ ws2" using False h by (simp add: dropWhile_eq_self_iff)
  finally have d1: "dropWhile py_isspace (ws1 @ s @ ws2) = s @ ws2" .
  have "dropWhile py_isspace (rev ws2 @ rev s) = dropWhile py_isspace (rev s)"
    using w(2) by (intro dropWhile_append2) (simp add: list_all_iff)
  then have "dropWhile py_isspace (rev (s @ ws2)) = dropWhile py_isspace (rev s)" by simp
  also have "\<dots> = rev s" using False l by (simp add: dropWhile_eq_self_iff hd_rev)
  finally show ?thesis using d1 by (simp add: py_strip_def)
qed

lemma edges_nonspace_map:
  assumes e: "edges_nonspace s" and f: "\<And>c. \<not> py_isspace c \<Longrightarrow> \<not> py_isspace (f c)"
  shows "edges_nonspace (map f s)"
proof (cases "s = []")
  case False
  with e have "\<not> py_isspace (hd s)" "\<not> py_isspace (last s)"
    by (simp_all add: edges_nonspace_def)
  then have "\<not> py_isspace (f (hd s))" "\<not> py_isspace (f (last s))"
    by (simp_all add: f)
  with False show ?thesis by (simp add: edges_nonspace_def hd_map last_map)
qed (simp add: edges_nonspace_def)

lemma py_replace_space_keeps_nonspace:
  "\<not> py_isspace c \<Longrightarrow> \<not> py_isspace (if c = CHR '' '' then CHR ''_'' else c)"
  by simp

lemma py_replace_space_id: "CHR '' '' \<notin> set s \<Longrightarrow> py_replace_space s = s"
  by (induction s) (auto simp: py_replace_space_def)

lemma space_notin_py_replace_space [simp]: "CHR '' '' \<notin> set (py_replace_space s)"
  by (auto simp: py_replace_space_def)

lemma py_lower_idem [simp]: "py_lower (py_lower s) = py_lower s"
  by (simp add: py_lower_def comp_def)

lemma space_in_py_lower [simp]: "CHR '' '' \<in> set (py_lower s) \<longleftrightarrow> CHR '' '' \<in> set s"
proof (induction s)
  case (Cons a s)
  have "CHR '' '' = py_lower_char a \<longleftrightarrow> CHR '' '' = a"
    using py_lower_char_space_iff [of a] by (metis)
  with Cons show ?case by (simp add: py_lower_def)
qed (simp add: py_lower_def)

section \<open>Properties of the normalisation\<close>

lemma normalize_name_edges: "edges_nonspace (normalize_name c)"
  unfolding normalize_name_def py_lower_def py_replace_space_def
  by (intro edges_nonspace_map py_strip_edges) auto

lemma normalize_name_no_space: "CHR '' '' \<notin> set (normalize_name c)"
  by (simp add: normalize_name_def)

text \<open>Normalising twice changes nothing.\<close>

lemma normalize_name_idem: "normalize_name (normalize_name c) = normalize_name c"
proof -
  let ?n = "normalize_name c"
  have "py_strip ?n = ?n" by (rule py_strip_id [OF normalize_name_edges])
  moreover have "py_replace_space ?n = ?n"
    by (rule py_replace_space_id [OF normalize_name_no_space])
  moreover have "py_lower ?n = ?n" by (simp add: normalize_name_def)
  ultimately show ?thesis by (simp add: normalize_name_def [of ?n])
qed

lemma py_lower_char_underscore [simp]: "py_lower_char CHR ''_'' = CHR ''_''"
  by (simp add: py_lower_char_def latin1_upper_def)

text \<open>C22: line 20 maps a header made of whitespace, a name \<open>s\<close> that neither
  begins nor ends with whitespace, and whitespace, to \<open>s\<close> with each space turned
  into an underscore and each Latin-1 capital lowered, every other character of \<open>s\<close>
  (inner tabs included) kept in place.\<close>

theorem normalize_name_exact:
  assumes "list_all py_isspace ws1" "list_all py_isspace ws2" "edges_nonspace s"
  shows "normalize_name (ws1 @ s @ ws2) =
           map (\<lambda>ch. if ch = CHR '' '' then CHR ''_'' else py_lower_char ch) s"
  using py_strip_pad [OF assms]
  by (simp add: normalize_name_def py_lower_def py_replace_space_def comp_def if_distrib)

theorem normalize_name_exact_witness:
  "normalize_name ('' '' @ ''total sales'' @ [CHR 0x09, CHR '' '']) = ''total_sales''"
proof -
  have "list_all py_isspace '' ''" "list_all py_isspace [CHR 0x09, CHR '' '']"
    "edges_nonspace ''total sales''"
    by (simp_all add: py_isspace_def edges_nonspace_def)
  from normalize_name_exact [OF this] show ?thesis
    by (simp add: py_lower_char_def latin1_upper_def)
qed

lemma columns_normalize_columns:
  "columns (normalize_columns df) = map normalize_name (columns df)"
  by (induction df) (auto simp: columns_def normalize_columns_def)

lemma values_normalize_columns: "map snd (normalize_columns df) = map snd df"
  by (induction df) (auto simp: normalize_columns_def)

lemma nrows_normalize_columns: "nrows (normalize_columns df) = nrows df"
  by (cases df) (auto simp: nrows_def normalize_columns_def)

lemma wf_normalize_columns: "wf_frame df \<Longrightarrow> wf_frame (normalize_columns df)"
  by (auto simp: wf_frame_def list_all_iff nrows_normalize_columns)
     (auto simp: normalize_columns_def)

end
