(* ===== verification/Detector.thy ===== *)
theory Detector
  imports Loader
begin

text \<open>
  The column detector, lines 28--45 of \<open>src/bussiness_analysis.py\<close>. Each role is a
  list comprehension \<open>[c for c in df.columns if k1 in c or k2 in c]\<close> over the
  normalised header followed by \<open>[0]\<close>: the sales role raises
  \<open>Exception("No sales column found in dataset.")\<close> when the list is empty, the
  region and product roles fall back to \<open>None\<close>. Python's substring test
  \<open>sub in s\<close> is \<open>py_in\<close>. The lemmas characterise the result as the first
  matching column, the error as the absence of any, and show that detection on the
  normalised header is a case-insensitive match on the raw header.
\<close>

section \<open>Python's substring test\<close>

fun py_startswith :: "string \<Rightarrow> string \<Rightarrow> bool" where
  "py_startswith [] _ = True"
| "py_startswith (_ # _) [] = False"
| "py_startswith (p # ps) (c # cs) = (p = c \<and> py_startswith ps cs)"

fun py_in :: "string \<Rightarrow> string \<Rightarrow> bool" where
  "py_in sub [] = (sub = [])"
| "py_in sub (c # cs) = (py_startswith sub (c # cs) \<or> py_in sub cs)"

section \<open>Roles and their keywords\<close>

definition is_sales_name :: "string \<Rightarrow> bool" where
  "is_sales_name c \<longleftrightarrow> py_in ''sale'' c \<or> py_in ''revenue'' c"

definition is_region_name :: "string \<Rightarrow> bool" where
  "is_region_name c \<longleftrightarrow> py_in ''region'' c \<or> py_in ''area'' c"

definition is_product_name :: "string \<Rightarrow> bool" where
  "is_product_name c \<longleftrightarrow> py_in ''product'' c \<or> py_in ''category'' c"

text \<open>\<open>x[0] if x else None\<close> over the comprehension.\<close>

definition first_match :: "(string \<Rightarrow> bool) \<Rightarrow> string list \<Rightarrow> string option" where
  "first_match p cols = (case filter p cols of [] \<Rightarrow> None | c # _ \<Rightarrow> Some c)"

definition detect_sales :: "string list \<Rightarrow> string result" where
  "detect_sales cols =
     (case filter is_sales_name cols of
        [] \<Rightarrow> Inl NoSalesColumn
      | c # _ \<Rightarrow> Inr c)"

definition detect_region :: "string list \<Rightarrow> string option" where
  "detect_region cols = first_match is_region_name cols"

definition detect_product :: "string list \<Rightarrow> string option" where
  "detect_product cols = first_match is_product_name cols"

record roles =
  sales_col :: string
  region_col :: "string option"
  product_col :: "string option"

definition detect_columns :: "string list \<Rightarrow> roles result" where
  "detect_columns cols =
     (case detect_sales cols of
        Inl e \<Rightarrow> Inl e
      | Inr s \<Rightarrow> Inr \<lparr>sales_col = s, region_col = detect_region cols,
                     product_col = detect_product cols\<rparr>)"

text \<open>A keyword the header normalisation cannot disturb: no whitespace, no
  underscore.\<close>

definition plain_keyword :: "string \<Rightarrow> bool" where
  "plain_keyword k \<longleftrightarrow> (\<forall>c\<in>set k. \<not> py_isspace c \<and> c \<noteq> CHR ''_'')"

section \<open>The substring test\<close>

lemma py_startswith_iff: "py_startswith p s \<longleftrightarrow> (\<exists>t. s = p @ t)"
  by (induction p s rule: py_startswith.induct) auto

lemma py_in_iff: "py_in p s \<longleftrightarrow> (\<exists>u v. s = u @ p @ v)"
proof (induction s)
  case Nil
  then show ?case by simp
next
  case (Cons c cs)
  show ?case
  proof
    assume "py_in p (c # cs)"
    then consider "py_startswith p (c # cs)" | "py_in p cs" by auto
    then show "\<exists>u v. c # cs = u @ p @ v"
    proof cases
      case 1
      then obtain t where "c # cs = p @ t" by (auto simp: py_startswith_iff)
      then have "c # cs = [] @ p @ t" by simp
      then show ?thesis by blast
    next
      case 2
      then obtain u v where "cs = u @ p @ v" using Cons.IH by blast
      then have "c # cs = (c # u) @ p @ v" by simp
      then show ?thesis by blast
    qed
  next
    assume "\<exists>u v. c # cs = u @ p @ v"
    then obtain u v where uv: "c # cs = u @ p @ v" by blast
    show "py_in p (c # cs)"
    proof (cases u)
      case Nil
      with uv have "py_startswith p (c # cs)" by (auto simp: py_startswith_iff)
      then show ?thesis by simp
    next
      case (Cons a u')
      with uv Cons.IH show ?thesis by auto
    qed
  qed
qed

lemma py_in_rev: "py_in p (rev s) \<longleftrightarrow> py_in (rev p) s"
  by (auto simp: py_in_iff) (metis rev_append rev_rev_ident append_assoc)+

lemma py_startswith_map:
  "(\<And>c x. c \<in> set p \<Longrightarrow> f x = c \<longleftrightarrow> x = c) \<Longrightarrow>
   py_startswith p (map f s) \<longleftrightarrow> py_startswith p s"
  by (induction p s rule: py_startswith.induct) auto

lemma py_in_map:
  assumes f: "\<And>c x. c \<in> set p \<Longrightarrow> f x = c \<longleftrightarrow> x = c"
  shows "py_in p (map f s) \<longleftrightarrow> py_in p s"
proof (induction s)
  case (Cons a s)
  have "py_startswith p (map f (a # s)) \<longleftrightarrow> py_startswith p (a # s)"
    using f by (rule py_startswith_map)
  with Cons.IH show ?case by simp
qed simp

lemma py_in_dropWhile:
  "p \<noteq> [] \<Longrightarrow> \<not> P (hd p) \<Longrightarrow> py_in p (dropWhile P s) \<longleftrightarrow> py_in p s"
proof (induction s)
  case (Cons c cs)
  then show ?case by (cases p) auto
qed simp

lemma py_in_py_strip:
  assumes "p \<noteq> []" "\<not> py_isspace (hd p)" "\<not> py_isspace (last p)"
  shows "py_in p (py_strip s) \<longleftrightarrow> py_in p s"
proof -
  have r: "rev p \<noteq> []" "\<not> py_isspace (hd (rev p))"
    using assms by (simp_all add: hd_rev)
  have "py_in p (py_strip s) \<longleftrightarrow>
        py_in (rev p) (dropWhile py_isspace (rev (dropWhile py_isspace s)))"
    by (simp add: py_strip_def py_in_rev)
  also have "\<dots> \<longleftrightarrow> py_in (rev p) (rev (dropWhile py_isspace s))"
    using r by (rule py_in_dropWhile)
  also have "\<dots> \<longleftrightarrow> py_in p (dropWhile py_isspace s)"
    by (metis py_in_rev rev_rev_ident)
  also have "\<dots> \<longleftrightarrow> py_in p s"
    using assms(1,2) by (rule py_in_dropWhile)
  finally show ?thesis .
qed

section \<open>Normalisation commutes with lower case\<close>

lemma py_lower_replace_space:
  "py_lower (py_replace_space s) = py_replace_space (py_lower s)"
proof -
  have "\<And>c. py_lower_char (if c = CHR '' '' then CHR ''_'' else c) =
            (if py_lower_char c = CHR '' '' then CHR ''_'' else py_lower_char c)"
    by simp
  then show ?thesis by (simp add: py_lower_def py_replace_space_def)
qed

lemma py_lower_strip: "py_lower (py_strip s) = py_strip (py_lower s)"
proof -
  have "py_isspace \<circ> py_lower_char = py_isspace" by (simp add: comp_def)
  then show ?thesis
    by (simp add: py_lower_def py_strip_def dropWhile_map rev_map)
qed

lemma normalize_name_lower: "normalize_name c = py_replace_space (py_strip (py_lower c))"
  by (simp add: normalize_name_def py_lower_replace_space py_lower_strip)

lemma py_in_normalize_name:
  assumes k: "plain_keyword k" "k \<noteq> []"
  shows "py_in k (normalize_name c) \<longleftrightarrow> py_in k (py_lower c)"
proof -
  have no_sp: "x \<noteq> CHR '' '' \<and> x \<noteq> CHR ''_'' \<and> \<not> py_isspace x" if "x \<in> set k" for x
  proof -
    have "\<not> py_isspace x" "x \<noteq> CHR ''_''"
      using k(1) that by (simp_all add: plain_keyword_def)
    moreover from \<open>\<not> py_isspace x\<close> have "x \<noteq> CHR '' ''"
      by (metis py_isspace_space)
    ultimately show ?thesis by simp
  qed
  have f: "(if y = CHR '' '' then CHR ''_'' else y) = x \<longleftrightarrow> y = x" if "x \<in> set k" for x y
  proof -
    have "x \<noteq> CHR '' ''" "x \<noteq> CHR ''_''" using no_sp [OF that] by simp_all
    then show ?thesis by (cases "y = CHR '' ''") simp_all
  qed
  have "py_in k (normalize_name c) \<longleftrightarrow> py_in k (py_strip (py_lower c))"
    unfolding normalize_name_lower py_replace_space_def using f by (rule py_in_map)
  also have "\<dots> \<longleftrightarrow> py_in k (py_lower c)"
  proof (rule py_in_py_strip)
    show "k \<noteq> []" by (rule k(2))
    show "\<not> py_isspace (hd k)" using no_sp [OF hd_in_set [OF k(2)]] by simp
    show "\<not> py_isspace (last k)" using no_sp [OF last_in_set [OF k(2)]] by simp
  qed
  finally show ?thesis .
qed

lemma plain_keywords [simp]:
  "plain_keyword ''sale''" "plain_keyword ''revenue''"
  "plain_keyword ''region''" "plain_keyword ''area''"
  "plain_keyword ''product''" "plain_keyword ''category''"
  by (simp_all add: plain_keyword_def py_isspace_def)

lemma is_name_normalize [simp]:
  "is_sales_name (normalize_name c) \<longleftrightarrow> is_sales_name (py_lower c)"
  "is_region_name (normalize_name c) \<longleftrightarrow> is_region_name (py_lower c)"
  "is_product_name (normalize_name c) \<longleftrightarrow> is_product_name (py_lower c)"
  by (simp_all add: is_sales_name_def is_region_name_def is_product_name_def
      py_in_normalize_name del: py_in.simps)

section \<open>Detection\<close>

lemma first_match_filter: "first_match p cols = (case filter p cols of [] \<Rightarrow> None | c # _ \<Rightarrow> Some c)"
  by (simp add: first_match_def)

lemma first_match_Some_iff:
  "first_match p cols = Some c \<longleftrightarrow>
   (\<exists>pre post. cols = pre @ c # post \<and> p c \<and> (\<forall>x\<in>set pre. \<not> p x))"
proof
  assume "first_match p cols = Some c"
  then obtain ys where "filter p cols = c # ys"
    by (auto simp: first_match_def split: list.splits)
  then show "\<exists>pre post. cols = pre @ c # post \<and> p c \<and> (\<forall>x\<in>set pre. \<not> p x)"
    by (auto simp: filter_eq_Cons_iff)
next
  assume "\<exists>pre post. cols = pre @ c # post \<and> p c \<and> (\<forall>x\<in>set pre. \<not> p x)"
  then obtain pre post where "cols = pre @ c # post" "p c" "\<forall>x\<in>set pre. \<not> p x"
    by blast
  then have "filter p cols = c # filter p post" by simp
  then show "first_match p cols = Some c" by (simp add: first_match_def)
qed

lemma first_match_None_iff: "first_match p cols = None \<longleftrightarrow> (\<forall>c\<in>set cols. \<not> p c)"
proof -
  have "first_match p cols = None \<longleftrightarrow> filter p cols = []"
    by (simp add: first_match_def split: list.splits)
  then show ?thesis by (simp add: filter_empty_conv)
qed

lemma detect_sales_first_match:
  "detect_sales cols =
     (case first_match is_sales_name cols of None \<Rightarrow> Inl NoSalesColumn | Some c \<Rightarrow> Inr c)"
  by (simp add: detect_sales_def first_match_def split: list.splits)

lemma first_match_map:
  "first_match p (map f cols) = map_option f (first_match (p \<circ> f) cols)"
  by (simp add: first_match_def filter_map split: list.splits)

lemma filter_map_normalize:
  "filter is_sales_name (map normalize_name hs) =
   map normalize_name (filter (\<lambda>h. is_sales_name (py_lower h)) hs)"
  by (simp add: filter_map comp_def)

section \<open>Properties of the detector\<close>

text \<open>C3: the sales column the detector returns is the first column, in the frame's
  column order, whose name contains \<open>sale\<close> or \<open>revenue\<close>; it returns a column
  exactly when one exists.\<close>

theorem detect_sales_first:
  "detect_sales cols = Inr c \<longleftrightarrow>
   (\<exists>pre post. cols = pre @ c # post \<and> is_sales_name c \<and> (\<forall>x\<in>set pre. \<not> is_sales_name x))"
proof -
  have "detect_sales cols = Inr c \<longleftrightarrow> first_match is_sales_name cols = Some c"
    by (simp add: detect_sales_first_match split: option.splits)
  then show ?thesis by (simp add: first_match_Some_iff)
qed

theorem detect_sales_first_witness:
  "detect_sales [''order_id'', ''total_sales'', ''revenue''] = Inr ''total_sales''"
proof -
  have rhs: "\<exists>pre post. [''order_id'', ''total_sales'', ''revenue''] = pre @ ''total_sales'' # post \<and>
      is_sales_name ''total_sales'' \<and> (\<forall>x\<in>set pre. \<not> is_sales_name x)"
    by (rule exI [of _ "[''order_id'']"], rule exI [of _ "[''revenue'']"])
       (simp add: is_sales_name_def)
  then show ?thesis by (rule detect_sales_first [THEN iffD2])
qed

text \<open>C4: the script stops with the error of line 31, and computes nothing further,
  exactly when no column name contains \<open>sale\<close> or \<open>revenue\<close>.\<close>

theorem detect_sales_error:
  "detect_sales cols = Inl e \<longleftrightarrow> e = NoSalesColumn \<and> (\<forall>c\<in>set cols. \<not> is_sales_name c)"
proof -
  have "detect_sales cols = Inl e \<longleftrightarrow> e = NoSalesColumn \<and> first_match is_sales_name cols = None"
    by (auto simp: detect_sales_first_match split: option.splits)
  then show ?thesis by (simp add: first_match_None_iff)
qed

theorem detect_sales_error_witness:
  "detect_sales [''order_id'', ''region''] = Inl NoSalesColumn"
proof -
  have "\<forall>c\<in>set [''order_id'', ''region'']. \<not> is_sales_name c"
    by (simp add: is_sales_name_def)
  then show ?thesis by (simp add: detect_sales_error)
qed

text \<open>C5: detection after the header normalisation of line 20 is a case-insensitive
  search on the raw header: the sales column is the normalised name of the first raw
  column whose lower-cased name contains \<open>sale\<close> or \<open>revenue\<close>, whatever its
  case, padding or inner spaces.\<close>

theorem detect_sales_normalized:
  "detect_sales (columns (normalize_columns df)) =
     (case filter (\<lambda>h. is_sales_name (py_lower h)) (columns df) of
        [] \<Rightarrow> Inl NoSalesColumn
      | h # _ \<Rightarrow> Inr (normalize_name h))"
  by (simp add: detect_sales_def columns_normalize_columns filter_map_normalize
      split: list.splits)

text \<open>One column can fill two roles: a column named \<open>sales_area\<close> is both
  the sales column and the region column, and the region test then groups the sales by
  the sales values themselves.\<close>

lemma detect_columns_shared_role:
  "detect_columns [''sales_area''] =
     Inr \<lparr>sales_col = ''sales_area'', region_col = Some ''sales_area'', product_col = None\<rparr>"
  by (simp add: detect_columns_def detect_sales_def detect_region_def detect_product_def
      first_match_def is_sales_name_def is_region_name_def is_product_name_def)

text \<open>The definitions a concrete header evaluates by: the normalisation and the
  detection.\<close>

lemmas header_eval = normalize_columns_def normalize_name_def py_lower_def py_lower_char_def
  latin1_upper_def py_replace_space_def py_strip_def py_isspace_def columns_def

lemmas detect_eval = detect_columns_def detect_sales_def detect_region_def detect_product_def
  first_match_def is_sales_name_def is_region_name_def is_product_name_def

end
