(* ===== verification/Descriptive.thy ===== *)
theory Descriptive
  imports Prelude
begin

text \<open>
  Descriptive statistics, lines 48--62 of \<open>src/bussiness_analysis.py\<close>:
  \<open>df[sales_col].describe()\<close>, \<open>.mean()\<close>, \<open>.median()\<close>, \<open>.mode()[0]\<close> and
  \<open>.std()\<close>. The series is a \<open>real option list\<close> (\<open>None\<close> is NaN); every pandas
  reduction first drops NaN. Over the remaining values \<open>xs\<close>: the mean is
  \<open>sum xs / len xs\<close>; the median is the middle element of the sorted values or the
  mean of the two middle ones; a quantile is numpy's \<open>linear\<close> method (virtual index
  \<open>q * (n - 1)\<close>, interpolation between its floor and the next index, clipped at the
  end); the mode is the sorted list of the values of maximal count, of which
  \<open>[0]\<close> takes the first and raises \<open>KeyError\<close> on an empty series; the standard
  deviation has \<open>ddof = 1\<close> and is NaN for fewer than two values. Floating-point
  rounding is not modelled: the values are reals.
\<close>

section \<open>Operations on the values\<close>

definition avg :: "real list \<Rightarrow> real" where
  "avg xs = sum_list xs / real (length xs)"

definition sorted_median :: "real list \<Rightarrow> real" where
  "sorted_median xs =
     (let ys = sort xs; n = length ys
      in if even n then (ys ! (n div 2 - 1) + ys ! (n div 2)) / 2 else ys ! (n div 2))"

definition quantile_linear :: "real \<Rightarrow> real list \<Rightarrow> real" where
  "quantile_linear q xs =
     (let ys = sort xs; n = length ys; pos = q * real (n - 1);
          lo = nat \<lfloor>pos\<rfloor>; hi = min (lo + 1) (n - 1); g = pos - real lo
      in ys ! lo + g * (ys ! hi - ys ! lo))"

definition max_count :: "real list \<Rightarrow> nat" where
  "max_count xs = fold max (map (count_list xs) xs) 0"

definition mode_vals :: "real list \<Rightarrow> real list" where
  "mode_vals xs = sort (remdups (filter (\<lambda>x. count_list xs x = max_count xs) xs))"

definition sample_var :: "real list \<Rightarrow> real" where
  "sample_var xs = (\<Sum>x\<leftarrow>xs. (x - avg xs)\<^sup>2) / real (length xs - 1)"

section \<open>The pandas Series methods\<close>

definition series_mean :: "series \<Rightarrow> real option" where
  "series_mean s = (let xs = dropna s in if xs = [] then None else Some (avg xs))"

definition series_median :: "series \<Rightarrow> real option" where
  "series_median s = (let xs = dropna s in if xs = [] then None else Some (sorted_median xs))"

definition series_quantile :: "real \<Rightarrow> series \<Rightarrow> real option" where
  "series_quantile q s =
     (let xs = dropna s in if xs = [] then None else Some (quantile_linear q xs))"

definition series_mode :: "series \<Rightarrow> real list" where
  "series_mode s = mode_vals (dropna s)"

definition mode_first :: "series \<Rightarrow> real result" where
  "mode_first s = (case series_mode s of [] \<Rightarrow> Inl KeyError | m # _ \<Rightarrow> Inr m)"

definition series_std :: "series \<Rightarrow> real option" where
  "series_std s =
     (let xs = dropna s in if length xs \<le> 1 then None else Some (sqrt (sample_var xs)))"

definition series_min :: "series \<Rightarrow> real option" where
  "series_min s = (let xs = dropna s in if xs = [] then None else Some (Min (set xs)))"

definition series_max :: "series \<Rightarrow> real option" where
  "series_max s = (let xs = dropna s in if xs = [] then None else Some (Max (set xs)))"

record summary =
  stat_count :: nat
  stat_mean :: "real option"
  stat_std :: "real option"
  stat_min :: "real option"
  stat_q25 :: "real option"
  stat_q50 :: "real option"
  stat_q75 :: "real option"
  stat_max :: "real option"

definition describe :: "series \<Rightarrow> summary" where
  "describe s =
     \<lparr>stat_count = length (dropna s), stat_mean = series_mean s, stat_std = series_std s,
      stat_min = series_min s, stat_q25 = series_quantile (1/4) s,
      stat_q50 = series_quantile (1/2) s,
      stat_q75 = series_quantile (3/4) s, stat_max = series_max s\<rparr>"

section \<open>The mean\<close>

lemma avg_bounds:
  assumes "xs \<noteq> []"
  shows "Min (set xs) \<le> avg xs" "avg xs \<le> Max (set xs)"
proof -
  have n: "0 < real (length xs)" using assms by simp
  have "real (length xs) * Min (set xs) \<le> sum_list xs"
    by (rule sum_list_ge_bound) simp
  then show "Min (set xs) \<le> avg xs" using n by (simp add: avg_def field_simps)
  have "sum_list xs \<le> real (length xs) * Max (set xs)"
    by (rule sum_list_le_bound) simp
  then show "avg xs \<le> Max (set xs)" using n by (simp add: avg_def field_simps)
qed

lemma sum_list_minus_avg: "(\<Sum>x\<leftarrow>xs. x - avg xs) = 0"
  by (cases "xs = []") (simp_all add: sum_list_map_diff_const avg_def)

section \<open>Quantiles\<close>

text \<open>The virtual index of numpy's linear method and its floor.\<close>

lemma quantile_index_bounds:
  fixes q :: real and n :: nat
  assumes q: "0 \<le> q" "q \<le> 1"
  defines "pos \<equiv> q * real (n - 1)"
  shows "0 \<le> pos" "pos \<le> real (n - 1)" "nat \<lfloor>pos\<rfloor> \<le> n - 1"
    "real (nat \<lfloor>pos\<rfloor>) \<le> pos" "pos < real (nat \<lfloor>pos\<rfloor>) + 1"
proof -
  show p0: "0 \<le> pos" using q by (simp add: pos_def)
  show p1: "pos \<le> real (n - 1)" using q by (simp add: pos_def mult_left_le_one_le)
  have fl: "real_of_int \<lfloor>pos\<rfloor> \<le> pos" "pos < real_of_int \<lfloor>pos\<rfloor> + 1"
    by linarith+
  have f0: "0 \<le> \<lfloor>pos\<rfloor>" using p0 by simp
  then have eq: "real (nat \<lfloor>pos\<rfloor>) = real_of_int \<lfloor>pos\<rfloor>" by simp
  show "real (nat \<lfloor>pos\<rfloor>) \<le> pos" "pos < real (nat \<lfloor>pos\<rfloor>) + 1"
    using fl eq by simp_all
  have "real (nat \<lfloor>pos\<rfloor>) \<le> real (n - 1)" using fl(1) eq p1 by linarith
  then show "nat \<lfloor>pos\<rfloor> \<le> n - 1" by (simp only: of_nat_le_iff)
qed

text \<open>The quantile lies between the two sorted values it interpolates.\<close>

lemma quantile_linear_between:
  fixes q :: real
  assumes q: "0 \<le> q" "q \<le> 1" and ne: "xs \<noteq> []"
  defines "pos \<equiv> q * real (length xs - 1)"
  defines "lo \<equiv> nat \<lfloor>pos\<rfloor>"
  defines "hi \<equiv> min (lo + 1) (length xs - 1)"
  shows "sort xs ! lo \<le> quantile_linear q xs" "quantile_linear q xs \<le> sort xs ! hi"
    "lo \<le> hi" "hi < length xs" "hi \<le> lo + 1"
    "lo = length xs - 1 \<Longrightarrow> quantile_linear q xs = sort xs ! lo"
proof -
  let ?ys = "sort xs" and ?n = "length xs"
  note b = quantile_index_bounds [OF q, of ?n, folded pos_def lo_def]
  have n: "0 < ?n" using ne by simp
  show lohi: "lo \<le> hi" "hi < ?n" "hi \<le> lo + 1"
    using b n by (simp_all add: hi_def)
  have srt: "sorted ?ys" by simp
  have d: "0 \<le> ?ys ! hi - ?ys ! lo"
    using sorted_nth_mono_le [OF srt, of lo hi] lohi by simp
  have g: "0 \<le> pos - real lo" "pos - real lo < 1" using b by simp_all
  have qe: "quantile_linear q xs = ?ys ! lo + (pos - real lo) * (?ys ! hi - ?ys ! lo)"
    by (simp add: quantile_linear_def Let_def pos_def lo_def hi_def)
  show "?ys ! lo \<le> quantile_linear q xs"
    using qe g d by simp
  have "(pos - real lo) * (?ys ! hi - ?ys ! lo) \<le> 1 * (?ys ! hi - ?ys ! lo)"
    using g d by (intro mult_right_mono) simp_all
  then show "quantile_linear q xs \<le> ?ys ! hi" using qe by simp
  assume "lo = ?n - 1"
  then have "pos = real lo" using b by linarith
  then show "quantile_linear q xs = ?ys ! lo" using qe by simp
qed

lemma quantile_linear_eq:
  "quantile_linear q xs =
     sort xs ! nat \<lfloor>q * real (length xs - 1)\<rfloor> +
     (q * real (length xs - 1) - real (nat \<lfloor>q * real (length xs - 1)\<rfloor>)) *
     (sort xs ! min (nat \<lfloor>q * real (length xs - 1)\<rfloor> + 1) (length xs - 1) -
      sort xs ! nat \<lfloor>q * real (length xs - 1)\<rfloor>)"
  by (simp add: quantile_linear_def Let_def)

lemma quantile_linear_mono:
  fixes q q' :: real
  assumes q: "0 \<le> q" "q \<le> q'" "q' \<le> 1" and ne: "xs \<noteq> []"
  shows "quantile_linear q xs \<le> quantile_linear q' xs"
proof -
  let ?n = "length xs" and ?ys = "sort xs"
  define pos where "pos = q * real (?n - 1)"
  define pos' where "pos' = q' * real (?n - 1)"
  define lo where "lo = nat \<lfloor>pos\<rfloor>"
  define lo' where "lo' = nat \<lfloor>pos'\<rfloor>"
  define hi where "hi = min (lo + 1) (?n - 1)"
  have q1: "q \<le> 1" and q'0: "0 \<le> q'" using q by simp_all
  note B = quantile_linear_between [OF q(1) q1 ne, folded pos_def lo_def hi_def]
  note B' = quantile_linear_between [OF q'0 q(3) ne, folded pos'_def lo'_def]
  have pp: "pos \<le> pos'" using q by (simp add: pos_def pos'_def mult_right_mono)
  then have ll: "lo \<le> lo'" by (simp add: lo_def lo'_def nat_mono floor_mono)
  have srt: "sorted ?ys" by simp
  show ?thesis
  proof (cases "lo = lo'")
    case True
    have d: "0 \<le> ?ys ! hi - ?ys ! lo"
      using sorted_nth_mono_le [OF srt, of lo hi] B(3,4) unfolding hi_def by simp
    have "(pos - real lo) * (?ys ! hi - ?ys ! lo) \<le> (pos' - real lo) * (?ys ! hi - ?ys ! lo)"
      using pp d by (intro mult_right_mono) simp_all
    then show ?thesis
      using True by (simp add: quantile_linear_eq pos_def pos'_def lo_def lo'_def hi_def)
  next
    case False
    with ll have "hi \<le> lo'" using B(5) unfolding hi_def by linarith
    moreover have "lo' \<le> ?n - 1" using quantile_index_bounds(3) [OF q'0 q(3), of ?n]
      by (simp add: lo'_def pos'_def)
    with ne have "lo' < ?n" by (cases xs) auto
    ultimately have "?ys ! hi \<le> ?ys ! lo'"
      using sorted_nth_mono_le [OF srt] by simp
    with B(2) B'(1) show ?thesis unfolding hi_def by linarith
  qed
qed

lemma sort_nth_0_Min: "xs \<noteq> [] \<Longrightarrow> sort xs ! 0 = Min (set xs)"
proof -
  assume ne: "xs \<noteq> []"
  have srt: "sorted (sort xs)" by simp
  have mem: "sort xs ! 0 \<in> set xs" using ne by (metis length_greater_0_conv length_sort nth_mem set_sort)
  have "\<forall>y\<in>set xs. sort xs ! 0 \<le> y"
    using srt by (metis in_set_conv_nth le0 set_sort sorted_nth_mono_le length_sort)
  with mem ne show ?thesis by (intro Min_eqI [symmetric]) auto
qed

lemma sort_nth_last_Max: "xs \<noteq> [] \<Longrightarrow> sort xs ! (length xs - 1) = Max (set xs)"
proof -
  assume ne: "xs \<noteq> []"
  have srt: "sorted (sort xs)" by simp
  have l: "length xs - 1 < length (sort xs)" using ne by simp
  have mem: "sort xs ! (length xs - 1) \<in> set xs" using l by (metis nth_mem set_sort)
  have "\<forall>y\<in>set xs. y \<le> sort xs ! (length xs - 1)"
  proof
    fix y assume "y \<in> set xs"
    then obtain i where "i < length (sort xs)" "sort xs ! i = y"
      by (metis in_set_conv_nth set_sort)
    then show "y \<le> sort xs ! (length xs - 1)"
      using sorted_nth_mono_le [OF srt, of i "length xs - 1"] by simp
  qed
  with mem show ?thesis by (intro Max_eqI [symmetric]) auto
qed

lemma quantile_linear_0: "xs \<noteq> [] \<Longrightarrow> quantile_linear 0 xs = Min (set xs)"
  by (simp add: quantile_linear_eq sort_nth_0_Min)

lemma quantile_linear_1: "xs \<noteq> [] \<Longrightarrow> quantile_linear 1 xs = Max (set xs)"
  using quantile_linear_between(6) [of 1 xs] sort_nth_last_Max [of xs] by simp

lemma sorted_median_quantile:
  assumes ne: "xs \<noteq> []"
  shows "sorted_median xs = quantile_linear (1/2) xs"
proof (cases "even (length xs)")
  case True
  then obtain k where k: "length xs = 2 * k" by blast
  with ne have k1: "1 \<le> k" by (cases k) auto
  have pos: "1/2 * real (length xs - 1) = real (k - 1) + 1/2"
    using k k1 by (simp add: of_nat_diff)
  have fl: "nat \<lfloor>real (k - 1) + (1/2 :: real)\<rfloor> = k - 1"
    by (simp add: floor_eq_iff)
  have hi: "min (k - 1 + 1) (length xs - 1) = k" using k k1 by simp
  have m: "sorted_median xs = (sort xs ! (k - 1) + sort xs ! k) / 2"
    using k by (simp add: sorted_median_def Let_def)
  have qv: "quantile_linear (1/2) xs =
      sort xs ! (k - 1) + (real (k - 1) + 1/2 - real (k - 1)) * (sort xs ! k - sort xs ! (k - 1))"
    unfolding quantile_linear_eq pos fl hi ..
  show ?thesis by (simp add: m qv field_simps)
next
  case False
  then obtain k where k: "length xs = 2 * k + 1" using oddE by blast
  have pos: "1/2 * real (length xs - 1) = real k" using k by simp
  have m: "sorted_median xs = sort xs ! k"
    using k by (simp add: sorted_median_def Let_def)
  have qv: "quantile_linear (1/2) xs = sort xs ! k"
    unfolding quantile_linear_eq pos by simp
  show ?thesis by (simp add: m qv)
qed

section \<open>The mode\<close>

lemma count_le_max_count: "count_list xs x \<le> max_count xs"
proof (cases "x \<in> set xs")
  case True
  then show ?thesis unfolding max_count_def by (intro fold_max_ge) simp
qed simp

lemma max_count_attained:
  assumes "xs \<noteq> []"
  shows "\<exists>x\<in>set xs. count_list xs x = max_count xs"
proof -
  have "max_count xs \<in> insert 0 (count_list xs ` set xs)"
    using fold_max_mem [of "map (count_list xs) xs" 0] by (simp add: max_count_def)
  moreover have "max_count xs \<noteq> 0"
  proof -
    have "hd xs \<in> set xs" using assms by simp
    then have "count_list xs (hd xs) \<noteq> 0" by (simp add: count_list_0_iff)
    then show ?thesis using count_le_max_count [of xs "hd xs"] by simp
  qed
  ultimately show ?thesis by auto
qed

lemma set_mode_vals: "set (mode_vals xs) = {x \<in> set xs. count_list xs x = max_count xs}"
  by (auto simp: mode_vals_def)

lemma mode_vals_Nil_iff: "mode_vals xs = [] \<longleftrightarrow> xs = []"
proof
  assume "mode_vals xs = []"
  then have "set (mode_vals xs) = {}" by simp
  then show "xs = []" using max_count_attained [of xs] by (auto simp: set_mode_vals)
qed (simp add: mode_vals_def)

lemma mode_vals_Cons:
  assumes "mode_vals xs = m # ms"
  shows "m \<in> set xs" "count_list xs m = max_count xs"
    "\<forall>y\<in>set xs. count_list xs y = max_count xs \<longrightarrow> m \<le> y"
proof -
  have srt: "sorted (m # ms)" using assms unfolding mode_vals_def by (metis sorted_sort)
  have st: "set (m # ms) = {x \<in> set xs. count_list xs x = max_count xs}"
    using assms set_mode_vals [of xs] by simp
  then show "m \<in> set xs" "count_list xs m = max_count xs" by auto
  show "\<forall>y\<in>set xs. count_list xs y = max_count xs \<longrightarrow> m \<le> y"
    using srt st by auto
qed

section \<open>The standard deviation\<close>

lemma sample_var_nonneg: "0 \<le> sample_var xs"
  by (simp add: sample_var_def)

lemma sample_var_eq_0_iff:
  assumes "2 \<le> length xs"
  shows "sample_var xs = 0 \<longleftrightarrow> (\<forall>x\<in>set xs. \<forall>y\<in>set xs. x = y)"
proof -
  have d: "0 < real (length xs - 1)" using assms by simp
  have "sample_var xs = 0 \<longleftrightarrow> (\<Sum>x\<leftarrow>xs. (x - avg xs)\<^sup>2) = 0"
    using d by (simp add: sample_var_def)
  also have "\<dots> \<longleftrightarrow> (\<forall>x\<in>set xs. x = avg xs)"
    using sum_list_squares_eq_0_iff [of "\<lambda>x. x - avg xs" xs] by simp
  also have "\<dots> \<longleftrightarrow> (\<forall>x\<in>set xs. \<forall>y\<in>set xs. x = y)"
  proof
    assume "\<forall>x\<in>set xs. \<forall>y\<in>set xs. x = y"
    moreover have "xs \<noteq> []" using assms by auto
    ultimately have "\<forall>x\<in>set xs. x = Min (set xs)" by (metis Min_in finite_set set_empty)
    then have "\<forall>x\<in>set xs. x \<le> Min (set xs)" "\<forall>x\<in>set xs. Min (set xs) \<le> x" by auto
    then have "avg xs = Min (set xs)"
      using avg_bounds [OF \<open>xs \<noteq> []\<close>] by (metis Max_in antisym finite_set set_empty \<open>xs \<noteq> []\<close>)
    with \<open>\<forall>x\<in>set xs. x = Min (set xs)\<close> show "\<forall>x\<in>set xs. x = avg xs" by simp
  qed metis
  finally show ?thesis .
qed

lemma series_quantile_Some:
  "dropna s \<noteq> [] \<Longrightarrow> series_quantile q s = Some (quantile_linear q (dropna s))"
  by (simp add: series_quantile_def)

lemma series_min_max_Some:
  "dropna s \<noteq> [] \<Longrightarrow> series_min s = Some (quantile_linear 0 (dropna s))"
  "dropna s \<noteq> [] \<Longrightarrow> series_max s = Some (quantile_linear 1 (dropna s))"
  by (simp_all add: series_min_def series_max_def quantile_linear_0 quantile_linear_1)

section \<open>Properties of the descriptive statistics\<close>

text \<open>C9: the 50\\% row of \<open>describe()\<close>, computed by linear interpolation, is
  the value \<open>median()\<close> prints, on every series, NaN included.\<close>

theorem describe_q50_median: "stat_q50 (describe s) = series_median s"
  by (simp add: describe_def series_quantile_def series_median_def sorted_median_quantile Let_def)

text \<open>C10: on a series with at least one value, \<open>describe()\<close> reports every row,
  its min, quartiles and max are in order, and the mean lies between min and max.\<close>

theorem describe_bounds:
  assumes "dropna s \<noteq> []"
  shows "\<exists>mn a b c mx m.
           stat_min (describe s) = Some mn \<and> stat_q25 (describe s) = Some a \<and>
           stat_q50 (describe s) = Some b \<and> stat_q75 (describe s) = Some c \<and>
           stat_max (describe s) = Some mx \<and> stat_mean (describe s) = Some m \<and>
           mn \<le> a \<and> a \<le> b \<and> b \<le> c \<and> c \<le> mx \<and> mn \<le> m \<and> m \<le> mx"
proof -
  let ?xs = "dropna s"
  let ?Q = "\<lambda>q. quantile_linear q ?xs"
  have mono: "?Q q \<le> ?Q q'" if "0 \<le> q" "q \<le> q'" "q' \<le> 1" for q q' :: real
    using quantile_linear_mono [OF that assms] .
  have m: "Min (set ?xs) \<le> avg ?xs" "avg ?xs \<le> Max (set ?xs)"
    using avg_bounds [OF assms] by simp_all
  have "?Q 0 \<le> ?Q (1/4)" "?Q (1/4) \<le> ?Q (1/2)" "?Q (1/2) \<le> ?Q (3/4)" "?Q (3/4) \<le> ?Q 1"
    by (rule mono; simp)+
  moreover have "?Q 0 = Min (set ?xs)" "?Q 1 = Max (set ?xs)"
    using assms by (simp_all add: quantile_linear_0 quantile_linear_1)
  ultimately show ?thesis
    using assms m
    by (simp add: describe_def series_quantile_Some series_min_max_Some series_mean_def)
qed

theorem describe_bounds_witness:
  "dropna (map Some [3, 1, 2]) \<noteq> [] \<and>
   (\<exists>mn a b c mx m.
      stat_min (describe (map Some [3, 1, 2])) = Some mn \<and>
      stat_q25 (describe (map Some [3, 1, 2])) = Some a \<and>
      stat_q50 (describe (map Some [3, 1, 2])) = Some b \<and>
      stat_q75 (describe (map Some [3, 1, 2])) = Some c \<and>
      stat_max (describe (map Some [3, 1, 2])) = Some mx \<and>
      stat_mean (describe (map Some [3, 1, 2])) = Some m \<and>
      mn \<le> a \<and> a \<le> b \<and> b \<le> c \<and> c \<le> mx \<and> mn \<le> m \<and> m \<le> mx)"
proof -
  have h: "dropna (map Some [3, 1, 2 :: real]) \<noteq> []" by simp
  show ?thesis using h describe_bounds [OF h] by blast
qed

text \<open>C11: \<open>mode()[0]\<close> returns a most frequent value of the series, and the
  smallest of them when several values tie.\<close>

theorem mode_first_spec:
  assumes "mode_first s = Inr m"
  shows "m \<in> set (dropna s) \<and>
         (\<forall>y\<in>set (dropna s). count_list (dropna s) y \<le> count_list (dropna s) m) \<and>
         (\<forall>y\<in>set (dropna s). count_list (dropna s) y = count_list (dropna s) m \<longrightarrow> m \<le> y)"
proof -
  obtain ms where ms: "mode_vals (dropna s) = m # ms"
    using assms by (auto simp: mode_first_def series_mode_def split: list.splits)
  note c = mode_vals_Cons [OF ms]
  show ?thesis using c count_le_max_count [of "dropna s"] by simp
qed

theorem mode_first_spec_witness:
  "mode_first (map Some [20, 10, 20, 10, 5]) = Inr 10 \<and>
   count_list (dropna (map Some [20, 10, 20, 10, 5])) 20 \<le>
     count_list (dropna (map Some [20, 10, 20, 10, 5 :: real])) 10 \<and>
   count_list (dropna (map Some [20, 10, 20, 10, 5])) 5 \<le>
     count_list (dropna (map Some [20, 10, 20, 10, 5 :: real])) 10"
proof -
  have h: "mode_first (map Some [20, 10, 20, 10, 5]) = Inr (10 :: real)"
    by (simp add: mode_first_def series_mode_def mode_vals_def max_count_def)
  have "\<forall>y\<in>set (dropna (map Some [20, 10, 20, 10, 5])).
      count_list (dropna (map Some [20, 10, 20, 10, 5])) y \<le>
      count_list (dropna (map Some [20, 10, 20, 10, 5 :: real])) 10"
    using mode_first_spec [OF h] by blast
  then show ?thesis using h by simp
qed

text \<open>C12: \<open>mode()[0]\<close> raises \<open>KeyError\<close> exactly when the series has no
  value other than NaN.\<close>

theorem mode_first_error: "mode_first s = Inl e \<longleftrightarrow> e = KeyError \<and> dropna s = []"
proof -
  have "mode_first s = (if dropna s = [] then Inl KeyError else Inr (hd (mode_vals (dropna s))))"
    using mode_vals_Nil_iff [of "dropna s"]
    by (auto simp: mode_first_def series_mode_def split: list.splits)
  then show ?thesis by auto
qed

text \<open>C13: \<open>std()\<close> is never negative, and it is 0 exactly when all the values
  of the series are equal.\<close>

theorem series_std_zero:
  assumes "series_std s = Some \<sigma>"
  shows "0 \<le> \<sigma> \<and> (\<sigma> = 0 \<longleftrightarrow> (\<forall>x\<in>set (dropna s). \<forall>y\<in>set (dropna s). x = y))"
proof -
  have l: "2 \<le> length (dropna s)" and sg: "\<sigma> = sqrt (sample_var (dropna s))"
    using assms by (auto simp: series_std_def Let_def split: if_splits)
  show ?thesis
    using sample_var_nonneg [of "dropna s"] sample_var_eq_0_iff [OF l] sg by simp
qed

theorem series_std_zero_witness:
  "series_std (map Some [1, 3]) = Some (sqrt 2) \<and> sqrt 2 \<noteq> (0 :: real)"
proof -
  have h: "series_std (map Some [1, 3]) = Some (sqrt (2 :: real))"
    by (simp add: series_std_def sample_var_def avg_def power2_eq_square)
  have "sqrt 2 = 0 \<longleftrightarrow> (\<forall>x\<in>set (dropna (map Some [1, 3 :: real])). \<forall>y\<in>set (dropna (map Some [1, 3 :: real])). x = y)"
    using series_std_zero [OF h] by blast
  then show ?thesis using h by simp
qed

end
