(* ===== verification/Hypothesis.thy ===== *)
theory Hypothesis
  imports Descriptive
begin

text \<open>
  The distribution analyser's test and the hypothesis tester, lines 73--74 and
  88--109 of \<open>src/bussiness_analysis.py\<close>. scipy's tests run with
  \<open>nan_policy='propagate'\<close>: a NaN anywhere in a sample makes the result NaN
  (\<open>None\<close>), which \<open>those\<close> detects. \<open>stats.shapiro\<close> raises \<open>ValueError\<close>
  below three values. \<open>stats.ttest_1samp\<close> is the t statistic
  \<open>(mean - popmean) / sqrt(var / n)\<close> with \<open>ddof = 1\<close> and the two-sided p-value
  \<open>2 * sf(|t|)\<close> on \<open>n - 1\<close> degrees of freedom; it is NaN below two values, and a
  zero denominator gives an infinite statistic (p-value 0) or, over a zero numerator,
  NaN. \<open>stats.ttest_ind\<close> is Student's pooled test with \<open>n1 + n2 - 2\<close> degrees of
  freedom, NaN when a group has fewer than two values. The region groups come from
  \<open>Series.unique()\<close> (first occurrences, in order) and the boolean mask
  \<open>df[region_col] == r\<close> (NaN equals nothing); the product groups from
  \<open>groupby\<close> (sorted keys, NaN keys dropped). \<open>stats.f_oneway\<close> is the one-way
  ANOVA F ratio \<open>(SSB / (k - 1)) / (SSW / (N - k))\<close> with scipy's degenerate cases.
  When the library's survival functions are probabilities (\<open>t_sf_bounded\<close>,
  \<open>f_sf_bounded\<close>), every p-value of these tests is NaN or in \<open>[0, 1]\<close>.
\<close>

section \<open>Distribution analyser: the Shapiro--Wilk call\<close>

definition shapiro_p :: "dists \<Rightarrow> series \<Rightarrow> real option result" where
  "shapiro_p D a =
     (case those a of
        None \<Rightarrow> Inr None
      | Some xs \<Rightarrow> if length xs < 3 then Inl ValueError else Inr (Some (shapiro_pvalue D xs)))"

section \<open>One-sample t-test\<close>

definition ttest_1samp_p :: "dists \<Rightarrow> series \<Rightarrow> real \<Rightarrow> real option" where
  "ttest_1samp_p D a popmean =
     (case those a of
        None \<Rightarrow> None
      | Some xs \<Rightarrow>
          (let n = length xs in
           if n < 2 then None
           else
             (let d = avg xs - popmean; denom = sqrt (sample_var xs / real n)
              in if denom = 0 then (if d = 0 then None else Some 0)
                 else Some (2 * t_sf D (real (n - 1)) \<bar>d / denom\<bar>))))"

section \<open>Independent t-test over the first two regions\<close>

text \<open>pandas' \<open>==\<close> between a column and a scalar: NaN equals nothing, a number
  never equals a string.\<close>

fun py_eq_cell :: "cell \<Rightarrow> cell \<Rightarrow> bool" where
  "py_eq_cell (Num a) (Num b) = (a = b)"
| "py_eq_cell (Str s) (Str t) = (s = t)"
| "py_eq_cell _ _ = False"

text \<open>\<open>Series.unique()\<close>: one hash-table scan that keeps each value at its first
  occurrence; its table treats all NaN as one value.\<close>

fun unique_scan :: "cell list \<Rightarrow> cell list \<Rightarrow> cell list" where
  "unique_scan seen [] = []"
| "unique_scan seen (c # cs) =
     (if c \<in> set seen then unique_scan seen cs else c # unique_scan (c # seen) cs)"

definition unique_vals :: "cell list \<Rightarrow> cell list" where
  "unique_vals cs = unique_scan [] cs"

definition select_group :: "cell list \<Rightarrow> series \<Rightarrow> cell \<Rightarrow> series" where
  "select_group keys sales r = [s. (c, s) \<leftarrow> zip keys sales, py_eq_cell c r]"

definition pooled_se :: "real list \<Rightarrow> real list \<Rightarrow> real" where
  "pooled_se xs ys =
     (let n1 = length xs; n2 = length ys;
          svar = (real (n1 - 1) * sample_var xs + real (n2 - 1) * sample_var ys) / real (n1 + n2 - 2)
      in sqrt (svar * (1 / real n1 + 1 / real n2)))"

definition ttest_ind_p :: "dists \<Rightarrow> series \<Rightarrow> series \<Rightarrow> real option" where
  "ttest_ind_p D a b =
     (case (those a, those b) of
        (Some xs, Some ys) \<Rightarrow>
          (if length xs < 2 \<or> length ys < 2 then None
           else
             (let d = avg xs - avg ys; se = pooled_se xs ys
              in if se = 0 then (if d = 0 then None else Some 0)
                 else Some (2 * t_sf D (real (length xs + length ys - 2)) \<bar>d / se\<bar>)))
      | _ \<Rightarrow> None)"

text \<open>Lines 96--102: \<open>None\<close> when the test is skipped, \<open>Some p\<close> when it runs.\<close>

definition region_test :: "dists \<Rightarrow> cell list \<Rightarrow> series \<Rightarrow> real option option" where
  "region_test D keys sales =
     (let regions = unique_vals keys
      in if 2 \<le> length regions
         then Some (ttest_ind_p D (select_group keys sales (regions ! 0))
                                  (select_group keys sales (regions ! 1)))
         else None)"

section \<open>One-way ANOVA over the product groups\<close>

text \<open>\<open>df.groupby(product_col)\<close>: the keys sorted (\<open>sort=True\<close>), NaN keys
  dropped (\<open>dropna=True\<close>), one group of sales values per key.\<close>

definition group_keys :: "cell list \<Rightarrow> cell list" where
  "group_keys keys = sort (remdups (filter (\<lambda>c. c \<noteq> NA) keys))"

definition groupby_values :: "cell list \<Rightarrow> series \<Rightarrow> series list" where
  "groupby_values keys sales = map (\<lambda>k. [s. (c, s) \<leftarrow> zip keys sales, c = k]) (group_keys keys)"

definition ss_between :: "real list list \<Rightarrow> real" where
  "ss_between gs = (\<Sum>g\<leftarrow>gs. real (length g) * (avg g - avg (concat gs))\<^sup>2)"

definition ss_within :: "real list list \<Rightarrow> real" where
  "ss_within gs = (\<Sum>g\<leftarrow>gs. \<Sum>x\<leftarrow>g. (x - avg g)\<^sup>2)"

text \<open>scipy's degenerate cases: an empty group, or only groups of one value, give
  NaN; zero variance within every group gives an infinite F (p-value 0), or NaN when
  all values are equal.\<close>

definition f_oneway_p :: "dists \<Rightarrow> series list \<Rightarrow> real option" where
  "f_oneway_p D samples =
     (case those (map those samples) of
        None \<Rightarrow> None
      | Some gs \<Rightarrow>
          (let k = length gs; n = length (concat gs)
           in if [] \<in> set gs \<or> n = k then None
              else if ss_within gs = 0 then (if ss_between gs = 0 then None else Some 0)
              else Some (f_sf D (real (k - 1)) (real (n - k))
                           ((ss_between gs / real (k - 1)) / (ss_within gs / real (n - k))))))"

text \<open>Lines 105--109.\<close>

definition product_test :: "dists \<Rightarrow> cell list \<Rightarrow> series \<Rightarrow> real option option" where
  "product_test D keys sales =
     (let groups = groupby_values keys sales
      in if 1 < length groups then Some (f_oneway_p D groups) else None)"

section \<open>Properties of the one-sample test\<close>

lemma those_series_mean:
  "those a = Some xs \<Longrightarrow> series_mean a = (if xs = [] then None else Some (avg xs))"
  by (simp add: those_Some_iff series_mean_def)

lemma ttest_self_one_or_nan:
  assumes c: "t_centered D" and m: "series_mean a = Some m"
  shows "ttest_1samp_p D a m = None \<or> ttest_1samp_p D a m = Some 1"
proof (cases "those a")
  case None
  then show ?thesis by (simp add: ttest_1samp_p_def)
next
  case (Some xs)
  with m have xs: "xs \<noteq> []" "m = avg xs" by (auto simp: those_series_mean split: if_splits)
  show ?thesis
  proof (cases "length xs < 2")
    case True
    with Some show ?thesis by (simp add: ttest_1samp_p_def)
  next
    case False
    then have df: "0 < real (length xs - 1)" by simp
    have "t_sf D (real (length xs - 1)) 0 = 1/2"
      using c df by (simp add: t_centered_def)
    with Some False xs show ?thesis by (simp add: ttest_1samp_p_def Let_def)
  qed
qed

text \<open>C2: line 92 tests the sales column against its own mean. Its p-value is NaN
  when the column holds a NaN, has fewer than two values or is constant, and 1
  otherwise: never a significant result. This is the defect the specification flags
  in its section 4.6.\<close>

theorem ttest_self_pvalue:
  assumes c: "t_centered D" and m: "series_mean a = Some m"
  shows "ttest_1samp_p D a m =
           (if None \<in> set a \<or> length a < 2 \<or> sample_var (dropna a) = 0 then None else Some 1)"
proof (cases "None \<in> set a")
  case True
  then have "those a = None" by (simp add: those_None_iff)
  with True show ?thesis by (simp add: ttest_1samp_p_def)
next
  case False
  then obtain xs where a: "a = map Some xs"
    by (metis those_None_iff those_Some_iff option.exhaust)
  with m have xs: "xs \<noteq> []" "m = avg xs" by (auto simp: series_mean_def split: if_splits)
  show ?thesis
  proof (cases "length xs < 2")
    case True
    with a show ?thesis by (simp add: ttest_1samp_p_def)
  next
    case False
    then have df: "0 < real (length xs - 1)" and n: "0 < real (length xs)" by auto
    have "t_sf D (real (length xs - 1)) 0 = 1/2"
      using c df by (simp add: t_centered_def)
    with a False xs n show ?thesis by (simp add: ttest_1samp_p_def Let_def)
  qed
qed

theorem ttest_self_pvalue_witness:
  "t_centered cauchy_dists \<and> series_mean (map Some [1, 2, 6]) = Some 3 \<and>
   ttest_1samp_p cauchy_dists (map Some [1, 2, 6]) 3 = Some 1"
proof -
  have m: "series_mean (map Some [1, 2, 6]) = Some 3" by (simp add: series_mean_def avg_def)
  have "sample_var [1, 2, 6 :: real] \<noteq> 0" by (simp add: sample_var_def avg_def)
  then show ?thesis using ttest_self_pvalue [OF cauchy_centered m] cauchy_centered m by simp
qed

section \<open>The region groups\<close>

lemma unique_scan_eq:
  "unique_scan seen cs = rev (remdups (rev (filter (\<lambda>x. x \<notin> set seen) cs)))"
proof (induction cs arbitrary: seen)
  case (Cons c cs)
  show ?case
  proof (cases "c \<in> set seen")
    case True
    with Cons.IH show ?thesis by simp
  next
    case False
    have "rev (remdups (rev (filter (\<lambda>x. x \<notin> set seen) (c # cs)))) =
          c # rev (filter (\<lambda>x. x \<noteq> c) (remdups (rev (filter (\<lambda>x. x \<notin> set seen) cs))))"
      using False by (simp add: remdups_snoc)
    also have "\<dots> = c # rev (remdups (rev (filter (\<lambda>x. x \<notin> set (c # seen)) cs)))"
      by (simp add: remdups_filter [symmetric] rev_filter [symmetric] conj_commute)
    finally show ?thesis using False Cons.IH by simp
  qed
qed simp

lemma set_unique_vals [simp]: "set (unique_vals cs) = set cs"
  by (simp add: unique_vals_def unique_scan_eq)

lemma distinct_unique_vals: "distinct (unique_vals cs)"
  by (simp add: unique_vals_def unique_scan_eq)

section \<open>The pooled t-test\<close>

lemma pooled_se_sym: "pooled_se ys xs = pooled_se xs ys"
  by (simp add: pooled_se_def Let_def algebra_simps)

section \<open>The product groups\<close>

lemma comprehension_key_filter:
  "[s. (c, s) \<leftarrow> ps, c = k] = map snd (filter (\<lambda>p. fst p = k) ps)"
  by (induction ps) auto

lemma mset_concat_key_groups:
  "distinct ks \<Longrightarrow>
   mset (concat (map (\<lambda>k. map snd (filter (\<lambda>p. fst p = k) ps)) ks)) =
   mset (map snd (filter (\<lambda>p. fst p \<in> set ks) ps))"
proof (induction ks)
  case (Cons k ks)
  have "mset (map snd (filter (\<lambda>p. fst p = k) ps)) + mset (map snd (filter (\<lambda>p. fst p \<in> set ks) ps)) =
        mset (map snd (filter (\<lambda>p. fst p \<in> set (k # ks)) ps))"
    using Cons.prems by (induction ps) auto
  with Cons show ?case by simp
qed simp

lemma groupby_values_alt:
  "groupby_values keys sales =
     map (\<lambda>k. map snd (filter (\<lambda>p. fst p = k) (zip keys sales))) (group_keys keys)"
  by (simp add: groupby_values_def comprehension_key_filter)

lemma group_keys_props: "distinct (group_keys keys)" "set (group_keys keys) = {c \<in> set keys. c \<noteq> NA}"
  by (simp_all add: group_keys_def)

section \<open>Sums of squares\<close>

lemma sum_sq_shift:
  "(\<Sum>x\<leftarrow>g. (x - c)\<^sup>2) = (\<Sum>x\<leftarrow>g. (x - avg g)\<^sup>2) + real (length g) * (avg g - c)\<^sup>2"
proof -
  let ?a = "avg g"
  have "map (\<lambda>x. (x - c)\<^sup>2) g =
        map (\<lambda>x. (x - ?a)\<^sup>2 + 2 * (?a - c) * (x - ?a) + (?a - c)\<^sup>2) g"
    by (rule map_cong [OF refl]) (simp add: power2_eq_square algebra_simps)
  then have "(\<Sum>x\<leftarrow>g. (x - c)\<^sup>2) =
        (\<Sum>x\<leftarrow>g. (x - ?a)\<^sup>2) + 2 * (?a - c) * (\<Sum>x\<leftarrow>g. x - ?a) +
        real (length g) * (?a - c)\<^sup>2"
    by (simp only: sum_list_addf sum_list_const_mult sum_list_triv)
  then show ?thesis by (simp add: sum_list_minus_avg)
qed

lemma sum_list_concat_map:
  "(\<Sum>x\<leftarrow>concat gs. f x) = (\<Sum>g\<leftarrow>gs. \<Sum>x\<leftarrow>g. f x)"
  by (induction gs) auto

section \<open>P-values are probabilities\<close>

lemma t_sf_nonneg: "t_sf_bounded D \<Longrightarrow> 0 < df \<Longrightarrow> 0 \<le> x \<Longrightarrow> 0 \<le> t_sf D df x"
  and two_t_sf_le_one: "t_sf_bounded D \<Longrightarrow> 0 < df \<Longrightarrow> 0 \<le> x \<Longrightarrow> 2 * t_sf D df x \<le> 1"
  unfolding t_sf_bounded_def by force+

lemma ttest_1samp_p_prob:
  assumes b: "t_sf_bounded D"
  shows "pred_option (\<lambda>v. 0 \<le> v \<and> v \<le> 1) (ttest_1samp_p D a m)"
proof (cases "those a")
  case (Some xs)
  show ?thesis
  proof (cases "length xs < 2")
    case False
    then have "0 < real (length xs) - 1" by simp
    with Some False show ?thesis
      by (simp add: ttest_1samp_p_def Let_def t_sf_nonneg [OF b] two_t_sf_le_one [OF b])
  qed (simp add: ttest_1samp_p_def Some)
qed (simp add: ttest_1samp_p_def)

lemma ttest_ind_p_prob:
  assumes b: "t_sf_bounded D"
  shows "pred_option (\<lambda>v. 0 \<le> v \<and> v \<le> 1) (ttest_ind_p D a b)"
proof (cases "those a"; cases "those b")
  fix xs ys assume s: "those a = Some xs" "those b = Some ys"
  show ?thesis
  proof (cases "length xs < 2 \<or> length ys < 2")
    case False
    then have "0 < real (length xs) + real (length ys) - 2" by simp
    with s False show ?thesis
      by (simp add: ttest_ind_p_def Let_def t_sf_nonneg [OF b] two_t_sf_le_one [OF b])
  qed (auto simp: ttest_ind_p_def s)
qed (simp_all add: ttest_ind_p_def)

lemma ss_between_nonneg: "0 \<le> ss_between gs"
  unfolding ss_between_def by (rule sum_list_nonneg) auto

lemma ss_within_nonneg: "0 \<le> ss_within gs"
  unfolding ss_within_def by (intro sum_list_nonneg) auto

lemma f_oneway_p_prob:
  assumes "f_sf_bounded D"
  shows "pred_option (\<lambda>v. 0 \<le> v \<and> v \<le> 1) (f_oneway_p D samples)"
proof -
  have "0 \<le> f_sf D a b x \<and> f_sf D a b x \<le> 1" if "0 \<le> x" for a b x
    using assms that unfolding f_sf_bounded_def by blast
  moreover have "0 \<le> (ss_between gs / a) / (ss_within gs / b)" if "0 \<le> a" "0 \<le> b" for gs and a b :: real
    using ss_between_nonneg ss_within_nonneg that by (intro divide_nonneg_nonneg) auto
  ultimately show ?thesis
    by (auto simp: f_oneway_p_def Let_def split: option.splits)
qed

lemma region_test_prob:
  "t_sf_bounded D \<Longrightarrow> pred_option (pred_option (\<lambda>v. 0 \<le> v \<and> v \<le> 1)) (region_test D keys sales)"
  by (simp add: region_test_def Let_def ttest_ind_p_prob)

lemma product_test_prob:
  "f_sf_bounded D \<Longrightarrow> pred_option (pred_option (\<lambda>v. 0 \<le> v \<and> v \<le> 1)) (product_test D keys sales)"
  by (simp add: product_test_def Let_def f_oneway_p_prob)

section \<open>Properties of the region and product tests\<close>

text \<open>C14: \<open>unique()\<close>, which picks the two regions the t-test of lines 97--101
  compares, lists the distinct region values in the order of their first occurrence:
  it is \<open>remdups\<close> taken from the front.\<close>

theorem unique_vals_first_occurrence: "unique_vals cs = rev (remdups (rev cs))"
  by (simp add: unique_vals_def unique_scan_eq)

text \<open>C15: the p-value of the independent t-test does not depend on which of the two
  regions comes first, so the arbitrary order of line 99--100 does not change the
  reported p-value.\<close>

theorem ttest_ind_symmetric: "ttest_ind_p D a b = ttest_ind_p D b a"
  by (auto simp: ttest_ind_p_def Let_def pooled_se_sym add.commute abs_minus_commute
      split: option.splits)

text \<open>C16: the groups line 106 builds partition the sales values of the rows whose
  product is not NaN: every such value is in exactly one group, no other value is.\<close>

theorem groupby_partition:
  "mset (concat (groupby_values keys sales)) =
   mset (map snd (filter (\<lambda>p. fst p \<noteq> NA) (zip keys sales)))"
proof -
  have "filter (\<lambda>p. fst p \<in> set (group_keys keys)) (zip keys sales) =
        filter (\<lambda>p. fst p \<noteq> NA) (zip keys sales)"
    by (rule filter_cong) (auto simp: group_keys_props dest: set_zip_leftD)
  then show ?thesis
    by (simp add: groupby_values_alt mset_concat_key_groups group_keys_props(1))
qed

text \<open>C17: when the product and sales columns have the same length, no group of
  line 106 is empty, so the empty-group branch of \<open>f_oneway\<close> is never taken.\<close>

theorem groupby_nonempty:
  assumes "length keys = length sales"
  shows "\<forall>g\<in>set (groupby_values keys sales). g \<noteq> []"
proof
  fix g assume "g \<in> set (groupby_values keys sales)"
  then obtain k where k: "k \<in> set (group_keys keys)"
    and g: "g = map snd (filter (\<lambda>p. fst p = k) (zip keys sales))"
    by (auto simp: groupby_values_alt)
  from k obtain i where i: "i < length keys" "keys ! i = k"
    by (auto simp: group_keys_props in_set_conv_nth)
  then have "(k, sales ! i) \<in> set (zip keys sales)"
    using assms by (metis in_set_zip fst_conv snd_conv)
  then have "filter (\<lambda>p. fst p = k) (zip keys sales) \<noteq> []"
    by (metis (mono_tags, lifting) filter_empty_conv fst_conv)
  with g show "g \<noteq> []" by simp
qed

theorem groupby_nonempty_witness:
  "length [Str ''a'', Str ''b'', Str ''a''] = length (map Some [1, 2, 3 :: real]) \<and>
   [] \<notin> set (groupby_values [Str ''a'', Str ''b'', Str ''a''] (map Some [1, 2, 3 :: real]))"
  using groupby_nonempty [of "[Str ''a'', Str ''b'', Str ''a'']" "map Some [1, 2, 3 :: real]"]
  by auto

text \<open>C18: the sums of squares \<open>f_oneway\<close> divides decompose the total sum of
  squares about the grand mean: \<open>SST = SSB + SSW\<close>.\<close>

theorem anova_decomposition:
  "(\<Sum>x\<leftarrow>concat gs. (x - avg (concat gs))\<^sup>2) = ss_between gs + ss_within gs"
proof -
  let ?G = "avg (concat gs)"
  have "(\<Sum>x\<leftarrow>concat gs. (x - ?G)\<^sup>2) = (\<Sum>g\<leftarrow>gs. \<Sum>x\<leftarrow>g. (x - ?G)\<^sup>2)"
    by (rule sum_list_concat_map)
  also have "\<dots> = (\<Sum>g\<leftarrow>gs. (\<Sum>x\<leftarrow>g. (x - avg g)\<^sup>2) + real (length g) * (avg g - ?G)\<^sup>2)"
    by (rule arg_cong [where f = sum_list], rule map_cong [OF refl], rule sum_sq_shift)
  also have "\<dots> = ss_within gs + ss_between gs"
    by (simp only: sum_list_addf ss_within_def ss_between_def)
  finally show ?thesis by simp
qed

text \<open>C26: \<open>unique()\<close> counts NaN as a region value. When the first region value
  of the column is NaN, the mask \<open>df[region_col] == regions[0]\<close> selects no row
  and the t-test of line 101 runs on an empty group: its p-value is NaN.\<close>

theorem region_test_nan_first:
  assumes "2 \<le> length (unique_vals keys)" and "unique_vals keys ! 0 = NA"
  shows "region_test D keys sales = Some None"
proof -
  have "select_group keys sales NA = []"
    by (simp add: select_group_def)
  then show ?thesis using assms by (simp add: region_test_def ttest_ind_p_def split: option.splits)
qed

theorem region_test_nan_first_witness:
  "2 \<le> length (unique_vals [NA, Str ''N'', Str ''S'']) \<and> unique_vals [NA, Str ''N'', Str ''S''] ! 0 = NA \<and>
   region_test cauchy_dists [NA, Str ''N'', Str ''S''] (map Some [1, 2, 3]) = Some None"
proof -
  have h: "2 \<le> length (unique_vals [NA, Str ''N'', Str ''S''])" "unique_vals [NA, Str ''N'', Str ''S''] ! 0 = NA"
    by (simp_all add: unique_vals_def)
  show ?thesis using h region_test_nan_first [OF h] by blast
qed

end
