(* ===== verification/Interval.thy ===== *)
theory Interval
  imports Descriptive
begin

text \<open>
  The interval estimator, lines 114--122 of \<open>src/bussiness_analysis.py\<close>.
  \<open>n = len(df[sales_col])\<close> counts every row, NaN included. \<open>stats.sem\<close> is
  \<open>std(ddof=1) / sqrt(n)\<close>, NaN when the column holds a NaN or fewer than two values.
  \<open>stats.t.interval(0.95, n - 1, mean, sem)\<close> is
  \<open>(mean + sem * ppf(0.025), mean + sem * ppf(0.975))\<close> on \<open>n - 1\<close> degrees of
  freedom, NaN unless the degrees of freedom and the scale are positive; the margin
  of error of line 119 is half its width. The lemmas show that this margin is the
  textbook half-width \<open>t(0.975, n - 1) * s / sqrt n\<close> and that it shrinks as the
  sample grows at a fixed variance. The formatting \<open>:.0f\<close> of line 122 is not
  modelled.
\<close>

section \<open>Definitions\<close>

definition sem :: "series \<Rightarrow> real option" where
  "sem a =
     (case those a of
        None \<Rightarrow> None
      | Some xs \<Rightarrow>
          if length xs < 2 then None
          else Some (sqrt (sample_var xs) / sqrt (real (length xs))))"

definition t_interval ::
  "dists \<Rightarrow> real \<Rightarrow> real \<Rightarrow> real option \<Rightarrow> real option \<Rightarrow> (real \<times> real) option" where
  "t_interval D confidence df loc scale =
     (case (loc, scale) of
        (Some m, Some sc) \<Rightarrow>
          if 0 < df \<and> 0 < sc
          then Some (m + sc * t_ppf D df ((1 - confidence) / 2),
                     m + sc * t_ppf D df ((1 + confidence) / 2))
          else None
      | _ \<Rightarrow> None)"

definition margin_of_error :: "dists \<Rightarrow> series \<Rightarrow> real option \<Rightarrow> real option" where
  "margin_of_error D a mean_sales =
     (let n = length a
      in map_option (\<lambda>(lo, hi). (hi - lo) / 2)
           (t_interval D (95 / 100) (real n - 1) mean_sales (sem a)))"

section \<open>Properties of the interval\<close>

lemma sem_Some:
  "2 \<le> length xs \<Longrightarrow> sem (map Some xs) = Some (sqrt (sample_var xs) / sqrt (real (length xs)))"
  by (simp add: sem_def)

lemma margin_of_error_Some:
  assumes n: "2 \<le> length xs" and v: "0 < sample_var xs"
  shows "margin_of_error D (map Some xs) (Some m) =
           Some (sqrt (sample_var xs) / sqrt (real (length xs)) *
                 ((t_ppf D (real (length xs) - 1) (39 / 40) -
                   t_ppf D (real (length xs) - 1) (1 / 40)) / 2))"
proof -
  let ?df = "real (length xs) - 1"
  let ?sc = "sqrt (sample_var xs) / sqrt (real (length xs))"
  have df: "0 < ?df" using n by simp
  have sc: "0 < ?sc" using v n by (intro divide_pos_pos) auto
  have "t_interval D (95 / 100) ?df (Some m) (sem (map Some xs)) =
          Some (m + ?sc * t_ppf D ?df (1 / 40), m + ?sc * t_ppf D ?df (39 / 40))"
    using df sc n by (simp add: t_interval_def sem_Some)
  then show ?thesis by (simp add: margin_of_error_def algebra_simps)
qed

lemma ppf_symmetric_at:
  "t_ppf_symmetric D \<Longrightarrow> 0 < df \<Longrightarrow> t_ppf D df (1 / 40) = - t_ppf D df (39 / 40)"
proof -
  assume "t_ppf_symmetric D" "0 < df"
  then have "\<forall>p. t_ppf D df (1 - p) = - t_ppf D df p" unfolding t_ppf_symmetric_def by blast
  then have "t_ppf D df (1 - 39 / 40) = - t_ppf D df (39 / 40)" by blast
  then show ?thesis by simp
qed

text \<open>C7: with a t distribution symmetric about 0, the margin of error the script
  prints is the textbook half-width \<open>t(0.975, n - 1) * s / sqrt n\<close> of the 95\%
  interval, for every NaN-free sales column of at least two values that are not all
  equal.\<close>

theorem margin_textbook:
  assumes sym: "t_ppf_symmetric D" and n: "2 \<le> length xs" and v: "0 < sample_var xs"
  shows "margin_of_error D (map Some xs) (Some m) =
           Some (t_ppf D (real (length xs) - 1) (39 / 40) * sqrt (sample_var xs) /
                 sqrt (real (length xs)))"
proof -
  have "0 < real (length xs) - 1" using n by simp
  with sym have "t_ppf D (real (length xs) - 1) (1 / 40) = - t_ppf D (real (length xs) - 1) (39 / 40)"
    by (rule ppf_symmetric_at)
  then show ?thesis using margin_of_error_Some [OF n v] by simp
qed

theorem margin_textbook_witness:
  "t_ppf_symmetric cauchy_dists \<and> 2 \<le> length [1, 3 :: real] \<and> 0 < sample_var [1, 3] \<and>
   margin_of_error cauchy_dists (map Some [1, 3]) (Some 2) =
     Some (t_ppf cauchy_dists (real (length [1, 3 :: real]) - 1) (39 / 40) *
           sqrt (sample_var [1, 3]) / sqrt (real (length [1, 3 :: real])))"
proof -
  have n: "2 \<le> length [1, 3 :: real]" by simp
  have v: "0 < sample_var [1, 3]" by (simp add: sample_var_def avg_def)
  show ?thesis using margin_textbook [OF cauchy_ppf_symmetric n v, of 2] cauchy_ppf_symmetric n v
    by blast
qed

text \<open>C8: at a fixed sample variance, a larger sample gives a strictly smaller
  margin of error, for a t distribution whose 97.5\\% quantile is positive and does not
  grow with the degrees of freedom.\<close>

theorem margin_shrinks:
  assumes sym: "t_ppf_symmetric D"
    and anti: "\<forall>d d'. 0 < d \<and> d \<le> d' \<longrightarrow>
                 0 < t_ppf D d' (39 / 40) \<and> t_ppf D d' (39 / 40) \<le> t_ppf D d (39 / 40)"
    and n: "2 \<le> length xs" "length xs < length ys"
    and v: "sample_var ys = sample_var xs" "0 < sample_var xs"
  shows "\<exists>e e'. margin_of_error D (map Some xs) (Some m) = Some e \<and>
                margin_of_error D (map Some ys) (Some m') = Some e' \<and> e' < e"
proof -
  let ?s = "sqrt (sample_var xs)"
  let ?P = "\<lambda>zs :: real list. t_ppf D (real (length zs) - 1) (39 / 40)"
  have n': "2 \<le> length ys" using n by simp
  have v': "0 < sample_var ys" using v by simp
  have dx: "0 < real (length xs) - 1" and dy: "0 < real (length ys) - 1" using n n' by simp_all
  have ex: "margin_of_error D (map Some xs) (Some m) = Some (?s / sqrt (real (length xs)) * ?P xs)"
    using margin_of_error_Some [OF n(1) v(2)] ppf_symmetric_at [OF sym dx] by simp
  have ey: "margin_of_error D (map Some ys) (Some m') = Some (?s / sqrt (real (length ys)) * ?P ys)"
    using margin_of_error_Some [OF n' v'] ppf_symmetric_at [OF sym dy] v(1) by simp
  have "real (length xs) - 1 \<le> real (length ys) - 1" using n(2) by simp
  then have p: "0 < ?P ys" "?P ys \<le> ?P xs"
    using anti dx by blast+
  have s: "0 < ?s" using v(2) by simp
  have lt: "sqrt (real (length xs)) < sqrt (real (length ys))" using n(2) by simp
  have pos: "0 < sqrt (real (length ys)) * sqrt (real (length xs))"
    using n by (intro mult_pos_pos) auto
  have "?s / sqrt (real (length ys)) < ?s / sqrt (real (length xs))"
    by (rule divide_strict_left_mono [OF lt s pos])
  then have "?s / sqrt (real (length ys)) * ?P ys < ?s / sqrt (real (length xs)) * ?P ys"
    using p(1) by (rule mult_strict_right_mono)
  also have "\<dots> \<le> ?s / sqrt (real (length xs)) * ?P xs"
    using p(2) s by (intro mult_left_mono) auto
  finally show ?thesis using ex ey by blast
qed

theorem margin_shrinks_witness:
  "\<exists>e e'. margin_of_error cauchy_dists (map Some [0, 3, 3]) (Some 2) = Some e \<and>
          margin_of_error cauchy_dists (map Some [0, 0, 3, 3]) (Some (3 / 2)) = Some e' \<and> e' < e"
proof -
  have anti: "\<forall>d d'. 0 < d \<and> d \<le> d' \<longrightarrow>
      0 < t_ppf cauchy_dists d' (39 / 40) \<and> t_ppf cauchy_dists d' (39 / 40) \<le> t_ppf cauchy_dists d (39 / 40)"
  proof -
    have "0 < tan (pi * (39 / 40 - 1 / 2))"
      by (rule tan_gt_zero) (simp_all add: pi_gt_zero)
    then show ?thesis by (simp add: cauchy_dists_def)
  qed
  have v: "sample_var [0, 0, 3, 3] = sample_var [0, 3, 3]" "0 < sample_var [0, 3, 3 :: real]"
    by (simp_all add: sample_var_def avg_def power2_eq_square)
  show ?thesis
    using margin_shrinks [OF cauchy_ppf_symmetric anti _ _ v, of 2 "3 / 2"] by simp
qed

lemma margin_of_error_missing:
  assumes "None \<in> set a"
  shows "margin_of_error D a m = None"
proof -
  have "sem a = None" using assms by (simp add: sem_def those_None_iff [symmetric])
  then show ?thesis by (simp add: margin_of_error_def t_interval_def Let_def split: option.splits)
qed

text \<open>C25: one missing sales value makes the margin of error NaN, although the mean
  it is centred on skips NaN: \<open>stats.sem\<close> propagates NaN.\<close>

theorem margin_nan_with_missing:
  assumes "None \<in> set a"
  shows "margin_of_error D a m = None"
  using assms by (rule margin_of_error_missing)

theorem margin_nan_with_missing_witness:
  "None \<in> set [Some 1, None, Some (3 :: real)] \<and>
   margin_of_error cauchy_dists [Some 1, None, Some 3] (Some 2) = None"
proof -
  have h: "None \<in> set [Some 1, None, Some (3 :: real)]" by simp
  show ?thesis using h margin_nan_with_missing [OF h] by blast
qed

end
