(* ===== verification/Correlation.thy ===== *)
theory Correlation
  imports Descriptive
begin

text \<open>
  The correlation analyser, lines 79--85 of \<open>src/bussiness_analysis.py\<close>.
  \<open>df.select_dtypes(include=np.number)\<close> keeps the columns that hold no string
  (read_csv gives such a column a float dtype, NaN included); \<open>numeric_df.corr()\<close>
  is pandas' Pearson matrix over pairwise complete observations
  (\<open>min_periods=1\<close>): for each pair of columns it keeps the rows where both are
  not NaN and returns \<open>sxy / sqrt(sxx * syy)\<close>, NaN when no row is left or the
  divisor is 0. The heatmap of line 83 is not modelled. The lemmas show that every
  coefficient lies in \<open>[-1, 1]\<close>, that the matrix is symmetric, and that its
  diagonal is 1 on every non-constant column and NaN on the others.
\<close>

section \<open>Definitions\<close>

definition is_numeric_column :: "cell list \<Rightarrow> bool" where
  "is_numeric_column v = list_all (\<lambda>c. case c of Str _ \<Rightarrow> False | _ \<Rightarrow> True) v"

definition to_series :: "cell list \<Rightarrow> series" where
  "to_series v = map (\<lambda>c. case c of Num x \<Rightarrow> Some x | _ \<Rightarrow> None) v"

text \<open>A frame with no row has only object columns (read_csv cannot infer a
  dtype), so \<open>select_dtypes\<close> keeps no column of it.\<close>

definition select_numeric :: "frame \<Rightarrow> (string \<times> series) list" where
  "select_numeric df = [(c, to_series v). (c, v) \<leftarrow> df, v \<noteq> [] \<and> is_numeric_column v]"

definition complete_pairs :: "series \<Rightarrow> series \<Rightarrow> (real \<times> real) list" where
  "complete_pairs a b = [(x, y). (Some x, Some y) \<leftarrow> zip a b]"

definition pearson :: "(real \<times> real) list \<Rightarrow> real option" where
  "pearson ps =
     (if ps = [] then None
      else
        (let mx = avg (map fst ps); my = avg (map snd ps);
             sxy = (\<Sum>p\<leftarrow>ps. (fst p - mx) * (snd p - my));
             sxx = (\<Sum>p\<leftarrow>ps. (fst p - mx)\<^sup>2);
             syy = (\<Sum>p\<leftarrow>ps. (snd p - my)\<^sup>2);
             divisor = sqrt (sxx * syy)
         in if divisor = 0 then None else Some (sxy / divisor)))"

definition corr_matrix :: "frame \<Rightarrow> ((string \<times> string) \<times> real option) list" where
  "corr_matrix df =
     (let cs = select_numeric df
      in [((fst p, fst q), pearson (complete_pairs (snd p) (snd q))). p \<leftarrow> cs, q \<leftarrow> cs])"

section \<open>Pearson's coefficient\<close>

lemma pearson_eq:
  "ps \<noteq> [] \<Longrightarrow>
   pearson ps =
     (let sxy = (\<Sum>p\<leftarrow>ps. (fst p - avg (map fst ps)) * (snd p - avg (map snd ps)));
          d = sqrt ((\<Sum>p\<leftarrow>ps. (fst p - avg (map fst ps))\<^sup>2) *
                    (\<Sum>p\<leftarrow>ps. (snd p - avg (map snd ps))\<^sup>2))
      in if d = 0 then None else Some (sxy / d))"
  by (simp add: pearson_def Let_def)

lemma abs_div_le_one:
  assumes "\<bar>a\<bar> \<le> b" "0 < (b :: real)"
  shows "\<bar>a / b\<bar> \<le> 1"
proof -
  have "\<bar>a / b\<bar> = \<bar>a\<bar> / b" using assms(2) by (simp add: abs_divide)
  also have "\<dots> \<le> 1" using assms by (simp only: pos_divide_le_eq)
  finally show ?thesis .
qed

lemma pearson_bounded_aux:
  assumes "pearson ps = Some r"
  shows "-1 \<le> r \<and> r \<le> 1"
proof -
  let ?mx = "avg (map fst ps)" and ?my = "avg (map snd ps)"
  let ?sxy = "\<Sum>p\<leftarrow>ps. (fst p - ?mx) * (snd p - ?my)"
  let ?sxx = "\<Sum>p\<leftarrow>ps. (fst p - ?mx)\<^sup>2" and ?syy = "\<Sum>p\<leftarrow>ps. (snd p - ?my)\<^sup>2"
  have ne: "ps \<noteq> []" using assms by (cases ps) (simp_all add: pearson_def)
  have r: "r = ?sxy / sqrt (?sxx * ?syy)" and d: "sqrt (?sxx * ?syy) \<noteq> 0"
    using assms pearson_eq [OF ne] by (simp_all add: Let_def split: if_splits)
  have cs: "?sxy\<^sup>2 \<le> ?sxx * ?syy"
    by (rule sum_list_cauchy_schwarz)
  have "sqrt (?sxy\<^sup>2) \<le> sqrt (?sxx * ?syy)"
    using cs by (rule real_sqrt_le_mono)
  then have le: "\<bar>?sxy\<bar> \<le> sqrt (?sxx * ?syy)" by simp
  have nn: "0 \<le> ?sxx * ?syy"
    by (intro mult_nonneg_nonneg sum_list_squares_nonneg)
  have "?sxx * ?syy \<noteq> 0" using d by (simp only: real_sqrt_eq_zero_cancel_iff) simp
  with nn have "0 < ?sxx * ?syy" by linarith
  then have pos: "0 < sqrt (?sxx * ?syy)" by (rule real_sqrt_gt_zero)
  have "\<bar>r\<bar> \<le> 1" unfolding r by (rule abs_div_le_one [OF le pos])
  then show ?thesis by linarith
qed

lemma pearson_swap: "pearson (map prod.swap ps) = pearson ps"
  by (simp add: pearson_def Let_def comp_def mult.commute)

lemma complete_pairs_swap: "complete_pairs b a = map prod.swap (complete_pairs a b)"
proof -
  have "complete_pairs b a = [(y, x). (Some x, Some y) \<leftarrow> zip a b]"
    unfolding complete_pairs_def by (induction a b rule: list_induct2') (auto split: option.splits)
  then show ?thesis
    unfolding complete_pairs_def by (induction a b rule: list_induct2') (auto split: option.splits)
qed

lemma mem_select_numeric:
  "(c, s) \<in> set (select_numeric df) \<longleftrightarrow>
   (\<exists>v. (c, v) \<in> set df \<and> v \<noteq> [] \<and> is_numeric_column v \<and> s = to_series v)"
  by (induction df) (auto simp: select_numeric_def)

lemma mem_corr_matrix:
  "((c1, c2), v) \<in> set (corr_matrix df) \<longleftrightarrow>
   (\<exists>a b. (c1, a) \<in> set (select_numeric df) \<and> (c2, b) \<in> set (select_numeric df) \<and>
          v = pearson (complete_pairs a b))"
  by (force simp: corr_matrix_def Let_def)

lemma complete_pairs_diag: "complete_pairs a a = map (\<lambda>x. (x, x)) (dropna a)"
proof (induction a)
  case (Cons x a)
  then show ?case by (cases x) (auto simp: complete_pairs_def)
qed (simp add: complete_pairs_def)

lemma pearson_diag:
  assumes "\<exists>x\<in>set xs. \<exists>y\<in>set xs. x \<noteq> y"
  shows "pearson (map (\<lambda>x. (x, x)) xs) = Some 1"
proof -
  let ?S = "\<Sum>x\<leftarrow>xs. (x - avg xs)\<^sup>2"
  have ne: "xs \<noteq> []" using assms by auto
  have "?S \<noteq> 0"
  proof
    assume "?S = 0"
    then have "\<forall>x\<in>set xs. x = avg xs" using sum_list_squares_eq_0_iff [of "\<lambda>x. x - avg xs" xs]
      by simp
    with assms show False by metis
  qed
  moreover have "0 \<le> ?S" by simp
  ultimately have pos: "0 < ?S" by linarith
  have "(\<Sum>x\<leftarrow>xs. (x - avg xs) * (x - avg xs)) = ?S" by (simp add: power2_eq_square)
  moreover have "sqrt (?S * ?S) = ?S" using pos by simp
  ultimately show ?thesis using ne pos by (simp add: pearson_def Let_def comp_def)
qed

lemma pearson_diag_const:
  assumes "\<not> (\<exists>x\<in>set xs. \<exists>y\<in>set xs. x \<noteq> y)"
  shows "pearson (map (\<lambda>x. (x, x)) xs) = None"
proof (cases xs)
  case (Cons a as)
  then have "\<forall>y\<in>set xs. y = a" using assms by auto
  then have r: "xs = replicate (length xs) a" by (simp add: replicate_length_same)
  have n: "0 < length xs" using Cons by simp
  have av: "avg (replicate (length xs) a) = a"
    using n by (simp add: avg_def sum_list_replicate)
  have "pearson (map (\<lambda>x. (x, x)) (replicate (length xs) a)) = None"
    using n by (simp add: pearson_def Let_def av sum_list_replicate del: replicate.simps)
  then show ?thesis using r by metis
qed (simp add: pearson_def)

lemma pearson_diag_cases:
  "pearson (complete_pairs a a) =
     (if \<exists>x\<in>set (dropna a). \<exists>y\<in>set (dropna a). x \<noteq> y then Some 1 else None)"
proof (cases "\<exists>x\<in>set (dropna a). \<exists>y\<in>set (dropna a). x \<noteq> y")
  case True
  then show ?thesis by (simp only: complete_pairs_diag pearson_diag [OF True] if_True)
next
  case False
  then show ?thesis by (simp only: complete_pairs_diag pearson_diag_const [OF False] if_False)
qed

section \<open>Properties of the correlation matrix\<close>

text \<open>C19: every coefficient the correlation matrix of line 81 reports lies in
  \<open>[-1, 1]\<close>.\<close>

theorem corr_bounded:
  assumes "((c1, c2), Some r) \<in> set (corr_matrix df)"
  shows "-1 \<le> r \<and> r \<le> 1"
proof -
  from assms obtain a b where "Some r = pearson (complete_pairs a b)"
    by (auto simp: mem_corr_matrix)
  then show ?thesis using pearson_bounded_aux by metis
qed

theorem corr_bounded_witness:
  "((''x'', ''y''), Some 1) \<in> set (corr_matrix [(''x'', [Num 1, Num 2]), (''y'', [Num 3, Num 5])]) \<and>
   -1 \<le> (1 :: real) \<and> (1 :: real) \<le> 1"
proof -
  have h: "((''x'', ''y''), Some 1) \<in> set (corr_matrix [(''x'', [Num 1, Num 2]), (''y'', [Num 3, Num 5])])"
    by (simp add: corr_matrix_def select_numeric_def is_numeric_column_def to_series_def
        complete_pairs_def pearson_def avg_def power2_eq_square)
  show ?thesis using corr_bounded [OF h] h by simp
qed

text \<open>C20: the correlation matrix is symmetric: the entry for a pair of columns is
  the entry for the swapped pair.\<close>

theorem corr_symmetric:
  assumes "((c1, c2), v) \<in> set (corr_matrix df)"
  shows "((c2, c1), v) \<in> set (corr_matrix df)"
proof -
  from assms obtain a b where ab: "(c1, a) \<in> set (select_numeric df)" "(c2, b) \<in> set (select_numeric df)"
    and v: "v = pearson (complete_pairs a b)"
    by (auto simp: mem_corr_matrix)
  have "v = pearson (complete_pairs b a)"
    by (simp only: v complete_pairs_swap [where a = a and b = b] pearson_swap)
  with ab show ?thesis by (auto simp: mem_corr_matrix)
qed

theorem corr_symmetric_witness:
  "((''x'', ''y''), Some 1) \<in> set (corr_matrix [(''x'', [Num 1, Num 2]), (''y'', [Num 3, Num 5])]) \<and>
   ((''y'', ''x''), Some 1) \<in> set (corr_matrix [(''x'', [Num 1, Num 2]), (''y'', [Num 3, Num 5])])"
proof -
  have h: "((''x'', ''y''), Some 1) \<in> set (corr_matrix [(''x'', [Num 1, Num 2]), (''y'', [Num 3, Num 5])])"
    by (simp add: corr_matrix_def select_numeric_def is_numeric_column_def to_series_def
        complete_pairs_def pearson_def avg_def power2_eq_square)
  show ?thesis using corr_symmetric [OF h] h by simp
qed

text \<open>C21: the diagonal entry of a numeric column is 1 when its non-NaN values are
  not all equal, and NaN when they are (a constant column, or one with no value):
  pandas divides by a zero variance there.\<close>

theorem corr_diagonal:
  assumes "(c, v) \<in> set df" "v \<noteq> []" "is_numeric_column v"
  shows "((c, c), if \<exists>x\<in>set (dropna (to_series v)). \<exists>y\<in>set (dropna (to_series v)). x \<noteq> y
                   then Some 1 else None) \<in> set (corr_matrix df)"
proof -
  have "(c, to_series v) \<in> set (select_numeric df)"
    using assms by (auto simp: mem_select_numeric)
  moreover note pearson_diag_cases [of "to_series v", symmetric]
  ultimately show ?thesis unfolding mem_corr_matrix by blast
qed

theorem corr_diagonal_witness:
  "((''x'', ''x''), Some 1) \<in> set (corr_matrix [(''x'', [Num 1, NA, Num 2]), (''y'', [Num 3, NA, Num 3])]) \<and>
   ((''y'', ''y''), None) \<in> set (corr_matrix [(''x'', [Num 1, NA, Num 2]), (''y'', [Num 3, NA, Num 3])])"
proof -
  let ?df = "[(''x'', [Num 1, NA, Num 2]), (''y'', [Num 3, NA, Num 3])]"
  have x: "(''x'', [Num 1, NA, Num 2]) \<in> set ?df" "[Num 1, NA, Num 2] \<noteq> []"
    "is_numeric_column [Num 1, NA, Num 2]"
    and y: "(''y'', [Num 3, NA, Num 3]) \<in> set ?df" "[Num 3, NA, Num 3] \<noteq> []"
    "is_numeric_column [Num 3, NA, Num 3]"
    by (simp_all add: is_numeric_column_def)
  have dx: "dropna (to_series [Num 1, NA, Num 2]) = [1, 2]"
    and dy: "dropna (to_series [Num 3, NA, Num 3]) = [3, 3]"
    by (simp_all add: to_series_def dropna_def map_filter_simps)
  have cx: "\<exists>u\<in>set (dropna (to_series [Num 1, NA, Num 2])). \<exists>w\<in>set (dropna (to_series [Num 1, NA, Num 2])). u \<noteq> w"
    unfolding dx by (rule bexI [of _ 1], rule bexI [of _ 2]) simp_all
  have cy: "\<not> (\<exists>u\<in>set (dropna (to_series [Num 3, NA, Num 3])). \<exists>w\<in>set (dropna (to_series [Num 3, NA, Num 3])). u \<noteq> w)"
    unfolding dy by simp
  show ?thesis
    using corr_diagonal [OF x] corr_diagonal [OF y] unfolding if_P [OF cx] if_not_P [OF cy] by (rule conjI)
qed

end
