(* ===== verification/Pipeline.thy ===== *)
theory Pipeline
  imports Detector Hypothesis Interval Correlation
begin

text \<open>
  The script as one function, lines 17--134 of \<open>src/bussiness_analysis.py\<close>:
  \<open>run_analysis\<close> composes the components in the order of the script, from the
  frame \<open>pd.read_csv\<close> returns to the exception it raises or the values its report
  prints (the record \<open>report\<close>), with the verdict of lines 131--134. The
  lemmas classify the exception each step can raise and give the conditions under
  which each step succeeds.
\<close>

section \<open>The report and the verdict\<close>

datatype verdict = Significant | NotSignificant

text \<open>Lines 131--134: a NaN p-value compares false with \<open>0.05\<close>.\<close>

definition verdict_of :: "real option \<Rightarrow> verdict" where
  "verdict_of p =
     (case p of
        Some v \<Rightarrow> if v < 5 / 100 then Significant else NotSignificant
      | None \<Rightarrow> NotSignificant)"

record report =
  detected :: roles
  summary :: summary
  mean_sales :: "real option"
  median_sales :: "real option"
  mode_sales :: real
  std_sales :: "real option"
  shapiro_pval :: "real option"
  corr :: "((string \<times> string) \<times> real option) list"
  p_val_1 :: "real option"
  p_val_2 :: "real option option"
  p_val_3 :: "real option option"
  margin_error :: "real option"
  verdict :: verdict

section \<open>Reading the columns of the frame\<close>

text \<open>\<open>df[c]\<close>: the columns of that name; after the normalisation of line 20 two raw
  names can become one.\<close>

definition columns_named :: "frame \<Rightarrow> string \<Rightarrow> cell list list" where
  "columns_named df c = [v. (n, v) \<leftarrow> df, n = c]"

text \<open>The sales column as lines 51--55 use it: a column holding a string makes
  \<open>mean()\<close> raise \<open>TypeError\<close> (line 53); a duplicated name makes \<open>df[c]\<close> a
  DataFrame, whose \<open>mode()[0]\<close> raises \<open>KeyError\<close> (line 55) unless \<open>mean()\<close>
  already raised.\<close>

definition sales_series :: "frame \<Rightarrow> string \<Rightarrow> series result" where
  "sales_series df c =
     (case columns_named df c of
        [v] \<Rightarrow> if is_numeric_column v then Inr (to_series v) else Inl TypeError
      | vs \<Rightarrow> if list_all is_numeric_column vs then Inl KeyError else Inl TypeError)"

text \<open>A key column read by \<open>unique()\<close> (line 97) or \<open>groupby\<close> (line 106); a
  duplicated name raises the given error (\<open>AttributeError\<close>, \<open>ValueError\<close>).\<close>

definition key_column :: "frame \<Rightarrow> string \<Rightarrow> error \<Rightarrow> cell list result" where
  "key_column df c e = (case columns_named df c of [v] \<Rightarrow> Inr v | _ \<Rightarrow> Inl e)"

definition region_step :: "dists \<Rightarrow> frame \<Rightarrow> roles \<Rightarrow> series \<Rightarrow> real option option result" where
  "region_step D df r sales =
     (case region_col r of
        None \<Rightarrow> Inr None
      | Some c \<Rightarrow>
          (case key_column df c AttributeError of
             Inl e \<Rightarrow> Inl e
           | Inr keys \<Rightarrow> Inr (region_test D keys sales)))"

definition product_step :: "dists \<Rightarrow> frame \<Rightarrow> roles \<Rightarrow> series \<Rightarrow> real option option result" where
  "product_step D df r sales =
     (case product_col r of
        None \<Rightarrow> Inr None
      | Some c \<Rightarrow>
          (case key_column df c ValueError of
             Inl e \<Rightarrow> Inl e
           | Inr keys \<Rightarrow> Inr (product_test D keys sales)))"

section \<open>The whole run\<close>

definition run_analysis :: "dists \<Rightarrow> frame \<Rightarrow> report result" where
  "run_analysis D df0 =
     (let df = normalize_columns df0
      in case detect_columns (columns df) of
           Inl e \<Rightarrow> Inl e
         | Inr r \<Rightarrow>
             (case sales_series df (sales_col r) of
                Inl e \<Rightarrow> Inl e
              | Inr sales \<Rightarrow>
                  (case mode_first sales of
                     Inl e \<Rightarrow> Inl e
                   | Inr mode \<Rightarrow>
                       (case shapiro_p D sales of
                          Inl e \<Rightarrow> Inl e
                        | Inr sw \<Rightarrow>
                            (let m = series_mean sales;
                                 p1 = (case m of Some v \<Rightarrow> ttest_1samp_p D sales v | None \<Rightarrow> None)
                             in case region_step D df r sales of
                                  Inl e \<Rightarrow> Inl e
                                | Inr p2 \<Rightarrow>
                                    (case product_step D df r sales of
                                       Inl e \<Rightarrow> Inl e
                                     | Inr p3 \<Rightarrow>
                                         Inr \<lparr>detected = r, summary = describe sales,
                                              mean_sales = m, median_sales = series_median sales,
                                              mode_sales = mode, std_sales = series_std sales,
                                              shapiro_pval = sw, corr = corr_matrix df,
                                              p_val_1 = p1, p_val_2 = p2, p_val_3 = p3,
                                              margin_error = margin_of_error D sales m,
                                              verdict = verdict_of p1\<rparr>))))))"

section \<open>Which step raises which exception\<close>

lemma detect_columns_Inl: "detect_columns cols = Inl e \<longleftrightarrow> detect_sales cols = Inl e"
  by (simp add: detect_columns_def split: sum.splits)

lemma sales_series_Inl: "sales_series df c = Inl e \<Longrightarrow> e = TypeError \<or> e = KeyError"
  by (auto simp: sales_series_def split: list.splits if_splits)

lemma mode_first_Inl: "mode_first s = Inl e \<Longrightarrow> e = KeyError"
  by (auto simp: mode_first_def split: list.splits)

lemma shapiro_p_Inl: "shapiro_p D s = Inl e \<Longrightarrow> e = ValueError"
  by (auto simp: shapiro_p_def split: option.splits if_splits)

lemma region_step_Inl: "region_step D df r s = Inl e \<Longrightarrow> e = AttributeError"
  by (auto simp: region_step_def key_column_def split: option.splits list.splits sum.splits)

lemma product_step_Inl: "product_step D df r s = Inl e \<Longrightarrow> e = ValueError"
  by (auto simp: product_step_def key_column_def split: option.splits list.splits sum.splits)

lemmas step_errors = sales_series_Inl mode_first_Inl shapiro_p_Inl region_step_Inl product_step_Inl

lemma detect_columns_Inr: "detect_columns cols = Inr r \<Longrightarrow> detect_sales cols = Inr (sales_col r)"
  by (auto simp: detect_columns_def split: sum.splits)

lemma run_analysis_error_after_detect:
  "detect_columns (columns (normalize_columns df)) = Inr r \<Longrightarrow> run_analysis D df = Inl e \<Longrightarrow>
   e \<noteq> NoSalesColumn"
  by (auto simp: run_analysis_def Let_def split: sum.splits dest!: step_errors)

lemma run_analysis_NoSalesColumn:
  "run_analysis D df = Inl NoSalesColumn \<longleftrightarrow>
   detect_sales (columns (normalize_columns df)) = Inl NoSalesColumn"
proof (cases "detect_columns (columns (normalize_columns df))")
  case (Inl e)
  then have "run_analysis D df = Inl e" by (simp add: run_analysis_def Let_def)
  with Inl show ?thesis by (simp add: detect_columns_Inl)
next
  case (Inr r)
  then show ?thesis
    using run_analysis_error_after_detect [OF Inr, of D NoSalesColumn] detect_columns_Inr [OF Inr]
    by auto
qed

lemma detect_sales_NoSalesColumn_iff:
  "detect_sales cols = Inl NoSalesColumn \<longleftrightarrow> filter is_sales_name cols = []"
  by (simp add: detect_sales_def split: list.splits)

lemma run_analysis_Inr_verdict:
  assumes "run_analysis D df = Inr rep"
  shows "\<exists>sales. verdict rep =
           verdict_of (case series_mean sales of Some v \<Rightarrow> ttest_1samp_p D sales v | None \<Rightarrow> None)"
  using assms by (auto simp: run_analysis_def Let_def split: sum.splits)

lemma run_analysis_Inr_sales:
  assumes "run_analysis D df = Inr rep"
  shows "detect_columns (columns (normalize_columns df)) = Inr (detected rep) \<and>
         (\<exists>s. sales_series (normalize_columns df) (sales_col (detected rep)) = Inr s \<and>
              mean_sales rep = series_mean s \<and> margin_error rep = margin_of_error D s (series_mean s))"
  using assms by (auto simp: run_analysis_def Let_def split: sum.splits)

lemma verdict_of_one_or_nan: "p = None \<or> p = Some 1 \<Longrightarrow> verdict_of p = NotSignificant"
  by (auto simp: verdict_of_def)

lemma run_analysis_verdict:
  assumes c: "t_centered D" and run: "run_analysis D df = Inr rep"
  shows "verdict rep = NotSignificant"
proof -
  obtain sales where v: "verdict rep =
      verdict_of (case series_mean sales of Some v \<Rightarrow> ttest_1samp_p D sales v | None \<Rightarrow> None)"
    using run_analysis_Inr_verdict [OF run] by blast
  show ?thesis
  proof (cases "series_mean sales")
    case None
    with v show ?thesis by (simp add: verdict_of_def)
  next
    case (Some m)
    with v ttest_self_one_or_nan [OF c Some] show ?thesis
      by (simp add: verdict_of_one_or_nan)
  qed
qed

section \<open>When each step succeeds\<close>

lemma mode_first_Inr_ex: "dropna s \<noteq> [] \<Longrightarrow> \<exists>m. mode_first s = Inr m"
  by (auto simp: mode_first_def series_mode_def mode_vals_Nil_iff split: list.splits)

lemma shapiro_p_Inr_ex: "3 \<le> length (dropna s) \<Longrightarrow> \<exists>x. shapiro_p D s = Inr x"
proof (cases "those s")
  case (Some xs)
  then have "s = map Some xs" by (simp add: those_Some_iff)
  moreover assume "3 \<le> length (dropna s)"
  ultimately show ?thesis using Some by (simp add: shapiro_p_def)
qed (simp add: shapiro_p_def)

lemma key_column_single: "length (columns_named df c) = 1 \<Longrightarrow> \<exists>v. key_column df c e = Inr v"
  by (auto simp: key_column_def split: list.splits)

lemma region_step_Inr_ex:
  assumes "\<forall>c. region_col r = Some c \<longrightarrow> length (columns_named df c) = 1"
  shows "\<exists>p. region_step D df r s = Inr p"
proof (cases "region_col r")
  case (Some c)
  with assms have "length (columns_named df c) = 1" by simp
  then obtain v where "key_column df c AttributeError = Inr v" using key_column_single by blast
  with Some show ?thesis by (simp add: region_step_def)
qed (simp add: region_step_def)

lemma product_step_Inr_ex:
  assumes "\<forall>c. product_col r = Some c \<longrightarrow> length (columns_named df c) = 1"
  shows "\<exists>p. product_step D df r s = Inr p"
proof (cases "product_col r")
  case (Some c)
  with assms have "length (columns_named df c) = 1" by simp
  then obtain v where "key_column df c ValueError = Inr v" using key_column_single by blast
  with Some show ?thesis by (simp add: product_step_def)
qed (simp add: product_step_def)

lemma sales_series_duplicate:
  "2 \<le> length (columns_named df c) \<Longrightarrow> sales_series df c = Inl KeyError \<or> sales_series df c = Inl TypeError"
  by (auto simp: sales_series_def split: list.splits)

lemma region_step_prob:
  "t_sf_bounded D \<Longrightarrow> region_step D df r s = Inr p \<Longrightarrow>
   pred_option (pred_option (\<lambda>v. 0 \<le> v \<and> v \<le> 1)) p"
  by (auto simp: region_step_def region_test_prob split: option.splits sum.splits)

lemma product_step_prob:
  "f_sf_bounded D \<Longrightarrow> product_step D df r s = Inr p \<Longrightarrow>
   pred_option (pred_option (\<lambda>v. 0 \<le> v \<and> v \<le> 1)) p"
  by (auto simp: product_step_def product_test_prob split: option.splits sum.splits)

lemma run_analysis_Inr_pvals:
  assumes "run_analysis D df = Inr rep"
  shows "\<exists>s r. p_val_1 rep = (case series_mean s of Some v \<Rightarrow> ttest_1samp_p D s v | None \<Rightarrow> None) \<and>
           region_step D (normalize_columns df) r s = Inr (p_val_2 rep) \<and>
           product_step D (normalize_columns df) r s = Inr (p_val_3 rep)"
  using assms by (fastforce simp: run_analysis_def Let_def split: sum.splits)

text \<open>The definitions a run on a concrete frame evaluates by.\<close>

lemmas run_eval = run_analysis_def Let_def header_eval detect_eval sales_series_def
  columns_named_def is_numeric_column_def to_series_def mode_first_def series_mode_def
  mode_vals_def max_count_def shapiro_p_def region_step_def key_column_def product_step_def

end
