(* ===== verification/Output.thy ===== *)
theory Output
  imports Pipeline
begin

text \<open>
  What the script prints, the print calls of lines 22--134 of
  \<open>src/bussiness_analysis.py\<close>. One value of \<open>out_line\<close> stands for each group of
  \<open>print\<close> calls that prints one result, with the values it shows, and
  \<open>render_line\<close> gives the text of the lines whose text the model writes out. Floats formatted with
  \<open>:.2f\<close> (lines 59--62) or \<open>:.0f\<close> (lines 122, 128--129) are \<open>fixed\<close> values:
  Python rounds the magnitude to \<open>d\<close> decimals, half to even, keeps the sign (so a
  small negative number prints as \<open>-0.00\<close>) and prints NaN as \<open>nan\<close>. Floats
  printed without a format (lines 74, 93, 102, 109) are kept as the value; tables
  (lines 23, 51, 81) as the value they print. The lemmas bound the error of the
  formatting and read the printed digits back (\<open>decimal_value\<close>, a reader of the
  text, not code of the script).
\<close>

section \<open>Fixed-point formatting\<close>

text \<open>Rounding half to even, as Python's float formatting does on the exact value.\<close>

definition round_half_even :: "real \<Rightarrow> int" where
  "round_half_even x =
     (let f = \<lfloor>x\<rfloor>; r = x - of_int f
      in if r < 1/2 then f else if 1/2 < r then f + 1 else if even f then f else f + 1)"

text \<open>\<open>f"{x:.{d}f}"\<close>: the sign, and the magnitude in units of \<open>10^-d\<close>.\<close>

datatype fixed = Fixed bool int | Fixed_NaN

definition fmt_fixed :: "nat \<Rightarrow> real option \<Rightarrow> fixed" where
  "fmt_fixed d x =
     (case x of
        None \<Rightarrow> Fixed_NaN
      | Some v \<Rightarrow> Fixed (v < 0) (round_half_even (\<bar>v\<bar> * 10 ^ d)))"

section \<open>The printed lines\<close>

datatype out_line =
    Out_Columns "string list"
  | Out_Detected string "string option" "string option"
  | Out_Describe summary
  | Out_Describe_Other
  | Out_Sales_Summary fixed fixed fixed fixed
  | Out_Shapiro "real option"
  | Out_Corr "((string \<times> string) \<times> real option) list"
  | Out_Ttest1 "real option"
  | Out_Ttest2 "real option"
  | Out_Anova "real option"
  | Out_Interval fixed fixed
  | Out_Report fixed fixed
  | Out_Verdict verdict

text \<open>Lines 42--45.\<close>

definition detected_line :: "roles \<Rightarrow> out_line" where
  "detected_line r = Out_Detected (sales_col r) (region_col r) (product_col r)"

text \<open>Lines 58--62.\<close>

definition sales_summary_line ::
  "real option \<Rightarrow> real option \<Rightarrow> real \<Rightarrow> real option \<Rightarrow> out_line" where
  "sales_summary_line m md mo sd =
     Out_Sales_Summary (fmt_fixed 2 m) (fmt_fixed 2 md) (fmt_fixed 2 (Some mo)) (fmt_fixed 2 sd)"

text \<open>Lines 102 and 109 print only when their test ran.\<close>

definition test_lines :: "(real option \<Rightarrow> out_line) \<Rightarrow> real option option \<Rightarrow> out_line list" where
  "test_lines f p = (case p of None \<Rightarrow> [] | Some q \<Rightarrow> [f q])"

text \<open>Lines 121--122.\<close>

definition interval_line :: "real option \<Rightarrow> real option \<Rightarrow> out_line" where
  "interval_line m me = Out_Interval (fmt_fixed 0 m) (fmt_fixed 0 me)"

text \<open>Lines 127--134.\<close>

definition report_lines :: "real option \<Rightarrow> real option \<Rightarrow> verdict \<Rightarrow> out_line list" where
  "report_lines m me v = [Out_Report (fmt_fixed 0 m) (fmt_fixed 0 me), Out_Verdict v]"

text \<open>Everything a run that reaches the end prints, read off its report: the
  specification of the output of a complete run.\<close>

definition printed_run :: "string list \<Rightarrow> report \<Rightarrow> out_line list" where
  "printed_run cs rep =
     [Out_Columns cs, detected_line (detected rep), Out_Describe (summary rep),
      sales_summary_line (mean_sales rep) (median_sales rep) (mode_sales rep) (std_sales rep),
      Out_Shapiro (shapiro_pval rep), Out_Corr (corr rep), Out_Ttest1 (p_val_1 rep)] @
     test_lines Out_Ttest2 (p_val_2 rep) @ test_lines Out_Anova (p_val_3 rep) @
     [interval_line (mean_sales rep) (margin_error rep)] @
     report_lines (mean_sales rep) (margin_error rep) (verdict rep)"

section \<open>The printed text\<close>

text \<open>Decimal digits of a natural number, most significant first, as \<open>str(n)\<close>.\<close>

definition digit_char :: "nat \<Rightarrow> char" where
  "digit_char d = ''0123456789'' ! d"

fun nat_digits :: "nat \<Rightarrow> string" where
  "nat_digits n = (if n < 10 then [digit_char n] else nat_digits (n div 10) @ [digit_char (n mod 10)])"

declare nat_digits.simps [simp del]

definition pad_zeros :: "nat \<Rightarrow> string \<Rightarrow> string" where
  "pad_zeros w s = replicate (w - length s) CHR ''0'' @ s"

text \<open>The text of \<open>f"{x:.{d}f}"\<close>: a minus sign for a negative number, at least one
  digit before the point, exactly \<open>d\<close> after it (no point when \<open>d = 0\<close>), and
  \<open>nan\<close> for NaN.\<close>

definition fixed_text :: "nat \<Rightarrow> fixed \<Rightarrow> string" where
  "fixed_text d f =
     (case f of
        Fixed_NaN \<Rightarrow> ''nan''
      | Fixed neg k \<Rightarrow>
          (if neg then ''-'' else []) @
          (let s = pad_zeros (d + 1) (nat_digits (nat k))
           in if d = 0 then s else take (length s - d) s @ ''.'' @ drop (length s - d) s))"

text \<open>\<open>print\<close> of \<open>None\<close> prints \<open>None\<close>; the sign \<open>\<plusminus>\<close> of lines 122 and 129 is
  the Latin-1 code point 177.\<close>

definition py_str_opt :: "string option \<Rightarrow> string" where
  "py_str_opt s = (case s of None \<Rightarrow> ''None'' | Some t \<Rightarrow> t)"

definition plus_minus :: char where
  "plus_minus = char_of (177 :: nat)"

text \<open>The lines printed by lines 42--45, 58--62, 121--122, 127--129 and 131--134;
  \<open>print("\nX")\<close> prints an empty line and then \<open>X\<close>.\<close>

definition detected_text :: "string \<Rightarrow> string option \<Rightarrow> string option \<Rightarrow> string list" where
  "detected_text s r p =
     ['''', ''DETECTED COLUMNS'', ''Sales: '' @ s, ''Region: '' @ py_str_opt r,
      ''Product: '' @ py_str_opt p]"

definition sales_summary_text :: "fixed \<Rightarrow> fixed \<Rightarrow> fixed \<Rightarrow> fixed \<Rightarrow> string list" where
  "sales_summary_text m md mo sd =
     ['''', ''Sales Summary'', ''Mean: '' @ fixed_text 2 m, ''Median: '' @ fixed_text 2 md,
      ''Mode: '' @ fixed_text 2 mo, ''Standard Deviation: '' @ fixed_text 2 sd]"

definition interval_text :: "fixed \<Rightarrow> fixed \<Rightarrow> string list" where
  "interval_text m me =
     ['''', ''95% CONFIDENCE INTERVAL'',
      ''Average Sales: '' @ fixed_text 0 m @ '' '' @ [plus_minus] @ '' '' @ fixed_text 0 me]"

definition report_text :: "fixed \<Rightarrow> fixed \<Rightarrow> string list" where
  "report_text m me =
     ['''', ''STATISTICAL ANALYSIS REPORT'', ''Mean Sales: '' @ fixed_text 0 m,
      ''95% Confidence Interval: '' @ [plus_minus] @ '' '' @ fixed_text 0 me]"

fun verdict_text :: "verdict \<Rightarrow> string" where
  "verdict_text Significant = ''Sales are statistically significant.''"
| "verdict_text NotSignificant = ''Sales are not statistically significant.''"

text \<open>The text of a printed line, for the lines the model renders; the tables and
  the floats printed by \<open>repr\<close> are not rendered.\<close>

fun render_line :: "out_line \<Rightarrow> string list option" where
  "render_line (Out_Detected s r p) = Some (detected_text s r p)"
| "render_line (Out_Sales_Summary m md mo sd) = Some (sales_summary_text m md mo sd)"
| "render_line (Out_Interval m me) = Some (interval_text m me)"
| "render_line (Out_Report m me) = Some (report_text m me)"
| "render_line (Out_Verdict v) = Some [verdict_text v]"
| "render_line _ = None"

section \<open>Reading printed numbers\<close>

text \<open>The number a printed decimal numeral denotes, the way a reader of the report
  takes it: an optional minus sign, digits, and an optional point followed by digits.\<close>

definition digit_of :: "char \<Rightarrow> nat option" where
  "digit_of c = (let n = of_char c :: nat in if 48 \<le> n \<and> n \<le> 57 then Some (n - 48) else None)"

fun read_digits :: "nat \<Rightarrow> string \<Rightarrow> nat option" where
  "read_digits a [] = Some a"
| "read_digits a (c # cs) = (case digit_of c of None \<Rightarrow> None | Some d \<Rightarrow> read_digits (10 * a + d) cs)"

definition decimal_value :: "string \<Rightarrow> real option" where
  "decimal_value t =
     (let neg = (t \<noteq> [] \<and> hd t = CHR ''-'');
          u = (if neg then tl t else t);
          ip = takeWhile (\<lambda>c. c \<noteq> CHR ''.'') u;
          fp = drop 1 (dropWhile (\<lambda>c. c \<noteq> CHR ''.'') u)
      in case (read_digits 0 ip, read_digits 0 fp) of
           (Some a, Some b) \<Rightarrow> Some ((if neg then -1 else 1) * (of_nat a + of_nat b / 10 ^ length fp))
         | _ \<Rightarrow> None)"

section \<open>Properties of the formatting\<close>

lemma round_half_even_bounds:
  "\<bar>of_int (round_half_even x) - x\<bar> \<le> 1/2"
proof -
  have "of_int \<lfloor>x\<rfloor> \<le> x" "x < of_int \<lfloor>x\<rfloor> + 1" by linarith+
  then show ?thesis by (auto simp: round_half_even_def Let_def)
qed

lemma round_half_even_tie:
  "x - of_int \<lfloor>x\<rfloor> = 1/2 \<Longrightarrow> even (round_half_even x)"
  by (auto simp: round_half_even_def Let_def)

lemma round_half_even_nonneg: "0 \<le> x \<Longrightarrow> 0 \<le> round_half_even x"
  by (auto simp: round_half_even_def Let_def)

text \<open>A float formatted with \<open>:.{d}f\<close> keeps its sign and rounds to the nearest
  multiple of \<open>10^-d\<close>, half to even.\<close>

lemma fmt_fixed_nearest:
  "\<exists>k. fmt_fixed d (Some x) = Fixed (x < 0) k \<and> 0 \<le> k \<and>
       \<bar>(if x < 0 then -1 else 1) * of_int k / 10 ^ d - x\<bar> \<le> 1 / (2 * 10 ^ d) \<and>
       (\<bar>x\<bar> * 10 ^ d - of_int \<lfloor>\<bar>x\<bar> * 10 ^ d\<rfloor> = 1/2 \<longrightarrow> even k)"
proof -
  let ?y = "\<bar>x\<bar> * 10 ^ d"
  let ?k = "round_half_even ?y"
  have p: "(0::real) < 10 ^ d" by simp
  have "\<bar>of_int ?k / 10 ^ d - \<bar>x\<bar>\<bar> = \<bar>of_int ?k - ?y\<bar> / 10 ^ d"
    using p by (simp add: field_simps abs_divide)
  also have "\<dots> \<le> (1/2) / 10 ^ d"
    using round_half_even_bounds [of ?y] p by (intro divide_right_mono) auto
  finally have e: "\<bar>of_int ?k / 10 ^ d - \<bar>x\<bar>\<bar> \<le> 1 / (2 * 10 ^ d)" by simp
  have "\<bar>(if x < 0 then -1 else 1) * of_int ?k / 10 ^ d - x\<bar> = \<bar>of_int ?k / 10 ^ d - \<bar>x\<bar>\<bar>"
    by (cases "x < 0") (simp_all add: abs_if algebra_simps)
  with e have "\<bar>(if x < 0 then -1 else 1) * of_int ?k / 10 ^ d - x\<bar> \<le> 1 / (2 * 10 ^ d)" by simp
  moreover have "0 \<le> ?k" by (simp add: round_half_even_nonneg)
  moreover have "?y - of_int \<lfloor>?y\<rfloor> = 1/2 \<longrightarrow> even ?k" by (simp add: round_half_even_tie)
  ultimately show ?thesis by (auto simp: fmt_fixed_def)
qed

section \<open>Reading back the printed numbers\<close>

lemma digit_char_props:
  assumes "d < 10"
  shows "digit_of (digit_char d) = Some d \<and> digit_char d \<noteq> CHR ''.'' \<and> digit_char d \<noteq> CHR ''-''"
proof -
  from assms have "d = 0 \<or> d = 1 \<or> d = 2 \<or> d = 3 \<or> d = 4 \<or> d = 5 \<or> d = 6 \<or> d = 7 \<or> d = 8 \<or> d = 9"
    by presburger
  then show ?thesis by (elim disjE) (simp_all add: digit_char_def digit_of_def)
qed

lemma read_digits_append:
  "read_digits a (xs @ ys) = (case read_digits a xs of None \<Rightarrow> None | Some b \<Rightarrow> read_digits b ys)"
  by (induction xs arbitrary: a) (auto split: option.split)

lemma read_digits_shift:
  "read_digits a s = map_option (\<lambda>b. a * 10 ^ length s + b) (read_digits 0 s)"
proof (induction s arbitrary: a)
  case (Cons c cs)
  show ?case
  proof (cases "digit_of c")
    case (Some d)
    then show ?thesis
      using Cons.IH [of "10 * a + d"] Cons.IH [of d]
      by (simp add: option.map_comp comp_def algebra_simps)
  qed simp
qed simp

lemma nat_digits_read: "read_digits 0 (nat_digits n) = Some n"
proof (induction n rule: nat_digits.induct)
  case (1 n)
  show ?case
  proof (cases "n < 10")
    case True
    then show ?thesis by (simp add: nat_digits.simps [of n] digit_char_props)
  next
    case False
    then have "read_digits 0 (nat_digits n) =
        read_digits (n div 10) [digit_char (n mod 10)]"
      using 1 by (simp add: nat_digits.simps [of n] read_digits_append)
    also have "\<dots> = Some n" by (simp add: digit_char_props)
    finally show ?thesis .
  qed
qed

lemma nat_digits_chars: "c \<in> set (nat_digits n) \<Longrightarrow> \<exists>d<10. c = digit_char d"
proof (induction n rule: nat_digits.induct)
  case (1 n)
  show ?case
  proof (cases "n < 10")
    case True
    with 1(2) show ?thesis by (auto simp: nat_digits.simps [of n])
  next
    case False
    then have "c = digit_char (n mod 10) \<or> c \<in> set (nat_digits (n div 10))"
      using 1(2) by (simp add: nat_digits.simps [of n])
    then show ?thesis
    proof
      assume "c = digit_char (n mod 10)"
      then show ?thesis by (intro exI [of _ "n mod 10"]) simp
    qed (use 1(1) False in blast)
  qed
qed

lemma nat_digits_no_sep:
  assumes "c \<in> set (nat_digits n)"
  shows "c \<noteq> CHR ''.'' \<and> c \<noteq> CHR ''-''"
proof -
  obtain d where "d < 10" "c = digit_char d" using nat_digits_chars [OF assms] by blast
  then show ?thesis using digit_char_props [of d] by simp
qed

lemma nat_digits_nonempty: "nat_digits n \<noteq> []"
  by (simp add: nat_digits.simps [of n])

lemma read_digits_zeros: "read_digits 0 (replicate m CHR ''0'' @ s) = read_digits 0 s"
  by (induction m) (simp_all add: digit_of_def)

lemma pad_zeros_props:
  "read_digits 0 (pad_zeros w (nat_digits n)) = Some n"
  "CHR ''.'' \<notin> set (pad_zeros w (nat_digits n))"
  "CHR ''-'' \<notin> set (pad_zeros w (nat_digits n))"
  "w \<le> length (pad_zeros w (nat_digits n))"
  "pad_zeros w (nat_digits n) \<noteq> []"
  using nat_digits_no_sep [of _ n] nat_digits_nonempty [of n]
  by (auto simp: pad_zeros_def read_digits_zeros nat_digits_read)

lemma read_digits_split:
  assumes "read_digits 0 (xs @ ys) = Some n"
  shows "\<exists>a b. read_digits 0 xs = Some a \<and> read_digits 0 ys = Some b \<and> a * 10 ^ length ys + b = n"
proof -
  obtain a where a: "read_digits 0 xs = Some a" and "read_digits a ys = Some n"
    using assms by (auto simp: read_digits_append split: option.splits)
  then obtain b where "read_digits 0 ys = Some b" "a * 10 ^ length ys + b = n"
    by (auto simp: read_digits_shift [of a ys])
  with a show ?thesis by blast
qed

lemma split_at_point:
  "CHR ''.'' \<notin> set xs \<Longrightarrow>
     takeWhile (\<lambda>c. c \<noteq> CHR ''.'') (xs @ CHR ''.'' # ys) = xs \<and>
     dropWhile (\<lambda>c. c \<noteq> CHR ''.'') (xs @ CHR ''.'' # ys) = CHR ''.'' # ys"
  by (induction xs) auto

lemma decimal_value_unsigned:
  assumes "u \<noteq> [] \<and> hd u \<noteq> CHR ''-''"
    and "read_digits 0 (takeWhile (\<lambda>c. c \<noteq> CHR ''.'') u) = Some a"
    and "read_digits 0 (drop 1 (dropWhile (\<lambda>c. c \<noteq> CHR ''.'') u)) = Some b"
    and "of_nat a + of_nat b / 10 ^ length (drop 1 (dropWhile (\<lambda>c. c \<noteq> CHR ''.'') u)) = (v :: real)"
  shows "decimal_value ((if neg then ''-'' else []) @ u) = Some ((if neg then -1 else 1) * v)"
  using assms by (cases neg) (simp_all add: decimal_value_def Let_def)

lemma decimal_value_fixed_text:
  assumes "0 \<le> k"
  shows "decimal_value (fixed_text d (Fixed neg k)) = Some ((if neg then -1 else 1) * of_int k / 10 ^ d)"
proof -
  define s where "s = pad_zeros (d + 1) (nat_digits (nat k))"
  have r: "read_digits 0 s = Some (nat k)" and nd: "CHR ''.'' \<notin> set s"
    and nm: "CHR ''-'' \<notin> set s" and l: "d + 1 \<le> length s" and ne: "s \<noteq> []"
    unfolding s_def by (rule pad_zeros_props)+
  define m where "m = length s - d"
  define u where "u = (if d = 0 then s else take m s @ ''.'' @ drop m s)"
  have t: "fixed_text d (Fixed neg k) = (if neg then ''-'' else []) @ u"
    by (simp add: fixed_text_def s_def u_def m_def Let_def)
  have m: "0 < m" "length (drop m s) = d" using l by (simp_all add: m_def)
  then have tk: "take m s \<noteq> []" using ne by simp
  have "hd s \<noteq> CHR ''-''" using nm ne hd_in_set by metis
  then have hu: "u \<noteq> [] \<and> hd u \<noteq> CHR ''-''"
    using ne tk by (simp add: u_def hd_append)
  have nt: "CHR ''.'' \<notin> set (take m s)" "CHR ''.'' \<notin> set (drop m s)"
    using nd set_take_subset set_drop_subset by fastforce+
  have kv: "(of_nat (nat k) :: real) = of_int k" using assms by simp
  show ?thesis
  proof (cases "d = 0")
    case True
    have all: "\<forall>c\<in>set s. c \<noteq> CHR ''.''" using nd by blast
    then have e: "dropWhile (\<lambda>c. c \<noteq> CHR ''.'') s = []" by simp
    have tw: "takeWhile (\<lambda>c. c \<noteq> CHR ''.'') u = s"
      using all True by (simp add: u_def takeWhile_eq_all_conv)
    have dw: "drop 1 (dropWhile (\<lambda>c. c \<noteq> CHR ''.'') u) = []"
      by (simp add: u_def True e del: dropWhile_eq_Nil_conv)
    have "decimal_value ((if neg then ''-'' else []) @ u) = Some ((if neg then -1 else 1) * of_int k)"
      by (rule decimal_value_unsigned [OF hu, where a = "nat k" and b = 0], unfold tw dw)
        (simp_all add: r assms)
    then show ?thesis using True t by simp
  next
    case False
    then have tw: "takeWhile (\<lambda>c. c \<noteq> CHR ''.'') u = take m s"
      and dw: "drop 1 (dropWhile (\<lambda>c. c \<noteq> CHR ''.'') u) = drop m s"
      using split_at_point [OF nt(1), of "drop m s"] False by (simp_all add: u_def)
    obtain a b where ab: "read_digits 0 (take m s) = Some a" "read_digits 0 (drop m s) = Some b"
      "a * 10 ^ d + b = nat k"
      using read_digits_split [of "take m s" "drop m s" "nat k"] r m by auto
    have "of_nat a + of_nat b / 10 ^ d = (of_nat (a * 10 ^ d + b) / 10 ^ d :: real)"
      by (simp add: field_simps)
    then have v: "of_nat a + of_nat b / 10 ^ length (drop m s) = (of_int k / 10 ^ d :: real)"
      using ab(3) kv m by simp
    have "decimal_value ((if neg then ''-'' else []) @ u) =
        Some ((if neg then -1 else 1) * (of_int k / 10 ^ d))"
      by (rule decimal_value_unsigned [OF hu, where a = a and b = b], unfold tw dw)
        (simp_all only: ab(1,2) v)
    then show ?thesis using t by simp
  qed
qed

text \<open>C35: the text a float prints as with \<open>:.{d}f\<close> (lines 59--62, 122,
  128--129) reads back as a decimal number off by at most half a unit of its last digit
  from the float, with the float's sign, and at an exact tie that last digit is even.\<close>

theorem printed_number_nearest:
  "\<exists>k. fmt_fixed d (Some x) = Fixed (x < 0) k \<and>
       decimal_value (fixed_text d (fmt_fixed d (Some x))) =
         Some ((if x < 0 then -1 else 1) * of_int k / 10 ^ d) \<and>
       \<bar>(if x < 0 then -1 else 1) * of_int k / 10 ^ d - x\<bar> \<le> 1 / (2 * 10 ^ d) \<and>
       (\<bar>x\<bar> * 10 ^ d - of_int \<lfloor>\<bar>x\<bar> * 10 ^ d\<rfloor> = 1/2 \<longrightarrow> even k)"
proof -
  obtain k where "fmt_fixed d (Some x) = Fixed (x < 0) k" "0 \<le> k"
    "\<bar>(if x < 0 then -1 else 1) * of_int k / 10 ^ d - x\<bar> \<le> 1 / (2 * 10 ^ d)"
    "\<bar>x\<bar> * 10 ^ d - of_int \<lfloor>\<bar>x\<bar> * 10 ^ d\<rfloor> = 1/2 \<longrightarrow> even k"
    using fmt_fixed_nearest [of d x] by blast
  then show ?thesis using decimal_value_fixed_text [of k d "x < 0"] by auto
qed

theorem printed_number_nearest_witness:
  "fmt_fixed 0 (Some (429 / 2)) = Fixed False 214 \<and>
   fixed_text 0 (fmt_fixed 0 (Some (429 / 2))) = ''214''"
proof -
  obtain k where k: "fmt_fixed 0 (Some (429 / 2)) = Fixed False k"
    and b: "\<bar>of_int k - 429 / 2\<bar> \<le> (1 / 2 :: real)" and t: "even k"
    using printed_number_nearest [of 0 "429 / 2"] by auto
  from b have "k = 214 \<or> k = 215" by linarith
  with t have "k = 214" by auto
  with k show ?thesis
    by (simp add: fixed_text_def pad_zeros_def nat_digits.simps digit_char_def)
qed

end
