(* ===== verification/Script.thy ===== *)
theory Script
  imports Output "HOL-Library.Monad_Syntax"
begin

text \<open>
  The script as Python executes it: a sequence of sections over global variables,
  lines 17--134 of \<open>src/bussiness_analysis.py\<close>. A configuration is the section
  about to run (or the exception that ended the run) and the globals the earlier
  sections bound; a global not yet bound is \<open>None\<close>. \<open>script_step\<close> runs one
  section, with one rule per way the section can end: it binds its variables and
  passes to the next section, or it raises. The lemmas show that the relation is
  deterministic, that every section finds the variables it reads already bound
  (no \<open>NameError\<close>: an invariant of the reachable configurations, by rule
  induction), that every run ends, and that the exception or the report a run ends
  with is the one \<open>run_analysis\<close> computes.
\<close>

section \<open>Configurations\<close>

text \<open>The sections of the script, in the order of its headings: the load and
  normalisation (lines 17--23), detection (28--45), descriptive statistics (50--62),
  distribution (67--74), correlation (79--85), the three tests (91--93, 96--102,
  105--109), the interval (114--122) and the report (127--134).\<close>

datatype pc = Sec_Load | Sec_Detect | Sec_Describe | Sec_Distribution | Sec_Correlation
  | Sec_Test1 | Sec_Test2 | Sec_Test3 | Sec_Interval | Sec_Report | Sec_End

datatype status = Running pc | Raised error

text \<open>The globals the sections bind and later sections or the report read.
  \<open>g_sales\<close> is the series \<open>df[sales_col]\<close> that lines 51--116 read;
  \<open>g_p2\<close> and \<open>g_p3\<close> stay unbound when their test is skipped. \<open>g_out\<close> is what
  the run has printed so far, in order.\<close>

record globals =
  g_df :: frame
  g_roles :: "roles option"
  g_sales :: "series option"
  g_summary :: "summary option"
  g_mean :: "real option option"
  g_median :: "real option option"
  g_mode :: "real option"
  g_std :: "real option option"
  g_shapiro :: "real option option"
  g_corr :: "((string \<times> string) \<times> real option) list option"
  g_p1 :: "real option option"
  g_p2 :: "real option option"
  g_p3 :: "real option option"
  g_margin :: "real option option"
  g_verdict :: "verdict option"
  g_out :: "out_line list"

type_synonym config = "status \<times> globals"

text \<open>The run starts at line 17 with the frame \<open>pd.read_csv\<close> returned bound to
  \<open>df\<close> and nothing else bound.\<close>

definition script_init :: "frame \<Rightarrow> config" where
  "script_init df =
     (Running Sec_Load,
      \<lparr>g_df = df, g_roles = None, g_sales = None, g_summary = None, g_mean = None,
       g_median = None, g_mode = None, g_std = None, g_shapiro = None, g_corr = None,
       g_p1 = None, g_p2 = None, g_p3 = None, g_margin = None, g_verdict = None,
       g_out = []\<rparr>)"

section \<open>One section of the script\<close>

inductive script_step :: "dists \<Rightarrow> config \<Rightarrow> config \<Rightarrow> bool" for D where
  load:
    "script_step D (Running Sec_Load, g)
       (Running Sec_Detect, g\<lparr>g_df := normalize_columns (g_df g),
          g_out := g_out g @ [Out_Columns (columns (normalize_columns (g_df g)))]\<rparr>)"
| detect:
    "detect_columns (columns (g_df g)) = Inr r \<Longrightarrow>
     script_step D (Running Sec_Detect, g)
       (Running Sec_Describe, g\<lparr>g_roles := Some r, g_out := g_out g @ [detected_line r]\<rparr>)"
| detect_raise:
    "detect_columns (columns (g_df g)) = Inl e \<Longrightarrow>
     script_step D (Running Sec_Detect, g) (Raised e, g)"
| describe:
    "g_roles g = Some r \<Longrightarrow> sales_series (g_df g) (sales_col r) = Inr s \<Longrightarrow>
     mode_first s = Inr m \<Longrightarrow>
     script_step D (Running Sec_Describe, g)
       (Running Sec_Distribution,
        g\<lparr>g_sales := Some s, g_summary := Some (describe s), g_mean := Some (series_mean s),
          g_median := Some (series_median s), g_mode := Some m, g_std := Some (series_std s),
          g_out := g_out g @ [Out_Describe (describe s),
            sales_summary_line (series_mean s) (series_median s) m (series_std s)]\<rparr>)"
| describe_raise:
    "g_roles g = Some r \<Longrightarrow> sales_series (g_df g) (sales_col r) = Inl e \<Longrightarrow>
     script_step D (Running Sec_Describe, g) (Raised e, g\<lparr>g_out := g_out g @ [Out_Describe_Other]\<rparr>)"
| mode_raise:
    "g_roles g = Some r \<Longrightarrow> sales_series (g_df g) (sales_col r) = Inr s \<Longrightarrow>
     mode_first s = Inl e \<Longrightarrow>
     script_step D (Running Sec_Describe, g)
       (Raised e, g\<lparr>g_sales := Some s, g_summary := Some (describe s),
                    g_mean := Some (series_mean s), g_median := Some (series_median s),
                    g_out := g_out g @ [Out_Describe (describe s)]\<rparr>)"
| distribution:
    "g_sales g = Some s \<Longrightarrow> shapiro_p D s = Inr w \<Longrightarrow>
     script_step D (Running Sec_Distribution, g)
       (Running Sec_Correlation, g\<lparr>g_shapiro := Some w, g_out := g_out g @ [Out_Shapiro w]\<rparr>)"
| distribution_raise:
    "g_sales g = Some s \<Longrightarrow> shapiro_p D s = Inl e \<Longrightarrow>
     script_step D (Running Sec_Distribution, g) (Raised e, g)"
| correlation:
    "script_step D (Running Sec_Correlation, g)
       (Running Sec_Test1, g\<lparr>g_corr := Some (corr_matrix (g_df g)),
          g_out := g_out g @ [Out_Corr (corr_matrix (g_df g))]\<rparr>)"
| test1:
    "g_sales g = Some s \<Longrightarrow> g_mean g = Some m \<Longrightarrow>
     script_step D (Running Sec_Test1, g)
       (Running Sec_Test2,
        g\<lparr>g_p1 := Some (case m of Some v \<Rightarrow> ttest_1samp_p D s v | None \<Rightarrow> None),
          g_out := g_out g @ [Out_Ttest1 (case m of Some v \<Rightarrow> ttest_1samp_p D s v | None \<Rightarrow> None)]\<rparr>)"
| test2:
    "g_roles g = Some r \<Longrightarrow> g_sales g = Some s \<Longrightarrow> region_step D (g_df g) r s = Inr p \<Longrightarrow>
     script_step D (Running Sec_Test2, g)
       (Running Sec_Test3, g\<lparr>g_p2 := p, g_out := g_out g @ test_lines Out_Ttest2 p\<rparr>)"
| test2_raise:
    "g_roles g = Some r \<Longrightarrow> g_sales g = Some s \<Longrightarrow> region_step D (g_df g) r s = Inl e \<Longrightarrow>
     script_step D (Running Sec_Test2, g) (Raised e, g)"
| test3:
    "g_roles g = Some r \<Longrightarrow> g_sales g = Some s \<Longrightarrow> product_step D (g_df g) r s = Inr p \<Longrightarrow>
     script_step D (Running Sec_Test3, g)
       (Running Sec_Interval, g\<lparr>g_p3 := p, g_out := g_out g @ test_lines Out_Anova p\<rparr>)"
| test3_raise:
    "g_roles g = Some r \<Longrightarrow> g_sales g = Some s \<Longrightarrow> product_step D (g_df g) r s = Inl e \<Longrightarrow>
     script_step D (Running Sec_Test3, g) (Raised e, g)"
| interval:
    "g_sales g = Some s \<Longrightarrow> g_mean g = Some m \<Longrightarrow>
     script_step D (Running Sec_Interval, g)
       (Running Sec_Report, g\<lparr>g_margin := Some (margin_of_error D s m),
          g_out := g_out g @ [interval_line m (margin_of_error D s m)]\<rparr>)"
| report:
    "g_p1 g = Some p \<Longrightarrow> g_mean g = Some m \<Longrightarrow> g_margin g = Some me \<Longrightarrow>
     script_step D (Running Sec_Report, g)
       (Running Sec_End, g\<lparr>g_verdict := Some (verdict_of p),
          g_out := g_out g @ report_lines m me (verdict_of p)\<rparr>)"

text \<open>A run ends after the report or at the first exception.\<close>

fun final_config :: "config \<Rightarrow> bool" where
  "final_config (Raised _, _) = True"
| "final_config (Running p, _) = (p = Sec_End)"

text \<open>What a finished run shows: the exception, or the values the report prints.\<close>

definition report_of :: "globals \<Rightarrow> report option" where
  "report_of g =
     do {r \<leftarrow> g_roles g; su \<leftarrow> g_summary g; m \<leftarrow> g_mean g; md \<leftarrow> g_median g; mo \<leftarrow> g_mode g;
         sd \<leftarrow> g_std g; w \<leftarrow> g_shapiro g; co \<leftarrow> g_corr g; p1 \<leftarrow> g_p1 g; me \<leftarrow> g_margin g;
         v \<leftarrow> g_verdict g;
         Some \<lparr>detected = r, summary = su, mean_sales = m, median_sales = md, mode_sales = mo,
               std_sales = sd, shapiro_pval = w, corr = co, p_val_1 = p1, p_val_2 = g_p2 g,
               p_val_3 = g_p3 g, margin_error = me, verdict = v\<rparr>}"

fun outcome :: "config \<Rightarrow> report result option" where
  "outcome (Raised e, _) = Some (Inl e)"
| "outcome (Running Sec_End, g) = map_option Inr (report_of g)"
| "outcome (Running _, _) = None"

section \<open>Which globals are bound\<close>

text \<open>The position of a section in the script.\<close>

fun pc_rank :: "pc \<Rightarrow> nat" where
  "pc_rank Sec_Load = 0" | "pc_rank Sec_Detect = 1" | "pc_rank Sec_Describe = 2"
| "pc_rank Sec_Distribution = 3" | "pc_rank Sec_Correlation = 4" | "pc_rank Sec_Test1 = 5"
| "pc_rank Sec_Test2 = 6" | "pc_rank Sec_Test3 = 7" | "pc_rank Sec_Interval = 8"
| "pc_rank Sec_Report = 9" | "pc_rank Sec_End = 10"

text \<open>Before a section runs, every variable an earlier section binds is bound.\<close>

definition bound_vars :: "pc \<Rightarrow> globals \<Rightarrow> bool" where
  "bound_vars p g \<longleftrightarrow>
     (2 \<le> pc_rank p \<longrightarrow> g_roles g \<noteq> None) \<and>
     (3 \<le> pc_rank p \<longrightarrow> g_sales g \<noteq> None \<and> g_summary g \<noteq> None \<and> g_mean g \<noteq> None \<and>
                         g_median g \<noteq> None \<and> g_mode g \<noteq> None \<and> g_std g \<noteq> None) \<and>
     (4 \<le> pc_rank p \<longrightarrow> g_shapiro g \<noteq> None) \<and>
     (5 \<le> pc_rank p \<longrightarrow> g_corr g \<noteq> None) \<and>
     (6 \<le> pc_rank p \<longrightarrow> g_p1 g \<noteq> None) \<and>
     (9 \<le> pc_rank p \<longrightarrow> g_margin g \<noteq> None) \<and>
     (10 \<le> pc_rank p \<longrightarrow> g_verdict g \<noteq> None)"

fun script_inv :: "config \<Rightarrow> bool" where
  "script_inv (Running p, g) = bound_vars p g"
| "script_inv (Raised _, _) = True"

text \<open>The sections left to run, which every step decreases.\<close>

fun steps_left :: "config \<Rightarrow> nat" where
  "steps_left (Running p, _) = 11 - pc_rank p"
| "steps_left (Raised _, _) = 0"

text \<open>No statistic of lines 50--134 is bound.\<close>

definition no_stats :: "globals \<Rightarrow> bool" where
  "no_stats g \<longleftrightarrow>
     g_sales g = None \<and> g_summary g = None \<and> g_mean g = None \<and> g_median g = None \<and>
     g_mode g = None \<and> g_std g = None \<and> g_shapiro g = None \<and> g_corr g = None \<and>
     g_p1 g = None \<and> g_p2 g = None \<and> g_p3 g = None \<and> g_margin g = None \<and> g_verdict g = None"

text \<open>Before line 50 nothing is computed, and the sales error of line 31 leaves it so.\<close>

fun nothing_computed :: "config \<Rightarrow> bool" where
  "nothing_computed (Running p, g) = (pc_rank p \<le> 2 \<longrightarrow> no_stats g)"
| "nothing_computed (Raised e, g) = (e = NoSalesColumn \<longrightarrow> no_stats g)"

text \<open>The frame a configuration holds: the loaded one before line 20, the
  normalised one after.\<close>

fun frame_fixed :: "frame \<Rightarrow> config \<Rightarrow> bool" where
  "frame_fixed df (Running Sec_Load, g) = (g_df g = df)"
| "frame_fixed df (_, g) = (g_df g = normalize_columns df)"

text \<open>What each section prints, read off the globals it binds (nothing for a
  global not bound).\<close>

fun section_lines :: "pc \<Rightarrow> globals \<Rightarrow> out_line list option" where
  "section_lines Sec_Load g = Some [Out_Columns (columns (g_df g))]"
| "section_lines Sec_Detect g = map_option (\<lambda>r. [detected_line r]) (g_roles g)"
| "section_lines Sec_Describe g =
     do {su \<leftarrow> g_summary g; m \<leftarrow> g_mean g; md \<leftarrow> g_median g; mo \<leftarrow> g_mode g; sd \<leftarrow> g_std g;
         Some [Out_Describe su, sales_summary_line m md mo sd]}"
| "section_lines Sec_Distribution g = map_option (\<lambda>w. [Out_Shapiro w]) (g_shapiro g)"
| "section_lines Sec_Correlation g = map_option (\<lambda>co. [Out_Corr co]) (g_corr g)"
| "section_lines Sec_Test1 g = map_option (\<lambda>p. [Out_Ttest1 p]) (g_p1 g)"
| "section_lines Sec_Test2 g = Some (test_lines Out_Ttest2 (g_p2 g))"
| "section_lines Sec_Test3 g = Some (test_lines Out_Anova (g_p3 g))"
| "section_lines Sec_Interval g = do {m \<leftarrow> g_mean g; me \<leftarrow> g_margin g; Some [interval_line m me]}"
| "section_lines Sec_Report g =
     do {m \<leftarrow> g_mean g; me \<leftarrow> g_margin g; v \<leftarrow> g_verdict g; Some (report_lines m me v)}"
| "section_lines Sec_End g = Some []"

definition sections :: "pc list" where
  "sections = [Sec_Load, Sec_Detect, Sec_Describe, Sec_Distribution, Sec_Correlation,
               Sec_Test1, Sec_Test2, Sec_Test3, Sec_Interval, Sec_Report]"

text \<open>The lines the sections before \<open>p\<close> print.\<close>

definition printed_before :: "pc \<Rightarrow> globals \<Rightarrow> out_line list" where
  "printed_before p g =
     concat (map (\<lambda>q. case section_lines q g of None \<Rightarrow> [] | Some l \<Rightarrow> l) (take (pc_rank p) sections))"

text \<open>The output so far is what the sections already run print; the sales error
  comes right after the column listing.\<close>

fun output_inv :: "config \<Rightarrow> bool" where
  "output_inv (Running p, g) = (g_out g = printed_before p g)"
| "output_inv (Raised e, g) = (e = NoSalesColumn \<longrightarrow> g_out g = [Out_Columns (columns (g_df g))])"

section \<open>Rule inversion\<close>

inductive_cases load_E: "script_step D (Running Sec_Load, g) c"
inductive_cases detect_E: "script_step D (Running Sec_Detect, g) c"
inductive_cases describe_E: "script_step D (Running Sec_Describe, g) c"
inductive_cases distribution_E: "script_step D (Running Sec_Distribution, g) c"
inductive_cases correlation_E: "script_step D (Running Sec_Correlation, g) c"
inductive_cases test1_E: "script_step D (Running Sec_Test1, g) c"
inductive_cases test2_E: "script_step D (Running Sec_Test2, g) c"
inductive_cases test3_E: "script_step D (Running Sec_Test3, g) c"
inductive_cases interval_E: "script_step D (Running Sec_Interval, g) c"
inductive_cases report_E: "script_step D (Running Sec_Report, g) c"
inductive_cases end_E: "script_step D (Running Sec_End, g) c"
inductive_cases raised_E: "script_step D (Raised e, g) c"

lemmas script_step_E = load_E detect_E describe_E distribution_E correlation_E test1_E test2_E
  test3_E interval_E report_E end_E raised_E

section \<open>The step relation\<close>

lemma final_no_step: "final_config c \<Longrightarrow> \<not> script_step D c c'"
  by (cases c rule: final_config.cases) (auto elim: script_step_E)

lemma script_step_deterministic:
  "script_step D c c' \<Longrightarrow> script_step D c c'' \<Longrightarrow> c'' = c'"
  by (induction rule: script_step.induct) (auto elim: script_step_E)

lemma steps_left_decreases: "script_step D c c' \<Longrightarrow> steps_left c' < steps_left c"
  by (induction rule: script_step.induct) auto

lemma script_inv_step: "script_step D c c' \<Longrightarrow> script_inv c \<Longrightarrow> script_inv c'"
  by (induction rule: script_step.induct) (auto simp: bound_vars_def)

lemma script_progress:
  assumes b: "bound_vars p g" and e: "p \<noteq> Sec_End"
  shows "\<exists>c'. script_step D (Running p, g) c'"
proof (cases p)
  case Sec_Detect
  then show ?thesis
    by (cases "detect_columns (columns (g_df g))") (blast intro: script_step.detect script_step.detect_raise)+
next
  case Sec_Describe
  with b obtain r where r: "g_roles g = Some r" by (auto simp: bound_vars_def)
  show ?thesis
  proof (cases "sales_series (g_df g) (sales_col r)")
    case (Inr s)
    with r Sec_Describe show ?thesis
      by (cases "mode_first s") (auto intro: script_step.describe script_step.mode_raise)
  qed (insert r Sec_Describe, auto intro: script_step.describe_raise)
next
  case Sec_Distribution
  with b obtain s where s: "g_sales g = Some s" by (auto simp: bound_vars_def)
  with Sec_Distribution show ?thesis
    by (cases "shapiro_p D s") (auto intro: script_step.distribution script_step.distribution_raise)
next
  case Sec_Test2
  with b obtain r s where "g_roles g = Some r" "g_sales g = Some s" by (auto simp: bound_vars_def)
  with Sec_Test2 show ?thesis
    by (cases "region_step D (g_df g) r s") (auto intro: script_step.test2 script_step.test2_raise)
next
  case Sec_Test3
  with b obtain r s where "g_roles g = Some r" "g_sales g = Some s" by (auto simp: bound_vars_def)
  with Sec_Test3 show ?thesis
    by (cases "product_step D (g_df g) r s") (auto intro: script_step.test3 script_step.test3_raise)
next
  case Sec_Test1
  with b obtain s m where "g_sales g = Some s" "g_mean g = Some m" by (auto simp: bound_vars_def)
  with Sec_Test1 show ?thesis by (blast intro: script_step.test1)
next
  case Sec_Interval
  with b obtain s m where "g_sales g = Some s" "g_mean g = Some m" by (auto simp: bound_vars_def)
  with Sec_Interval show ?thesis by (blast intro: script_step.interval)
next
  case Sec_Report
  with b obtain p1 m me where "g_p1 g = Some p1" "g_mean g = Some m" "g_margin g = Some me"
    by (auto simp: bound_vars_def)
  with Sec_Report show ?thesis by (blast intro: script_step.report)
qed (insert e, blast intro: script_step.load script_step.correlation)+

lemma script_inv_steps:
  "(script_step D)\<^sup>*\<^sup>* c c' \<Longrightarrow> script_inv c \<Longrightarrow> script_inv c'"
  by (induction rule: rtranclp_induct) (auto intro: script_inv_step)

lemma script_inv_init: "script_inv (script_init df)"
  by (simp add: script_init_def bound_vars_def)

lemma script_runs_to_final:
  "script_inv c \<Longrightarrow> \<exists>c'. (script_step D)\<^sup>*\<^sup>* c c' \<and> final_config c'"
proof (induction "steps_left c" arbitrary: c rule: less_induct)
  case less
  show ?case
  proof (cases "final_config c")
    case False
    then obtain p g where c: "c = (Running p, g)" and p: "p \<noteq> Sec_End"
      by (cases c rule: final_config.cases) auto
    have "\<exists>c1. script_step D c c1" using script_progress [of p g D] p less.prems c by simp
    then obtain c1 where s: "script_step D c c1" ..
    have "script_inv c1" using script_inv_step [OF s less.prems] .
    then obtain c' where "(script_step D)\<^sup>*\<^sup>* c1 c'" "final_config c'"
      using less.hyps [OF steps_left_decreases [OF s]] by blast
    with s show ?thesis by (meson converse_rtranclp_into_rtranclp)
  qed blast
qed

lemma final_unique:
  assumes "(script_step D)\<^sup>*\<^sup>* c c1" "final_config c1"
    and "(script_step D)\<^sup>*\<^sup>* c c2" "final_config c2"
  shows "c1 = c2"
  using assms
proof (induction rule: converse_rtranclp_induct)
  case base
  then show ?case by (auto elim: converse_rtranclpE dest: final_no_step)
next
  case (step c c')
  from \<open>(script_step D)\<^sup>*\<^sup>* c c2\<close> show ?case
  proof (cases rule: converse_rtranclpE)
    case base
    with step.hyps(1) step.prems show ?thesis by (blast dest: final_no_step)
  next
    case (step c'')
    then have "c'' = c'" using step.hyps(1) by (blast intro: script_step_deterministic)
    with step.IH step.prems(1,3) \<open>(script_step D)\<^sup>*\<^sup>* c'' c2\<close> show ?thesis by blast
  qed
qed

section \<open>Runs compute \<open>run_analysis\<close>\<close>

lemma star_step2:
  "script_step D a b \<Longrightarrow> script_step D b c \<Longrightarrow> (script_step D)\<^sup>*\<^sup>* a c"
  by (meson r_into_rtranclp rtranclp.rtrancl_into_rtrancl)

text \<open>Lines 17--45: a frame with a sales column reaches the descriptive statistics
  having printed the column names and the detected columns.\<close>

lemma reach_describe:
  assumes det: "detect_columns (columns (normalize_columns df)) = Inr r"
  shows "\<exists>g. (script_step D)\<^sup>*\<^sup>* (script_init df) (Running Sec_Describe, g) \<and>
             g_df g = normalize_columns df \<and> g_roles g = Some r \<and>
             g_out g = [Out_Columns (columns (normalize_columns df)), detected_line r]"
proof -
  obtain g0 where init: "script_init df = (Running Sec_Load, g0)" and g0: "g_df g0 = df" "g_out g0 = []"
    by (simp add: script_init_def)
  let ?g1 = "g0\<lparr>g_df := normalize_columns (g_df g0),
                  g_out := g_out g0 @ [Out_Columns (columns (normalize_columns (g_df g0)))]\<rparr>"
  let ?g2 = "?g1\<lparr>g_roles := Some r, g_out := g_out ?g1 @ [detected_line r]\<rparr>"
  have s1: "script_step D (script_init df) (Running Sec_Detect, ?g1)"
    unfolding init by (rule script_step.load)
  have s2: "script_step D (Running Sec_Detect, ?g1) (Running Sec_Describe, ?g2)"
    by (rule script_step.detect) (insert det g0, simp_all)
  show ?thesis using star_step2 [OF s1 s2] g0 by (intro exI [of _ ?g2]) simp
qed

text \<open>The tests, the interval and the report, from line 96 on.\<close>

lemma run_from_test2:
  assumes g: "g_roles g = Some r" "g_sales g = Some s" "g_mean g = Some m" "g_p1 g = Some p1"
  shows "\<exists>c. (script_step D)\<^sup>*\<^sup>* (Running Sec_Test2, g) c \<and> final_config c \<and>
     outcome c =
       (case region_step D (g_df g) r s of
          Inl e \<Rightarrow> Some (Inl e)
        | Inr p2 \<Rightarrow>
            (case product_step D (g_df g) r s of
               Inl e \<Rightarrow> Some (Inl e)
             | Inr p3 \<Rightarrow>
                 map_option Inr (report_of (g\<lparr>g_p2 := p2, g_p3 := p3,
                   g_margin := Some (margin_of_error D s m), g_verdict := Some (verdict_of p1)\<rparr>))))"
proof (cases "region_step D (g_df g) r s")
  case (Inl e)
  then have "script_step D (Running Sec_Test2, g) (Raised e, g)"
    using g by (blast intro: script_step.test2_raise)
  with Inl show ?thesis by (intro exI [of _ "(Raised e, g)"]) auto
next
  case (Inr p2)
  note reg = this
  let ?g3 = "g\<lparr>g_p2 := p2, g_out := g_out g @ test_lines Out_Ttest2 p2\<rparr>"
  have s2: "script_step D (Running Sec_Test2, g) (Running Sec_Test3, ?g3)"
    by (rule script_step.test2) (insert g reg, simp_all)
  show ?thesis
  proof (cases "product_step D (g_df g) r s")
    case (Inl e)
    have "script_step D (Running Sec_Test3, ?g3) (Raised e, ?g3)"
      using g Inl by (auto intro: script_step.test3_raise)
    with s2 Inl reg show ?thesis by (intro exI [of _ "(Raised e, ?g3)"]) (auto intro: star_step2)
  next
    case (Inr p3)
    let ?g4 = "?g3\<lparr>g_p3 := p3, g_out := g_out ?g3 @ test_lines Out_Anova p3\<rparr>"
    let ?g5 = "?g4\<lparr>g_margin := Some (margin_of_error D s m),
                     g_out := g_out ?g4 @ [interval_line m (margin_of_error D s m)]\<rparr>"
    let ?g6 = "?g5\<lparr>g_verdict := Some (verdict_of p1),
                     g_out := g_out ?g5 @ report_lines m (margin_of_error D s m) (verdict_of p1)\<rparr>"
    have s3: "script_step D (Running Sec_Test3, ?g3) (Running Sec_Interval, ?g4)"
      by (rule script_step.test3) (insert g Inr, simp_all)
    have s4: "script_step D (Running Sec_Interval, ?g4) (Running Sec_Report, ?g5)"
      by (rule script_step.interval) (insert g, simp_all)
    have s5: "script_step D (Running Sec_Report, ?g5) (Running Sec_End, ?g6)"
      by (rule script_step.report) (insert g, simp_all)
    have "(script_step D)\<^sup>*\<^sup>* (Running Sec_Test2, g) (Running Sec_End, ?g6)"
      using star_step2 [OF s2 s3] star_step2 [OF s4 s5] by (rule rtranclp_trans)
    with reg Inr show ?thesis by (intro exI [of _ "(Running Sec_End, ?g6)"]) (simp add: report_of_def)
  qed
qed

text \<open>From line 67 on, once lines 17--62 have bound what \<open>run_analysis\<close> computes.\<close>

lemma run_from_distribution:
  assumes df: "g_df g = normalize_columns df"
    and det: "detect_columns (columns (normalize_columns df)) = Inr r" and r: "g_roles g = Some r"
    and ss: "sales_series (normalize_columns df) (sales_col r) = Inr s" and s: "g_sales g = Some s"
    and mo: "mode_first s = Inr md"
    and g: "g_summary g = Some (describe s)" "g_mean g = Some (series_mean s)"
      "g_median g = Some (series_median s)" "g_mode g = Some md" "g_std g = Some (series_std s)"
  shows "\<exists>c. (script_step D)\<^sup>*\<^sup>* (Running Sec_Distribution, g) c \<and> final_config c \<and>
           outcome c = Some (run_analysis D df)"
proof (cases "shapiro_p D s")
  case (Inl e)
  have "script_step D (Running Sec_Distribution, g) (Raised e, g)"
    using s Inl by (rule script_step.distribution_raise)
  with Inl det ss mo show ?thesis
    by (intro exI [of _ "(Raised e, g)"]) (auto simp: run_analysis_def)
next
  case (Inr w)
  let ?m = "series_mean s"
  let ?p1 = "case ?m of Some v \<Rightarrow> ttest_1samp_p D s v | None \<Rightarrow> None"
  let ?g4 = "g\<lparr>g_shapiro := Some w, g_out := g_out g @ [Out_Shapiro w]\<rparr>"
  let ?g5 = "?g4\<lparr>g_corr := Some (corr_matrix (g_df ?g4)),
                  g_out := g_out ?g4 @ [Out_Corr (corr_matrix (g_df ?g4))]\<rparr>"
  let ?g6 = "?g5\<lparr>g_p1 := Some ?p1, g_out := g_out ?g5 @ [Out_Ttest1 ?p1]\<rparr>"
  have s4: "script_step D (Running Sec_Distribution, g) (Running Sec_Correlation, ?g4)"
    using s Inr by (rule script_step.distribution)
  have s5: "script_step D (Running Sec_Correlation, ?g4) (Running Sec_Test1, ?g5)"
    by (rule script_step.correlation)
  have s6: "script_step D (Running Sec_Test1, ?g5) (Running Sec_Test2, ?g6)"
    by (rule script_step.test1) (insert s g, simp_all)
  obtain c where c: "(script_step D)\<^sup>*\<^sup>* (Running Sec_Test2, ?g6) c" "final_config c"
    and o: "outcome c =
       (case region_step D (g_df ?g6) r s of
          Inl e \<Rightarrow> Some (Inl e)
        | Inr p2 \<Rightarrow>
            (case product_step D (g_df ?g6) r s of
               Inl e \<Rightarrow> Some (Inl e)
             | Inr p3 \<Rightarrow>
                 map_option Inr (report_of (?g6\<lparr>g_p2 := p2, g_p3 := p3,
                   g_margin := Some (margin_of_error D s ?m), g_verdict := Some (verdict_of ?p1)\<rparr>))))"
    using run_from_test2 [of ?g6 r s ?m ?p1 D] r s g by auto
  have "(script_step D)\<^sup>*\<^sup>* (Running Sec_Distribution, g) c"
    using star_step2 [OF s4 s5] s6 c(1)
    by (meson converse_rtranclp_into_rtranclp rtranclp_trans)
  moreover have "outcome c = Some (run_analysis D df)"
    unfolding o using df det ss mo Inr g r
    by (simp add: run_analysis_def report_of_def Let_def split: sum.splits)
  ultimately show ?thesis using c(2) by blast
qed

text \<open>Every run from line 17 ends in the exception or with the report that
  \<open>run_analysis\<close> gives.\<close>

lemma run_outcome:
  "\<exists>c. (script_step D)\<^sup>*\<^sup>* (script_init df) c \<and> final_config c \<and>
       outcome c = Some (run_analysis D df)"
proof -
  let ?df = "normalize_columns df"
  obtain g0 where init: "script_init df = (Running Sec_Load, g0)" and g0: "g_df g0 = df"
    "g_roles g0 = None" by (simp add: script_init_def)
  let ?g1 = "g0\<lparr>g_df := normalize_columns (g_df g0),
                  g_out := g_out g0 @ [Out_Columns (columns (normalize_columns (g_df g0)))]\<rparr>"
  have s1: "script_step D (script_init df) (Running Sec_Detect, ?g1)"
    unfolding init by (rule script_step.load)
  show ?thesis
  proof (cases "detect_columns (columns ?df)")
    case (Inl e)
    have "script_step D (Running Sec_Detect, ?g1) (Raised e, ?g1)"
      using Inl g0 by (auto intro: script_step.detect_raise)
    with s1 Inl show ?thesis
      by (intro exI [of _ "(Raised e, ?g1)"]) (auto simp: run_analysis_def intro: star_step2)
  next
    case (Inr r)
    note det = this
    let ?g2 = "?g1\<lparr>g_roles := Some r, g_out := g_out ?g1 @ [detected_line r]\<rparr>"
    have s2: "script_step D (Running Sec_Detect, ?g1) (Running Sec_Describe, ?g2)"
      by (rule script_step.detect) (insert det g0, simp_all)
    have s12: "(script_step D)\<^sup>*\<^sup>* (script_init df) (Running Sec_Describe, ?g2)"
      using s1 s2 by (rule star_step2)
    show ?thesis
    proof (cases "sales_series ?df (sales_col r)")
      case (Inl e)
      let ?g2e = "?g2\<lparr>g_out := g_out ?g2 @ [Out_Describe_Other]\<rparr>"
      have "script_step D (Running Sec_Describe, ?g2) (Raised e, ?g2e)"
        by (rule script_step.describe_raise) (insert Inl g0, simp_all)
      with s12 Inl det show ?thesis
        by (intro exI [of _ "(Raised e, ?g2e)"]) (auto simp: run_analysis_def)
    next
      case (Inr s)
      note ss = this
      let ?g3a = "?g2\<lparr>g_sales := Some s, g_summary := Some (describe s),
                    g_mean := Some (series_mean s), g_median := Some (series_median s),
                    g_out := g_out ?g2 @ [Out_Describe (describe s)]\<rparr>"
      show ?thesis
      proof (cases "mode_first s")
        case (Inl e)
        have "script_step D (Running Sec_Describe, ?g2) (Raised e, ?g3a)"
          by (rule script_step.mode_raise) (insert Inl ss g0, simp_all)
        with s12 Inl det ss show ?thesis
          by (intro exI [of _ "(Raised e, ?g3a)"]) (auto simp: run_analysis_def)
      next
        case (Inr md)
        let ?g3 = "?g2\<lparr>g_sales := Some s, g_summary := Some (describe s),
                    g_mean := Some (series_mean s), g_median := Some (series_median s),
                    g_mode := Some md, g_std := Some (series_std s),
                    g_out := g_out ?g2 @ [Out_Describe (describe s),
                      sales_summary_line (series_mean s) (series_median s) md (series_std s)]\<rparr>"
        have "script_step D (Running Sec_Describe, ?g2) (Running Sec_Distribution, ?g3)"
          by (rule script_step.describe) (insert Inr ss g0, simp_all)
        with s12 have s13: "(script_step D)\<^sup>*\<^sup>* (script_init df) (Running Sec_Distribution, ?g3)"
          by (rule rtranclp.rtrancl_into_rtrancl)
        obtain c where "(script_step D)\<^sup>*\<^sup>* (Running Sec_Distribution, ?g3) c" "final_config c"
          "outcome c = Some (run_analysis D df)"
          using run_from_distribution [of ?g3 df r s md D] g0 det ss Inr by auto
        with s13 show ?thesis by (meson rtranclp_trans)
      qed
    qed
  qed
qed

lemma final_outcome:
  "(script_step D)\<^sup>*\<^sup>* (script_init df) c \<Longrightarrow> final_config c \<Longrightarrow>
   outcome c = Some (run_analysis D df)"
  using run_outcome [of D df] final_unique by blast

lemma outcome_Inr: "final_config c \<Longrightarrow> outcome c = Some (Inr rep) \<longleftrightarrow>
   (\<exists>g. c = (Running Sec_End, g) \<and> report_of g = Some rep)"
  by (cases c rule: outcome.cases) auto

lemma outcome_Inl: "final_config c \<Longrightarrow> outcome c = Some (Inl e) \<longleftrightarrow> (\<exists>g. c = (Raised e, g))"
  by (cases c rule: outcome.cases) auto

section \<open>Properties of the runs\<close>

text \<open>C27: the script run section by section ends with a report exactly when
  \<open>run_analysis\<close> returns one, and the report's values are the ones it returns: the
  function is a faithful summary of the script's execution.\<close>

theorem script_refines_run:
  "run_analysis D df = Inr rep \<longleftrightarrow>
   (\<exists>g. (script_step D)\<^sup>*\<^sup>* (script_init df) (Running Sec_End, g) \<and> report_of g = Some rep)"
proof
  assume "run_analysis D df = Inr rep"
  then show "\<exists>g. (script_step D)\<^sup>*\<^sup>* (script_init df) (Running Sec_End, g) \<and> report_of g = Some rep"
    using run_outcome [of D df] outcome_Inr by metis
next
  assume "\<exists>g. (script_step D)\<^sup>*\<^sup>* (script_init df) (Running Sec_End, g) \<and> report_of g = Some rep"
  then obtain g where "(script_step D)\<^sup>*\<^sup>* (script_init df) (Running Sec_End, g)"
    "report_of g = Some rep" by blast
  with final_outcome [of D df "(Running Sec_End, g)"] show "run_analysis D df = Inr rep" by simp
qed

theorem script_refines_run_witness:
  "\<exists>g rep. (script_step cauchy_dists)\<^sup>*\<^sup>* (script_init [(''sales'', [Num 10, Num 20, Num 40])])
      (Running Sec_End, g) \<and> report_of g = Some rep"
proof -
  obtain rep where "run_analysis cauchy_dists [(''sales'', [Num 10, Num 20, Num 40])] = Inr rep"
    by (atomize_elim, simp add: run_eval)
  then show ?thesis using script_refines_run by blast
qed

text \<open>C28: the script run section by section stops with an exception exactly when
  \<open>run_analysis\<close> returns that exception.\<close>

theorem script_raises_iff:
  "run_analysis D df = Inl e \<longleftrightarrow> (\<exists>g. (script_step D)\<^sup>*\<^sup>* (script_init df) (Raised e, g))"
proof
  assume "run_analysis D df = Inl e"
  then show "\<exists>g. (script_step D)\<^sup>*\<^sup>* (script_init df) (Raised e, g)"
    using run_outcome [of D df] outcome_Inl by metis
next
  assume "\<exists>g. (script_step D)\<^sup>*\<^sup>* (script_init df) (Raised e, g)"
  then obtain g where "(script_step D)\<^sup>*\<^sup>* (script_init df) (Raised e, g)" by blast
  with final_outcome [of D df "(Raised e, g)"] show "run_analysis D df = Inl e" by simp
qed

theorem script_raises_iff_witness:
  "\<exists>g. (script_step cauchy_dists)\<^sup>*\<^sup>* (script_init [(''order id'', [Num 1])]) (Raised NoSalesColumn, g)"
proof -
  have "run_analysis cauchy_dists [(''order id'', [Num 1])] = Inl NoSalesColumn"
    by (simp add: run_eval)
  then show ?thesis using script_raises_iff by blast
qed

text \<open>Every run of the script ends, after the report or at an exception.\<close>

lemma script_terminates:
  "\<exists>c. (script_step D)\<^sup>*\<^sup>* (script_init df) c \<and> final_config c"
  using script_runs_to_final [OF script_inv_init] .

text \<open>C29: no section of the script reads a variable that no earlier section bound
  (Python would raise \<open>NameError\<close>): every configuration a run reaches has ended
  or can run its next section.\<close>

theorem script_no_name_error:
  assumes "(script_step D)\<^sup>*\<^sup>* (script_init df) c"
  shows "final_config c \<or> (\<exists>c'. script_step D c c')"
proof (cases c rule: final_config.cases)
  case (2 p g)
  have "bound_vars p g" using script_inv_steps [OF assms script_inv_init] 2 by simp
  then show ?thesis using script_progress [of p g D] 2 by auto
qed simp

theorem script_no_name_error_witness:
  "\<exists>c'. script_step cauchy_dists (script_init [(''sales'', [Num 1])]) c'"
  using script_no_name_error [where D = cauchy_dists and df = "[(''sales'', [Num 1])]",
      OF rtranclp.rtrancl_refl]
  by (simp add: script_init_def)

lemma nothing_computed_step:
  "script_step D c c' \<Longrightarrow> nothing_computed c \<Longrightarrow> nothing_computed c'"
  by (induction rule: script_step.induct) (auto simp: no_stats_def dest: step_errors)

lemma nothing_computed_steps:
  "(script_step D)\<^sup>*\<^sup>* c c' \<Longrightarrow> nothing_computed c \<Longrightarrow> nothing_computed c'"
  by (induction rule: rtranclp_induct) (auto intro: nothing_computed_step)

text \<open>C30: when the run stops with the sales error of line 31 it has computed
  nothing: no statistic, test, interval or verdict of lines 50--134 is bound.\<close>

theorem script_no_sales_no_computation:
  assumes "(script_step D)\<^sup>*\<^sup>* (script_init df) (Raised NoSalesColumn, g)"
  shows "no_stats g"
proof -
  have "nothing_computed (script_init df)" by (simp add: script_init_def no_stats_def)
  with assms have "nothing_computed (Raised NoSalesColumn, g)" by (rule nothing_computed_steps)
  then show ?thesis by simp
qed

theorem script_no_sales_no_computation_witness:
  "\<exists>g. (script_step cauchy_dists)\<^sup>*\<^sup>* (script_init [(''order id'', [Num 1])]) (Raised NoSalesColumn, g) \<and>
       no_stats g"
proof -
  have "run_analysis cauchy_dists [(''order id'', [Num 1])] = Inl NoSalesColumn"
    by (simp add: run_eval)
  then obtain g where "(script_step cauchy_dists)\<^sup>*\<^sup>* (script_init [(''order id'', [Num 1])])
      (Raised NoSalesColumn, g)"
    using run_outcome [of cauchy_dists "[(''order id'', [Num 1])]"] outcome_Inl by metis
  then show ?thesis using script_no_sales_no_computation by blast
qed

lemma frame_fixed_step: "script_step D c c' \<Longrightarrow> frame_fixed df c \<Longrightarrow> frame_fixed df c'"
  by (induction rule: script_step.induct) auto

lemma frame_fixed_steps:
  "(script_step D)\<^sup>*\<^sup>* c c' \<Longrightarrow> frame_fixed df c \<Longrightarrow> frame_fixed df c'"
  by (induction rule: rtranclp_induct) (auto intro: frame_fixed_step)

lemma frame_after_load:
  "(script_step D)\<^sup>*\<^sup>* (script_init df) (st, g) \<Longrightarrow> st \<noteq> Running Sec_Load \<Longrightarrow>
   g_df g = normalize_columns df"
  using frame_fixed_steps [of D "script_init df" "(st, g)" df]
  by (cases "(df, (st, g))" rule: frame_fixed.cases) (auto simp: script_init_def)

text \<open>C32: the table is not changed after it is loaded except by the header
  normalisation of line 20: every section after the load reads the same normalised
  frame.\<close>

theorem script_frame_immutable:
  assumes "(script_step D)\<^sup>*\<^sup>* (script_init df) (st, g)" and "st \<noteq> Running Sec_Load"
  shows "g_df g = normalize_columns df"
  using assms by (rule frame_after_load)

theorem script_frame_immutable_witness:
  "\<exists>g. (script_step cauchy_dists)\<^sup>*\<^sup>* (script_init [(''Sales'', [Num 1])]) (Running Sec_Detect, g) \<and>
       g_df g = normalize_columns [(''Sales'', [Num 1])]"
proof -
  obtain g0 where init: "script_init [(''Sales'', [Num 1])] = (Running Sec_Load, g0)"
    by (simp add: script_init_def)
  let ?g = "g0\<lparr>g_df := normalize_columns (g_df g0),
              g_out := g_out g0 @ [Out_Columns (columns (normalize_columns (g_df g0)))]\<rparr>"
  have "script_step cauchy_dists (script_init [(''Sales'', [Num 1])]) (Running Sec_Detect, ?g)"
    unfolding init by (rule script_step.load)
  then have "(script_step cauchy_dists)\<^sup>*\<^sup>* (script_init [(''Sales'', [Num 1])]) (Running Sec_Detect, ?g)"
    by (rule r_into_rtranclp)
  with script_frame_immutable show ?thesis by blast
qed

section \<open>What the script prints\<close>

lemma output_inv_step: "script_step D c c' \<Longrightarrow> output_inv c \<Longrightarrow> output_inv c'"
  by (induction rule: script_step.induct)
     (auto simp: printed_before_def sections_def dest: step_errors)

lemma output_inv_steps:
  "(script_step D)\<^sup>*\<^sup>* c c' \<Longrightarrow> output_inv c \<Longrightarrow> output_inv c'"
  by (induction rule: rtranclp_induct) (auto intro: output_inv_step)

lemma output_inv_init: "output_inv (script_init df)"
  by (simp add: script_init_def printed_before_def)

lemma printed_before_end:
  "report_of g = Some rep \<Longrightarrow> printed_before Sec_End g = printed_run (columns (g_df g)) rep"
  by (auto simp: report_of_def printed_before_def sections_def printed_run_def bind_eq_Some_conv)

text \<open>C33: a run stopped by the sales error of line 31 has printed only the
  normalised column names (lines 22--23): no detected column, statistic or verdict.\<close>

theorem script_no_sales_output:
  assumes "(script_step D)\<^sup>*\<^sup>* (script_init df) (Raised NoSalesColumn, g)"
  shows "g_out g = [Out_Columns (columns (normalize_columns df))]"
proof -
  have "output_inv (Raised NoSalesColumn, g)"
    using output_inv_steps [OF assms output_inv_init] .
  with frame_after_load [OF assms] show ?thesis by simp
qed

theorem script_no_sales_output_witness:
  "\<exists>g. (script_step cauchy_dists)\<^sup>*\<^sup>* (script_init [(''order id'', [Num 1])]) (Raised NoSalesColumn, g) \<and>
       g_out g = [Out_Columns [''order_id'']]"
proof -
  have "run_analysis cauchy_dists [(''order id'', [Num 1])] = Inl NoSalesColumn"
    by (simp add: run_eval)
  then obtain g where r: "(script_step cauchy_dists)\<^sup>*\<^sup>* (script_init [(''order id'', [Num 1])])
      (Raised NoSalesColumn, g)"
    using run_outcome [of cauchy_dists "[(''order id'', [Num 1])]"] outcome_Inl by metis
  have "columns (normalize_columns [(''order id'', [Num 1])]) = [''order_id'']"
    by (simp add: header_eval)
  with script_no_sales_output [OF r] r show ?thesis by auto
qed

text \<open>C34: a run that reaches the end has printed, in the order of the script, the
  column names, the detected columns, the description, the sales summary, the
  Shapiro--Wilk p-value, the correlation matrix, the one-sample p-value, the region
  and ANOVA p-values when those tests ran, the interval and the report with its
  verdict: each once, with the values of the final report.\<close>

theorem script_output_complete:
  assumes "(script_step D)\<^sup>*\<^sup>* (script_init df) (Running Sec_End, g)" and "report_of g = Some rep"
  shows "g_out g = printed_run (columns (normalize_columns df)) rep"
proof -
  have "output_inv (Running Sec_End, g)"
    using output_inv_steps [OF assms(1) output_inv_init] .
  then have "g_out g = printed_before Sec_End g" by simp
  with printed_before_end [OF assms(2)] frame_after_load [OF assms(1)] show ?thesis by simp
qed

theorem script_output_complete_witness:
  "\<exists>g rep. (script_step cauchy_dists)\<^sup>*\<^sup>* (script_init [(''sales'', [Num 10, Num 20, Num 40])])
      (Running Sec_End, g) \<and> report_of g = Some rep \<and>
      g_out g = printed_run [''sales''] rep"
proof -
  obtain rep where "run_analysis cauchy_dists [(''sales'', [Num 10, Num 20, Num 40])] = Inr rep"
    by (atomize_elim, simp add: run_eval)
  then obtain g where r: "(script_step cauchy_dists)\<^sup>*\<^sup>* (script_init [(''sales'', [Num 10, Num 20, Num 40])])
      (Running Sec_End, g)" and rep: "report_of g = Some rep"
    using run_outcome [of cauchy_dists "[(''sales'', [Num 10, Num 20, Num 40])]"] outcome_Inr by metis
  have "columns (normalize_columns [(''sales'', [Num 10, Num 20, Num 40])]) = [''sales'']"
    by (simp add: header_eval)
  with script_output_complete [OF r rep] r rep show ?thesis by auto
qed


lemma end_report:
  assumes "(script_step D)\<^sup>*\<^sup>* (script_init df) (Running Sec_End, g)"
  shows "\<exists>rep. report_of g = Some rep \<and> run_analysis D df = Inr rep"
  using final_outcome [OF assms] by auto

text \<open>C24: a run that reaches the end has printed, as its last line,
  "Sales are not statistically significant." (lines 131--134): the verdict of the one-sample
  test of line 92 on the sales against their own mean, carried through every section.\<close>

theorem script_prints_not_significant:
  assumes c: "t_centered D" and r: "(script_step D)\<^sup>*\<^sup>* (script_init df) (Running Sec_End, g)"
  shows "last (g_out g) = Out_Verdict NotSignificant \<and>
         render_line (last (g_out g)) = Some [''Sales are not statistically significant.'']"
proof -
  obtain rep where rep: "report_of g = Some rep" and run: "run_analysis D df = Inr rep"
    using end_report [OF r] by blast
  have "output_inv (Running Sec_End, g)"
    using output_inv_steps [OF r output_inv_init] .
  then have "g_out g = printed_run (columns (g_df g)) rep"
    using printed_before_end [OF rep] by simp
  moreover have "verdict rep = NotSignificant" using run_analysis_verdict [OF c run] .
  ultimately show ?thesis by (simp add: printed_run_def report_lines_def)
qed

theorem script_prints_not_significant_witness:
  "\<exists>g. (script_step cauchy_dists)\<^sup>*\<^sup>* (script_init [(''sales'', [Num 10, Num 20, Num 40])])
      (Running Sec_End, g) \<and> last (g_out g) = Out_Verdict NotSignificant \<and>
      render_line (last (g_out g)) = Some [''Sales are not statistically significant.'']"
proof -
  obtain rep where "run_analysis cauchy_dists [(''sales'', [Num 10, Num 20, Num 40])] = Inr rep"
    by (atomize_elim, simp add: run_eval)
  then obtain g where r: "(script_step cauchy_dists)\<^sup>*\<^sup>* (script_init [(''sales'', [Num 10, Num 20, Num 40])])
      (Running Sec_End, g)"
    using run_outcome [of cauchy_dists "[(''sales'', [Num 10, Num 20, Num 40])]"] outcome_Inr by metis
  with script_prints_not_significant [OF cauchy_centered r] show ?thesis by blast
qed


text \<open>C36: a sales column with no value (every entry missing) is described by
  line 51 and then makes \<open>mode()[0]\<close> raise \<open>KeyError\<close> at line 55: the run ends
  with that exception, having printed exactly the column names, the detected columns
  and the description, and no summary line.\<close>

theorem script_empty_sales_raises:
  assumes det: "detect_columns (columns (normalize_columns df)) = Inr r"
    and ss: "sales_series (normalize_columns df) (sales_col r) = Inr s" and e: "dropna s = []"
    and reach: "(script_step D)\<^sup>*\<^sup>* (script_init df) (st, g)" and fin: "final_config (st, g)"
  shows "st = Raised KeyError \<and>
         g_out g = [Out_Columns (columns (normalize_columns df)), detected_line r, Out_Describe (describe s)]"
proof -
  obtain g2 where r2: "(script_step D)\<^sup>*\<^sup>* (script_init df) (Running Sec_Describe, g2)"
    and g2: "g_df g2 = normalize_columns df" "g_roles g2 = Some r"
      "g_out g2 = [Out_Columns (columns (normalize_columns df)), detected_line r]"
    using reach_describe [OF det] by blast
  have m: "mode_first s = Inl KeyError"
    using e mode_vals_Nil_iff [of "[]"] by (simp add: mode_first_def series_mode_def)
  let ?g3 = "g2\<lparr>g_sales := Some s, g_summary := Some (describe s),
                g_mean := Some (series_mean s), g_median := Some (series_median s),
                g_out := g_out g2 @ [Out_Describe (describe s)]\<rparr>"
  have "script_step D (Running Sec_Describe, g2) (Raised KeyError, ?g3)"
    by (rule script_step.mode_raise) (insert g2 ss m, simp_all)
  with r2 have r3: "(script_step D)\<^sup>*\<^sup>* (script_init df) (Raised KeyError, ?g3)"
    by (rule rtranclp.rtrancl_into_rtrancl)
  have "(st, g) = (Raised KeyError, ?g3)" using final_unique [OF reach fin r3] by simp
  then show ?thesis using g2 by simp
qed

theorem script_empty_sales_raises_witness:
  "\<exists>g. (script_step cauchy_dists)\<^sup>*\<^sup>* (script_init [(''sales'', [NA, NA])]) (Raised KeyError, g) \<and>
       g_out g = [Out_Columns [''sales''],
                  detected_line \<lparr>sales_col = ''sales'', region_col = None, product_col = None\<rparr>,
                  Out_Describe (describe [None, None])]"
proof -
  let ?df = "[(''sales'', [NA, NA])]"
  let ?r = "\<lparr>sales_col = ''sales'', region_col = None, product_col = None\<rparr>"
  have cols: "columns (normalize_columns ?df) = [''sales'']" by (simp add: header_eval)
  have det: "detect_columns (columns (normalize_columns ?df)) = Inr ?r"
    unfolding cols by (simp add: detect_eval)
  have ss: "sales_series (normalize_columns ?df) (sales_col ?r) = Inr [None, None]"
    by (simp add: run_eval)
  have e: "dropna [None, None] = []" by (simp add: dropna_def map_filter_simps)
  obtain c where reach: "(script_step cauchy_dists)\<^sup>*\<^sup>* (script_init ?df) c" and fin: "final_config c"
    using run_outcome [of cauchy_dists ?df] by blast
  obtain st g where c: "c = (st, g)" by (cases c)
  from script_empty_sales_raises [OF det ss e reach [unfolded c] fin [unfolded c]] reach c cols
  show ?thesis by auto
qed


text \<open>C37: when the sales column has a missing value, a run that reaches the end
  prints the margin of error as \<open>nan\<close>, in the interval line 122
  (\<open>Average Sales: <mean> \<plusminus> nan\<close>) and in the report line 129
  (\<open>95% Confidence Interval: \<plusminus> nan\<close>), beside a mean that skips the missing
  value: \<open>stats.sem\<close> propagates NaN where \<open>mean()\<close> does not.\<close>

theorem script_prints_nan_margin:
  assumes r: "(script_step D)\<^sup>*\<^sup>* (script_init df) (Running Sec_End, g)"
    and det: "detect_columns (columns (normalize_columns df)) = Inr rr"
    and ss: "sales_series (normalize_columns df) (sales_col rr) = Inr s" and nan: "None \<in> set s"
  shows "Out_Interval (fmt_fixed 0 (series_mean s)) Fixed_NaN \<in> set (g_out g) \<and>
         Out_Report (fmt_fixed 0 (series_mean s)) Fixed_NaN \<in> set (g_out g) \<and>
         render_line (Out_Interval (fmt_fixed 0 (series_mean s)) Fixed_NaN) =
           Some ['''', ''95% CONFIDENCE INTERVAL'',
                 ''Average Sales: '' @ fixed_text 0 (fmt_fixed 0 (series_mean s)) @ '' '' @ [plus_minus] @ '' nan''] \<and>
         render_line (Out_Report (fmt_fixed 0 (series_mean s)) Fixed_NaN) =
           Some ['''', ''STATISTICAL ANALYSIS REPORT'', ''Mean Sales: '' @ fixed_text 0 (fmt_fixed 0 (series_mean s)),
                 ''95% Confidence Interval: '' @ [plus_minus] @ '' nan'']"
proof -
  obtain rep where rep: "report_of g = Some rep" and run: "run_analysis D df = Inr rep"
    using end_report [OF r] by blast
  obtain s' where d: "detect_columns (columns (normalize_columns df)) = Inr (detected rep)"
    and s': "sales_series (normalize_columns df) (sales_col (detected rep)) = Inr s'"
    and m: "mean_sales rep = series_mean s'" and me: "margin_error rep = margin_of_error D s' (series_mean s')"
    using run_analysis_Inr_sales [OF run] by blast
  have "s' = s" using d det s' ss by simp
  then have m': "mean_sales rep = series_mean s" and me': "margin_error rep = None"
    using m me margin_of_error_missing [OF nan] by simp_all
  have "output_inv (Running Sec_End, g)"
    using output_inv_steps [OF r output_inv_init] .
  then have "g_out g = printed_run (columns (g_df g)) rep"
    using printed_before_end [OF rep] by simp
  then show ?thesis using m' me'
    by (simp add: printed_run_def interval_line_def report_lines_def fmt_fixed_def
        interval_text_def report_text_def fixed_text_def)
qed

theorem script_prints_nan_margin_witness:
  "\<exists>g. (script_step cauchy_dists)\<^sup>*\<^sup>* (script_init [(''sales'', [Num 10, NA, Num 20])])
      (Running Sec_End, g) \<and> Out_Interval (Fixed False 15) Fixed_NaN \<in> set (g_out g) \<and>
      Out_Report (Fixed False 15) Fixed_NaN \<in> set (g_out g)"
proof -
  let ?df = "[(''sales'', [Num 10, NA, Num 20])]"
  let ?r = "\<lparr>sales_col = ''sales'', region_col = None, product_col = None\<rparr>"
  have cols: "columns (normalize_columns ?df) = [''sales'']" by (simp add: header_eval)
  have det: "detect_columns (columns (normalize_columns ?df)) = Inr ?r"
    unfolding cols by (simp add: detect_eval)
  have ss: "sales_series (normalize_columns ?df) (sales_col ?r) = Inr [Some 10, None, Some 20]"
    by (simp add: run_eval)
  have nan: "None \<in> set [Some 10, None, Some (20 :: real)]" by simp
  have mean: "fmt_fixed 0 (series_mean [Some 10, None, Some 20]) = Fixed False 15"
    by (simp add: fmt_fixed_def series_mean_def avg_def dropna_def map_filter_simps
        round_half_even_def Let_def)
  obtain rep where "run_analysis cauchy_dists ?df = Inr rep"
    by (atomize_elim, simp add: run_eval)
  then obtain g where r: "(script_step cauchy_dists)\<^sup>*\<^sup>* (script_init ?df) (Running Sec_End, g)"
    using run_outcome [of cauchy_dists ?df] outcome_Inr by metis
  from script_prints_nan_margin [OF r det ss nan] r mean show ?thesis by auto
qed

end
