(* ===== verification/Spec2Isabelle.thy ===== *)
theory Spec2Isabelle
  imports Script
begin

text \<open>
  Verification development of \<open>src/bussiness_analysis.py\<close>, a 134-line pandas/scipy
  script that loads a sales table, finds its sales, region and product columns, and
  reports descriptive statistics, a normality test, a correlation matrix, three
  hypothesis tests, a 95\% confidence interval and a significance verdict. The script
  is one straight-line pass over one DataFrame; each step reads the frame and the
  values earlier steps computed, and an exception ends the run.

  \<^bold>\<open>Model.\<close> Python floats are \<open>real\<close> (rounding is not modelled); a DataFrame is
  a \<open>frame\<close>, a list of named columns of cells \<open>Num r | Str s | NA\<close>; a float
  series is a \<open>real option list\<close> with \<open>None\<close> for NaN; every exception is a value
  of \<open>error + 'a\<close>. The distribution functions of \<open>scipy.stats\<close> (t and F survival
  and quantile functions, the Shapiro--Wilk p-value) are library code the script
  only calls: they are the record \<open>dists\<close>, a parameter of the model, and a lemma
  that needs a property of them (the t distribution is symmetric) says so in its
  hypotheses. Strings are Latin-1 code points, one \<open>char\<close> each.

  \<^bold>\<open>Theories, in the order of the script.\<close>
  \<^item> \<open>Prelude\<close>: errors, cells, series, frames, the \<open>dists\<close> interface and the
    order of group keys (an instance of \<open>linorder\<close> for \<open>cell\<close>); lemmas on NaN
    dropping, sums of reals, Cauchy--Schwarz, \<open>fold max\<close>.
  \<^item> \<open>Loader\<close> (lines 17--23): \<open>str.strip\<close>, \<open>str.replace\<close>, \<open>str.lower\<close> and the
    header normalisation \<open>normalize_columns\<close>; lemmas: a normalised name has no
    space, no surrounding whitespace, normalising is idempotent, and, exactly, a header
    padded with whitespace becomes its inner text with spaces turned into underscores and
    capitals lowered.
  \<^item> \<open>Detector\<close> (lines 28--45): Python's \<open>in\<close> on strings (\<open>py_in\<close>), the three
    role predicates, \<open>detect_sales\<close> with the fatal error of line 31, the optional
    roles; lemmas: the first matching column is chosen, the error occurs exactly when
    none matches, detection after normalisation is a case-insensitive match on
    the raw header, and one column can take two roles.
  \<^item> \<open>Descriptive\<close> (lines 48--62): pandas \<open>mean\<close>, \<open>median\<close>, \<open>mode()[0]\<close>,
    \<open>std\<close>, \<open>describe\<close> with NaN skipped and numpy's linear quantiles; lemmas:
    50\% row = median, ordered quartiles, the mode's
    characterisation and its \<open>KeyError\<close>, \<open>std = 0\<close> exactly on constant data.
  \<^item> \<open>Hypothesis\<close> (lines 73--74, 88--109): the Shapiro--Wilk guard, the one-sample
    t-test, \<open>unique()\<close>, the region groups and Student's pooled t-test, \<open>groupby\<close>
    and \<open>f_oneway\<close>; lemmas: the self-comparison of line 92 has p-value 1 or NaN,
    \<open>unique()\<close> keeps first occurrences, the two-group p-value is symmetric in its
    groups, the product groups partition the sales values and are never empty,
    \<open>SST = SSB + SSW\<close>, a NaN first region gives a NaN p-value, and every p-value is
    NaN or in \<open>[0, 1]\<close> when the library's survival functions are probabilities.
    \<open>shapiro_p\<close> follows SciPy before 1.14, which raises \<open>ValueError\<close> below three
    values (later versions return NaN with a warning).
  \<^item> \<open>Interval\<close> (lines 114--122): \<open>stats.sem\<close>, \<open>stats.t.interval\<close>, the margin of
    error; lemmas: the margin is the textbook \<open>t(0.975, n - 1) s / sqrt n\<close>
    (a refinement of the formula by the code), strictly shrinks as \<open>n\<close> grows at a
    fixed variance, and is NaN as soon as one sales value is missing.
  \<^item> \<open>Correlation\<close> (lines 79--85): \<open>select_dtypes\<close> and pandas' pairwise-complete
    Pearson matrix; lemmas: every coefficient is in \<open>[-1, 1]\<close>, the matrix is
    symmetric, its diagonal is 1 on non-constant columns and NaN on the others; a
    frame with no row has no numeric column.
  \<^item> \<open>Pipeline\<close> (lines 17--134): the whole run \<open>run_analysis\<close> as one function
    from the loaded frame to the exception it raises or the \<open>report\<close> it prints,
    with the verdict of lines 131--134; lemmas: which step raises which exception and
    when each step succeeds.
  \<^item> \<open>Output\<close> (the print calls of lines 22--134): one \<open>out_line\<close> per group of
    prints of one result, Python's \<open>:.{d}f\<close> formatting (\<open>fmt_fixed\<close>: the
    sign, the magnitude rounded half to even, \<open>nan\<close>), and the text of the lines
    (\<open>fixed_text\<close> writes the digits, the padding zeros and the point; \<open>render_line\<close>
    gives the lines of the detected columns, the sales summary, the interval, the report
    and the verdict, with \<open>None\<close> printed for a missing role and \<open>\<plusminus>\<close> as code
    point 177). Lemma: the printed text, read back as a decimal numeral
    (\<open>decimal_value\<close>), is the nearest multiple of \<open>10^-d\<close> with the float's sign,
    ties to even; the digit lemmas behind it (\<open>read_digits\<close> of \<open>nat_digits n\<close> is
    \<open>n\<close>, padding zeros are ignored) are general.
  \<^item> \<open>Script\<close> (lines 17--134): the script as Python executes it, a small-step
    relation \<open>script_step\<close> over configurations (the section about to run, or the
    exception raised, and a record of the global variables bound so far), one rule per
    way a section ends. Lemmas: the relation is deterministic; every reachable
    configuration has bound each variable its section reads (an invariant by rule
    induction, so no \<open>NameError\<close>); every run ends (each step lowers the
    number of sections left); the final configuration is unique and shows the
    exception or report \<open>run_analysis\<close> computes, so the function refines the
    execution; the sales error leaves every statistic unbound (nothing is computed
    before line 31 raises), and no section changes the frame after line 20. The
    configuration also carries what the run has printed: a run stopped by the sales
    error has printed only the column names, and a complete run has printed the
    script's lines in order, each once, with the values of its report, the last of
    them the text "Sales are not statistically significant.". On the error paths, a
    sales column with no value is described (line 51) before \<open>mode()[0]\<close> raises
    \<open>KeyError\<close>, and a missing sales value makes the interval and the report print the
    margin as \<open>nan\<close>.
  \<^item> This theory: properties of the whole run. The verdict is never
    "significant"; the run stops with the sales error exactly when no raw column name
    contains a sales keyword in any case; a frame with a unique numeric sales column of
    at least three values and unambiguous role columns is analysed to the end; two raw
    headers that normalise to the sales column's name make it raise \<open>KeyError\<close> or
    \<open>TypeError\<close>.

  \<^bold>\<open>Not modelled.\<close> \<open>pd.read_csv\<close> (I/O: the model starts from its frame), the two
    plots (lines 67--71, 83--85), the text layout of the printed tables and the
    \<open>repr\<close> of floats printed unformatted (lines 23, 51, 74, 81, 93, 102, 109: the
    values printed are modelled, their text is not), the
    Shapiro--Wilk algorithm and the t and F distributions themselves (parameters),
    floating-point rounding (so the self-comparison's t statistic is exactly 0, where
    floats may give a tiny non-zero value with a p-value close to 1), code points
    above 255 in column names, boolean columns (the model's cells are numbers, strings
    and NaN). The script has no loop of its own, so no fuel is needed:
    every definition is total and structural, and the termination of a run of
    \<open>script_step\<close> is proved with the measure \<open>steps_left\<close>.
\<close>

section \<open>Properties of the whole run\<close>

text \<open>C1: whatever the data, a run of the script that reaches the report prints
  "Sales are not statistically significant.": the verdict of lines 131--134 rests on
  the one-sample test of line 92, which compares the sales with their own mean.\<close>

theorem verdict_never_significant:
  assumes "t_centered D" and "run_analysis D df = Inr rep"
  shows "verdict rep = NotSignificant"
  using assms by (rule run_analysis_verdict)

theorem verdict_never_significant_witness:
  "t_centered cauchy_dists \<and>
   (\<exists>rep. run_analysis cauchy_dists
            [(''sales'', [Num 10, Num 20, Num 40]), (''region'', [Str ''N'', Str ''S'', Str ''N'']),
             (''product'', [Str ''a'', Str ''b'', Str ''a''])] = Inr rep \<and>
          verdict rep = NotSignificant)"
proof -
  obtain rep where run: "run_analysis cauchy_dists
      [(''sales'', [Num 10, Num 20, Num 40]), (''region'', [Str ''N'', Str ''S'', Str ''N'']),
       (''product'', [Str ''a'', Str ''b'', Str ''a''])] = Inr rep"
    by (atomize_elim, simp add: run_eval)
  show ?thesis using verdict_never_significant [OF cauchy_centered run] run cauchy_centered
    by blast
qed

text \<open>C6: the run stops with the exception of line 31, before any statistic is
  computed, exactly when no column name of the file, lower-cased, contains
  \<open>sale\<close> or \<open>revenue\<close>; every later failure is a different exception.\<close>

theorem run_analysis_no_sales:
  "run_analysis D df = Inl NoSalesColumn \<longleftrightarrow>
   (\<forall>c\<in>set (columns df). \<not> is_sales_name (py_lower c))"
proof -
  have "detect_sales (columns (normalize_columns df)) = Inl NoSalesColumn \<longleftrightarrow>
        filter (\<lambda>h. is_sales_name (py_lower h)) (columns df) = []"
    by (simp add: detect_sales_NoSalesColumn_iff columns_normalize_columns filter_map_normalize)
  then show ?thesis by (simp add: run_analysis_NoSalesColumn filter_empty_conv)
qed

theorem run_analysis_no_sales_witness:
  "run_analysis cauchy_dists [(''order id'', [Num 1]), (''region'', [Str ''N''])] = Inl NoSalesColumn"
proof -
  have h: "\<forall>c\<in>set (columns [(''order id'', [Num 1]), (''region'', [Str ''N''])]). \<not> is_sales_name (py_lower c)"
    by (simp add: header_eval detect_eval)
  show ?thesis using h run_analysis_no_sales [of cauchy_dists "[(''order id'', [Num 1]), (''region'', [Str ''N''])]"]
    by simp
qed

text \<open>C23: the script runs to its report on every frame whose normalised header
  names a sales column exactly once, holding numbers or NaN and at least three
  numbers, and names any detected region or product column exactly once: no other
  input makes it raise.\<close>

theorem run_analysis_completes:
  assumes det: "detect_columns (columns (normalize_columns df)) = Inr r"
    and sales: "columns_named (normalize_columns df) (sales_col r) = [v]"
    and num: "is_numeric_column v" and three: "3 \<le> length (dropna (to_series v))"
    and reg: "\<forall>c. region_col r = Some c \<longrightarrow> length (columns_named (normalize_columns df) c) = 1"
    and prod: "\<forall>c. product_col r = Some c \<longrightarrow> length (columns_named (normalize_columns df) c) = 1"
  shows "\<exists>rep. run_analysis D df = Inr rep"
proof -
  let ?s = "to_series v" and ?df = "normalize_columns df"
  have ss: "sales_series ?df (sales_col r) = Inr ?s" using sales num by (simp add: sales_series_def)
  have "dropna ?s \<noteq> []" using three by auto
  then obtain m where m: "mode_first ?s = Inr m" using mode_first_Inr_ex by blast
  obtain w where w: "shapiro_p D ?s = Inr w" using shapiro_p_Inr_ex [OF three] by blast
  obtain p2 where p2: "region_step D ?df r ?s = Inr p2" using region_step_Inr_ex [OF reg] by blast
  obtain p3 where p3: "product_step D ?df r ?s = Inr p3" using product_step_Inr_ex [OF prod] by blast
  show ?thesis using det ss m w p2 p3 by (simp add: run_analysis_def Let_def)
qed

theorem run_analysis_completes_witness:
  "detect_columns (columns (normalize_columns [(''sales'', [Num 10, Num 20, Num 40])])) =
     Inr \<lparr>sales_col = ''sales'', region_col = None, product_col = None\<rparr> \<and>
   (\<exists>rep. run_analysis cauchy_dists [(''sales'', [Num 10, Num 20, Num 40])] = Inr rep)"
proof -
  let ?df = "[(''sales'', [Num 10, Num 20, Num 40])]"
  have det: "detect_columns (columns (normalize_columns ?df)) =
      Inr \<lparr>sales_col = ''sales'', region_col = None, product_col = None\<rparr>"
    by (simp add: header_eval detect_eval)
  have "columns_named (normalize_columns ?df) ''sales'' = [[Num 10, Num 20, Num 40]]"
    by (simp add: columns_named_def header_eval)
  moreover have "is_numeric_column [Num 10, Num 20, Num 40]"
    by (simp add: is_numeric_column_def)
  moreover have "3 \<le> length (dropna (to_series [Num 10, Num 20, Num 40]))"
    by (simp add: to_series_def)
  ultimately show ?thesis
    using run_analysis_completes [OF det, of "[Num 10, Num 20, Num 40]" cauchy_dists] det by simp
qed

text \<open>C31: two raw headers that the normalisation of line 20 makes equal to the
  sales column's name (\<open>total sales\<close> and \<open>total_sales\<close>) make \<open>df[sales_col]\<close> a
  DataFrame, and the run stops with \<open>KeyError\<close> at \<open>mode()[0]\<close> (line 55), or
  with \<open>TypeError\<close> at \<open>mean()\<close> (line 53) when one of them holds text.\<close>

theorem run_analysis_duplicate_sales:
  assumes det: "detect_columns (columns (normalize_columns df)) = Inr r"
    and dup: "2 \<le> length (columns_named (normalize_columns df) (sales_col r))"
  shows "run_analysis D df = Inl KeyError \<or> run_analysis D df = Inl TypeError"
  using sales_series_duplicate [OF dup] det by (auto simp: run_analysis_def)

theorem run_analysis_duplicate_sales_witness:
  "detect_columns (columns (normalize_columns [(''total sales'', [Num 1]), (''total_sales'', [Num 2])])) =
     Inr \<lparr>sales_col = ''total_sales'', region_col = None, product_col = None\<rparr> \<and>
   2 \<le> length (columns_named (normalize_columns [(''total sales'', [Num 1]), (''total_sales'', [Num 2])])
          ''total_sales'') \<and>
   (run_analysis cauchy_dists [(''total sales'', [Num 1]), (''total_sales'', [Num 2])] = Inl KeyError \<or>
    run_analysis cauchy_dists [(''total sales'', [Num 1]), (''total_sales'', [Num 2])] = Inl TypeError)"
proof -
  let ?df = "[(''total sales'', [Num 1]), (''total_sales'', [Num 2])]"
  have det: "detect_columns (columns (normalize_columns ?df)) =
      Inr \<lparr>sales_col = ''total_sales'', region_col = None, product_col = None\<rparr>"
    by (simp add: header_eval detect_eval)
  have dup: "2 \<le> length (columns_named (normalize_columns ?df) ''total_sales'')"
    by (simp add: columns_named_def header_eval)
  show ?thesis using det dup run_analysis_duplicate_sales [OF det, of cauchy_dists] by simp
qed

end
